(* ===== verification/Skall_Prelude.thy ===== *)
theory Skall_Prelude
  imports Main "HOL-Library.AList" "HOL-Library.Sublist" "HOL-Library.Char_ord"
    "HOL-Library.List_Lexorder" "HOL-Library.Product_Lexorder" "HOL-Library.Word" "HOL-Library.Multiset"
begin

text \<open>
  Prelude of the SKALL development: the Go vocabulary that the components share.

  \<^item> Go strings and byte slices are byte sequences, modelled as \<^typ>\<open>string\<close>
    (a \<^typ>\<open>char\<close> is one byte); \<open>len\<close> is \<^const>\<open>length\<close>.
  \<^item> \<open>strings.TrimSpace\<close>, \<open>strings.ToLower\<close>, \<open>strings.Contains\<close>,
    \<open>strings.HasPrefix\<close>, \<open>strconv.FormatInt\<close> on those strings.
  \<^item> Go maps as association lists with distinct keys; the interface the components use
    is the locale \<open>go_map\<close>, interpreted on \<^const>\<open>AList.update\<close> and \<^const>\<open>AList.delete\<close>.
  \<^item> Buffered channels with the non-blocking send of \<open>select { case ch <- v: default: }\<close>.
  \<^item> Reachability under a step relation, and the locale \<open>invariant_system\<close> that lifts a
    one-step invariant to every reachable state.
\<close>

named_theorems skall_defs \<open>definitions of operations, unfolded by the component proofs\<close>
named_theorems skall_maps \<open>lookup and key lemmas for Go maps\<close>

text \<open>Go's \<open>len\<close> is a signed \<open>int\<close>.\<close>

abbreviation len :: "'a list \<Rightarrow> int" where
  "len xs \<equiv> int (length xs)"

lemma of_char_int [simp]: "(0 :: int) \<le> of_char c" "of_char c < (256 :: int)"
proof -
  have "(of_char c :: int) = int (of_char c)" by (simp only: of_nat_of_char)
  then show "(0 :: int) \<le> of_char c" "of_char c < (256 :: int)"
    using nat_of_char_less_256 [of c] by linarith+
qed

section \<open>White space\<close>

text \<open>
  The UTF-8 encodings of the runes for which \<open>unicode.IsSpace\<close> holds. A byte string
  starts (ends) with such a rune exactly when it starts (ends) with one of these byte
  sequences, because UTF-8 decoding is strict: no other sequence decodes to these runes.
\<close>

definition space_runes :: "string list" where
  "space_runes =
     [[CHR 0x09], [CHR 0x0A], [CHR 0x0B], [CHR 0x0C], [CHR 0x0D], [CHR 0x20],
      [CHR 0xC2, CHR 0x85], [CHR 0xC2, CHR 0xA0],
      [CHR 0xE1, CHR 0x9A, CHR 0x80],
      [CHR 0xE2, CHR 0x80, CHR 0x80], [CHR 0xE2, CHR 0x80, CHR 0x81],
      [CHR 0xE2, CHR 0x80, CHR 0x82], [CHR 0xE2, CHR 0x80, CHR 0x83],
      [CHR 0xE2, CHR 0x80, CHR 0x84], [CHR 0xE2, CHR 0x80, CHR 0x85],
      [CHR 0xE2, CHR 0x80, CHR 0x86], [CHR 0xE2, CHR 0x80, CHR 0x87],
      [CHR 0xE2, CHR 0x80, CHR 0x88], [CHR 0xE2, CHR 0x80, CHR 0x89],
      [CHR 0xE2, CHR 0x80, CHR 0x8A], [CHR 0xE2, CHR 0x80, CHR 0xA8],
      [CHR 0xE2, CHR 0x80, CHR 0xA9], [CHR 0xE2, CHR 0x80, CHR 0xAF],
      [CHR 0xE2, CHR 0x81, CHR 0x9F], [CHR 0xE3, CHR 0x80, CHR 0x80]]"

definition has_prefix :: "string \<Rightarrow> string \<Rightarrow> bool" where
  "has_prefix s p \<longleftrightarrow> take (length p) s = p"

text \<open>Remove words of \<open>ws\<close> from the front as long as one of them is a prefix.\<close>

function strip :: "string list \<Rightarrow> string \<Rightarrow> string" where
  "strip ws s =
     (case find (\<lambda>w. w \<noteq> [] \<and> has_prefix s w) ws of
        None \<Rightarrow> s
      | Some w \<Rightarrow> strip ws (drop (length w) s))"
  by pat_completeness auto
termination
  by (relation "measure (\<lambda>(ws, s). length s)")
    (auto simp: find_Some_iff has_prefix_def split: nat_diff_split)

declare strip.simps [simp del]

definition TrimLeft :: "string \<Rightarrow> string" where
  "TrimLeft s = strip space_runes s"

definition TrimRight :: "string \<Rightarrow> string" where
  "TrimRight s = rev (strip (map rev space_runes) (rev s))"

definition TrimSpace :: "string \<Rightarrow> string" where
  "TrimSpace s = TrimRight (TrimLeft s)"

definition starts_clean :: "string list \<Rightarrow> string \<Rightarrow> bool" where
  "starts_clean ws s \<longleftrightarrow> (\<forall>w \<in> set ws. w \<noteq> [] \<longrightarrow> \<not> has_prefix s w)"

lemma has_prefix_iff: "has_prefix s p \<longleftrightarrow> prefix p s"
  by (auto simp: has_prefix_def prefix_def) (metis append_take_drop_id)

lemma find_prefix_None: "find (\<lambda>w. w \<noteq> [] \<and> has_prefix s w) ws = None \<longleftrightarrow> starts_clean ws s"
  by (auto simp: find_None_iff starts_clean_def)

lemma strip_clean: "starts_clean ws s \<Longrightarrow> strip ws s = s"
  by (subst strip.simps) (simp add: find_prefix_None [THEN iffD2])

lemma starts_clean_strip: "starts_clean ws (strip ws s)"
proof (induction ws s rule: strip.induct)
  case (1 ws s)
  show ?case
  proof (cases "find (\<lambda>w. w \<noteq> [] \<and> has_prefix s w) ws")
    case None
    then have "starts_clean ws s" by (simp only: find_prefix_None)
    then show ?thesis by (simp add: strip_clean)
  next
    case (Some w)
    with 1 show ?thesis by (subst strip.simps) simp
  qed
qed

lemma suffix_strip: "suffix (strip ws s) s"
proof (induction ws s rule: strip.induct)
  case (1 ws s)
  show ?case
  proof (cases "find (\<lambda>w. w \<noteq> [] \<and> has_prefix s w) ws")
    case None
    then show ?thesis by (subst strip.simps) simp
  next
    case (Some w)
    with 1 have "suffix (strip ws (drop (length w) s)) (drop (length w) s)" by simp
    then show ?thesis
      using Some by (subst strip.simps) (simp add: suffix_order.order_trans [OF _ suffix_drop])
  qed
qed

lemma starts_clean_prefix: "starts_clean ws s \<Longrightarrow> prefix r s \<Longrightarrow> starts_clean ws r"
  unfolding starts_clean_def has_prefix_iff by (meson prefix_order.order_trans)

lemma TrimRight_prefix: "prefix (TrimRight s) s"
  using suffix_strip [of "map rev space_runes" "rev s"]
  by (simp add: TrimRight_def suffix_to_prefix)

lemma TrimSpace_starts_clean: "starts_clean space_runes (TrimSpace s)"
  unfolding TrimSpace_def
  by (rule starts_clean_prefix [OF _ TrimRight_prefix]) (simp add: TrimLeft_def starts_clean_strip)

lemma TrimRight_idem: "TrimRight (TrimRight s) = TrimRight s"
  by (simp add: TrimRight_def strip_clean starts_clean_strip)

lemma TrimSpace_idem [simp]: "TrimSpace (TrimSpace s) = TrimSpace s"
proof -
  have "TrimLeft (TrimSpace s) = TrimSpace s"
    unfolding TrimLeft_def by (rule strip_clean [OF TrimSpace_starts_clean])
  then show ?thesis by (simp add: TrimSpace_def TrimRight_idem)
qed

lemma length_TrimSpace: "length (TrimSpace s) \<le> length s"
proof -
  have "length (TrimSpace s) \<le> length (TrimLeft s)"
    unfolding TrimSpace_def by (rule prefix_length_le [OF TrimRight_prefix])
  also have "\<dots> \<le> length s"
    unfolding TrimLeft_def by (rule suffix_length_le [OF suffix_strip])
  finally show ?thesis .
qed

lemma TrimSpace_Nil [simp]: "TrimSpace [] = []"
  using length_TrimSpace [of "[]"] by simp

text \<open>A trimmed, non-empty string is a valid key of the maps and tables of the program.\<close>

definition trimmed :: "string \<Rightarrow> bool" where
  "trimmed s \<longleftrightarrow> TrimSpace s = s"

lemma trimmed_TrimSpace [simp]: "trimmed (TrimSpace s)"
  by (simp add: trimmed_def)

lemma trimmedD [dest]: "trimmed s \<Longrightarrow> TrimSpace s = s"
  by (simp add: trimmed_def)


section \<open>Other string functions of the Go library\<close>

text \<open>
  \<open>strings.ToLower\<close>, exact wherever the result is compared with or searched for an
  ASCII text, which is its only use in the program: upper-case ASCII letters are folded,
  and so are the two non-ASCII runes whose lower case is ASCII (U+0130 and U+212A).
  Every other rune keeps its bytes; its lower case has no ASCII byte either.
\<close>

definition lower_ascii :: "char \<Rightarrow> char" where
  "lower_ascii c = (let n = of_char c :: int in if 65 \<le> n \<and> n \<le> 90 then char_of (n + 32) else c)"

fun ToLower :: "string \<Rightarrow> string" where
  "ToLower [] = []"
| "ToLower (c # s) =
     (if c = CHR 0xC4 \<and> has_prefix s [CHR 0xB0] then CHR ''i'' # ToLower (drop 1 s)
      else if c = CHR 0xE2 \<and> has_prefix s [CHR 0x84, CHR 0xAA] then CHR ''k'' # ToLower (drop 2 s)
      else lower_ascii c # ToLower s)"

fun Contains :: "string \<Rightarrow> string \<Rightarrow> bool" where
  "Contains [] p = (p = [])"
| "Contains (c # s) p = (has_prefix (c # s) p \<or> Contains s p)"

lemma Contains_iff: "Contains s p \<longleftrightarrow> sublist p s"
  by (induction s p rule: Contains.induct) (auto simp: has_prefix_iff sublist_Cons_right)

text \<open>\<open>strconv.FormatInt(i, 10)\<close> and \<open>strconv.Itoa\<close>.\<close>

definition digit :: "int \<Rightarrow> char" where
  "digit n = char_of (48 + n)"

function digits :: "int \<Rightarrow> string" where
  "digits n = (if n < 10 then [digit n] else digits (n div 10) @ [digit (n mod 10)])"
  by pat_completeness auto
termination
  by (relation "measure nat") auto

declare digits.simps [simp del]

definition FormatInt :: "int \<Rightarrow> string" where
  "FormatInt i = (if i < 0 then CHR ''-'' # digits (- i) else digits i)"

definition is_digit :: "char \<Rightarrow> bool" where
  "is_digit c \<longleftrightarrow> (let n = of_char c :: int in 48 \<le> n \<and> n \<le> 57)"

definition digit_val :: "char \<Rightarrow> int" where
  "digit_val c = of_char c - 48"

definition digits_val :: "string \<Rightarrow> int" where
  "digits_val s = foldl (\<lambda>n c. 10 * n + digit_val c) 0 s"

text \<open>
  \<open>strconv.Atoi\<close> on a 64-bit platform: an optional sign, at least one decimal digit and
  nothing else, and a value that fits in \<open>int64\<close>. \<open>None\<close> is a \<open>*NumError\<close>.
\<close>

definition in_int64 :: "int \<Rightarrow> bool" where
  "in_int64 i \<longleftrightarrow> - (2 ^ 63) \<le> i \<and> i < 2 ^ 63"

definition Atoi_digits :: "bool \<Rightarrow> string \<Rightarrow> int option" where
  "Atoi_digits neg s =
     (if s = [] \<or> \<not> list_all is_digit s then None
      else let v = (if neg then - digits_val s else digits_val s)
           in if in_int64 v then Some v else None)"

fun Atoi :: "string \<Rightarrow> int option" where
  "Atoi (c # s) =
     (if c = CHR ''-'' then Atoi_digits True s
      else if c = CHR ''+'' then Atoi_digits False s
      else Atoi_digits False (c # s))"
| "Atoi [] = None"

lemma digit_props [simp]:
  assumes "0 \<le> n" "n < 10"
  shows "is_digit (digit n)" "digit_val (digit n) = n"
proof -
  have "of_char (digit n) = (48 + n :: int)"
    using assms by (simp add: digit_def)
  then show "is_digit (digit n)" "digit_val (digit n) = n"
    using assms by (auto simp: is_digit_def digit_val_def)
qed

lemma digits_nonempty [simp]: "digits n \<noteq> []"
  by (subst digits.simps) simp

lemma digits_are_digits: "0 \<le> n \<Longrightarrow> list_all is_digit (digits n)"
  by (induction n rule: digits.induct) (subst digits.simps, simp)

lemma digits_val_digits [simp]: "0 \<le> n \<Longrightarrow> digits_val (digits n) = n"
proof (induction n rule: digits.induct)
  case (1 n)
  then show ?case
    by (subst digits.simps) (simp add: digits_val_def)
qed

lemma is_digit_not_sign: "is_digit c \<Longrightarrow> c \<noteq> CHR ''-'' \<and> c \<noteq> CHR ''+''"
  by (auto simp: is_digit_def)

lemma Atoi_nonneg_digits:
  assumes "s \<noteq> []" "list_all is_digit s"
  shows "Atoi s = Atoi_digits False s"
  using assms by (cases s) (auto dest: is_digit_not_sign)

theorem Atoi_FormatInt:
  assumes "in_int64 i"
  shows "Atoi (FormatInt i) = Some i"
proof (cases "i < 0")
  case True
  then show ?thesis
    using assms digits_are_digits [of "- i"] by (simp add: FormatInt_def Atoi_digits_def)
next
  case False
  then have "Atoi (digits i) = Atoi_digits False (digits i)"
    by (intro Atoi_nonneg_digits digits_are_digits) simp_all
  with False show ?thesis
    using assms digits_are_digits [of i] by (simp add: FormatInt_def Atoi_digits_def)
qed

corollary FormatInt_inj: "in_int64 i \<Longrightarrow> in_int64 j \<Longrightarrow> FormatInt i = FormatInt j \<Longrightarrow> i = j"
  by (metis Atoi_FormatInt option.inject)

section \<open>Go maps\<close>

text \<open>
  The interface the components use of a Go map: assignment, \<open>delete\<close>, lookup and the
  keys that \<open>range\<close> visits, each once.
\<close>

locale go_map =
  fixes empty :: "'m"
    and put :: "'k \<Rightarrow> 'v \<Rightarrow> 'm \<Rightarrow> 'm"
    and del :: "'k \<Rightarrow> 'm \<Rightarrow> 'm"
    and get :: "'m \<Rightarrow> 'k \<Rightarrow> 'v option"
    and keys :: "'m \<Rightarrow> 'k list"
    and wf :: "'m \<Rightarrow> bool"
  assumes get_empty: "get empty k = None"
    and get_put: "get (put k v m) j = (if j = k then Some v else get m j)"
    and get_del: "get (del k m) j = (if j = k then None else get m j)"
    and keys_get: "k \<in> set (keys m) \<longleftrightarrow> get m k \<noteq> None"
    and keys_distinct: "wf m \<Longrightarrow> distinct (keys m)"
    and wf_empty: "wf empty"
    and wf_put: "wf m \<Longrightarrow> wf (put k v m)"
    and wf_del: "wf m \<Longrightarrow> wf (del k m)"
begin

lemma set_keys_put: "set (keys (put k v m)) = insert k (set (keys m))"
  by (auto simp: keys_get get_put split: if_splits)

lemma set_keys_del: "set (keys (del k m)) = set (keys m) - {k}"
  by (auto simp: keys_get get_del split: if_splits)

lemma len_put:
  assumes "wf m"
  shows "length (keys (put k v m)) = (if get m k = None then Suc (length (keys m)) else length (keys m))"
proof -
  have "length (keys (put k v m)) = card (insert k (set (keys m)))"
    using assms by (metis distinct_card keys_distinct set_keys_put wf_put)
  also have "\<dots> = (if get m k = None then Suc (card (set (keys m))) else card (set (keys m)))"
    by (simp add: card_insert_if keys_get)
  finally show ?thesis
    using assms by (simp add: distinct_card keys_distinct)
qed

lemma len_del_le: "wf m \<Longrightarrow> length (keys (del k m)) \<le> length (keys m)"
  by (metis card_Diff1_le distinct_card keys_distinct set_keys_del wf_del)

end

interpretation alist: go_map "[]" AList.update AList.delete map_of "map fst" "\<lambda>m. distinct (map fst m)"
proof unfold_locales
  fix m :: "('a \<times> 'b) list" and k
  show "k \<in> set (map fst m) \<longleftrightarrow> map_of m k \<noteq> None"
    by (simp add: map_of_eq_None_iff)
qed (auto simp: AList.update_conv' AList.delete_conv' AList.distinct_update AList.distinct_delete)

declare map_of_eq_Some_iff [simp del]

lemmas map_of_put = alist.get_put
lemmas map_of_del = alist.get_del

declare alist.get_put [skall_maps] alist.get_del [skall_maps] alist.set_keys_put [skall_maps]
  alist.set_keys_del [skall_maps]

text \<open>
  \<open>range\<close> over a map visits every entry once in an unspecified order. Operations whose
  result depends on that order take it as an argument \<open>shuf\<close>, the permutation the
  runtime picks; their theorems assume no more than \<open>any_order shuf\<close>.
\<close>

definition any_order :: "('a list \<Rightarrow> 'a list) \<Rightarrow> bool" where
  "any_order shuf \<longleftrightarrow> (\<forall>xs. mset (shuf xs) = mset xs)"

lemma any_order_set: "any_order shuf \<Longrightarrow> set (shuf xs) = set xs"
  unfolding any_order_def by (metis set_mset_mset)

lemma any_order_length: "any_order shuf \<Longrightarrow> length (shuf xs) = length xs"
  unfolding any_order_def by (metis size_mset)

lemma any_order_distinct: "any_order shuf \<Longrightarrow> distinct (shuf xs) = distinct xs"
  unfolding any_order_def by (metis distinct_count_atmost_1 set_mset_mset count_mset)

lemma any_order_id: "any_order (\<lambda>xs. xs)"
  by (simp add: any_order_def)

lemma any_order_rev: "any_order rev"
  by (simp add: any_order_def)

section \<open>Buffered channels\<close>

record 'a chan =
  chan_buf :: "'a list"
  chan_cap :: nat
  chan_closed :: bool

definition make_chan :: "nat \<Rightarrow> 'a chan" where
  "make_chan n = \<lparr>chan_buf = [], chan_cap = n, chan_closed = False\<rparr>"

datatype send_outcome = Sent | Dropped | SendPanic

text \<open>
  \<open>select { case ch <- v: ... default: ... }\<close> with no waiting receiver: the value goes
  into the buffer if there is room, else the default branch runs. A send on a closed
  channel panics, also inside \<open>select\<close>.
\<close>

definition try_send :: "'a \<Rightarrow> 'a chan \<Rightarrow> send_outcome \<times> 'a chan" where
  "try_send v ch =
     (if chan_closed ch then (SendPanic, ch)
      else if length (chan_buf ch) < chan_cap ch then (Sent, ch\<lparr>chan_buf := chan_buf ch @ [v]\<rparr>)
      else (Dropped, ch))"

definition close_chan :: "'a chan \<Rightarrow> 'a chan" where
  "close_chan ch = ch\<lparr>chan_closed := True\<rparr>"

datatype 'a recv_outcome = Received 'a | RecvClosed | RecvBlocks

definition recv :: "'a chan \<Rightarrow> 'a recv_outcome \<times> 'a chan" where
  "recv ch =
     (case chan_buf ch of
        v # vs \<Rightarrow> (Received v, ch\<lparr>chan_buf := vs\<rparr>)
      | [] \<Rightarrow> (if chan_closed ch then RecvClosed else RecvBlocks, ch))"

definition chan_ok :: "'a chan \<Rightarrow> bool" where
  "chan_ok ch \<longleftrightarrow> length (chan_buf ch) \<le> chan_cap ch"

lemma try_send_chan [simp]:
  "chan_closed (snd (try_send v ch)) = chan_closed ch" "chan_cap (snd (try_send v ch)) = chan_cap ch"
  "chan_ok ch \<Longrightarrow> chan_ok (snd (try_send v ch))"
  by (auto simp: try_send_def chan_ok_def)

lemma recv_chan [simp]:
  "chan_closed (snd (recv ch)) = chan_closed ch" "chan_cap (snd (recv ch)) = chan_cap ch"
  "chan_ok ch \<Longrightarrow> chan_ok (snd (recv ch))"
  by (auto simp: recv_def chan_ok_def split: list.split)

lemma make_chan_ok [simp]: "chan_ok (make_chan n)" "chan_cap (make_chan n) = n" "\<not> chan_closed (make_chan n)"
  by (simp_all add: make_chan_def chan_ok_def)

lemma close_chan_sel [simp]: "chan_ok (close_chan ch) = chan_ok ch" "chan_cap (close_chan ch) = chan_cap ch"
  "chan_closed (close_chan ch)" "chan_buf (close_chan ch) = chan_buf ch"
  by (simp_all add: close_chan_def chan_ok_def)

text \<open>The contract of a bounded buffer, as the senders of the program rely on it.\<close>

locale bounded_buffer =
  fixes offer :: "'a \<Rightarrow> 'c \<Rightarrow> bool \<times> 'c"
    and content :: "'c \<Rightarrow> 'a list"
    and room :: "'c \<Rightarrow> bool"
    and ok :: "'c \<Rightarrow> bool"
  assumes offer_room: "ok c \<Longrightarrow> room c \<Longrightarrow> fst (offer v c) \<and> content (snd (offer v c)) = content c @ [v]"
    and offer_full: "ok c \<Longrightarrow> \<not> room c \<Longrightarrow> \<not> fst (offer v c) \<and> snd (offer v c) = c"
    and offer_ok: "ok c \<Longrightarrow> ok (snd (offer v c))"
begin

lemma content_prefix: "ok c \<Longrightarrow> prefix (content c) (content (snd (offer v c)))"
  using offer_room [of c v] offer_full [of c v] by (cases "room c") auto

lemma offer_iff: "ok c \<Longrightarrow> fst (offer v c) \<longleftrightarrow> room c"
  using offer_room offer_full by blast

end

interpretation chan_buffer: bounded_buffer
  "\<lambda>v ch. (fst (try_send v ch) = Sent, snd (try_send v ch))" chan_buf
  "\<lambda>ch. \<not> chan_closed ch \<and> length (chan_buf ch) < chan_cap ch" chan_ok
  by unfold_locales (auto simp: try_send_def chan_ok_def)

section \<open>Reachable states and invariants\<close>

inductive reach :: "('s \<Rightarrow> bool) \<Rightarrow> ('s \<Rightarrow> 's \<Rightarrow> bool) \<Rightarrow> 's \<Rightarrow> bool" for init step where
  reach_init: "init s \<Longrightarrow> reach init step s"
| reach_step: "reach init step s \<Longrightarrow> step s t \<Longrightarrow> reach init step t"

locale invariant_system =
  fixes init :: "'s \<Rightarrow> bool" and step :: "'s \<Rightarrow> 's \<Rightarrow> bool" and inv :: "'s \<Rightarrow> bool"
  assumes init_inv: "init s \<Longrightarrow> inv s"
    and step_inv: "inv s \<Longrightarrow> step s t \<Longrightarrow> inv t"
begin

lemma reach_inv: "reach init step s \<Longrightarrow> inv s"
  by (induction rule: reach.induct) (auto intro: init_inv step_inv)

end

end
