(* ===== verification/Go_Time.thy ===== *)
theory Go_Time
  imports Skall_Prelude
begin

text \<open>
  The part of Go's package \<open>time\<close> that SKALL uses. An instant \<open>time.Time\<close> is the number
  of nanoseconds since the zero time, January 1 of year 1, 00:00 UTC; time zones only
  affect presentation and every time of the program is taken or stored in UTC. Durations
  are nanoseconds. \<open>time.Now()\<close> is an argument of every operation that calls it.

  The theory has the proleptic Gregorian calendar, the layout \<open>time.RFC3339Nano\<close> that the
  store and the JSON encoder write, its parser, and their round trip.
\<close>

type_synonym time = int
type_synonym duration = int

definition zero_time :: time where
  "zero_time = 0"

definition IsZero :: "time \<Rightarrow> bool" where
  "IsZero t \<longleftrightarrow> t = zero_time"

definition second :: duration where
  "second = 1000000000"

definition unix_epoch :: time where
  "unix_epoch = 62135596800 * 1000000000"

text \<open>\<open>Time.UnixNano\<close> is an \<open>int64\<close>; it wraps outside the years 1678 to 2262.\<close>

definition UnixNano :: "time \<Rightarrow> int" where
  "UnixNano t = signed_take_bit 63 (t - unix_epoch)"

lemma UnixNano_int64: "in_int64 (UnixNano t)"
  using signed_take_bit_int_less_exp [of 63 "t - unix_epoch"]
    signed_take_bit_int_greater_eq_minus_exp [of 63 "t - unix_epoch"]
  by (simp add: UnixNano_def in_int64_def)

lemma UnixNano_exact:
  "in_int64 (t - unix_epoch) \<Longrightarrow> UnixNano t = t - unix_epoch"
  by (simp add: UnixNano_def in_int64_def signed_take_bit_int_eq_self)

section \<open>The calendar\<close>

definition leap :: "int \<Rightarrow> bool" where
  "leap y \<longleftrightarrow> 4 dvd y \<and> (\<not> 100 dvd y \<or> 400 dvd y)"

text \<open>Days from January 1 of year 1 to January 1 of year \<open>y\<close>.\<close>

definition year_start :: "int \<Rightarrow> int" where
  "year_start y = (let x = y - 1 in 365 * x + x div 4 - x div 100 + x div 400)"

definition year_of_day :: "int \<Rightarrow> int" where
  "year_of_day d =
     (let y = d * 400 div 146097 + 1
      in if d < year_start y then y - 1 else if year_start (y + 1) \<le> d then y + 1 else y)"

definition month_lens :: "int \<Rightarrow> int list" where
  "month_lens y = [31, if leap y then 29 else 28, 31, 30, 31, 30, 31, 31, 30, 31, 30, 31]"

fun month_split :: "int list \<Rightarrow> nat \<Rightarrow> int \<Rightarrow> nat \<times> int" where
  "month_split [] m d = (m, d)"
| "month_split (l # ls) m d = (if d < l then (m, d) else month_split ls (Suc m) (d - l))"

text \<open>Year, month (0 to 11) and day of the month (0 to 30) of a day number.\<close>

definition civil :: "int \<Rightarrow> int \<times> nat \<times> int" where
  "civil d = (let y = year_of_day d in (y, month_split (month_lens y) 0 (d - year_start y)))"

definition day_number :: "int \<Rightarrow> nat \<Rightarrow> int \<Rightarrow> int" where
  "day_number y m d = year_start y + sum_list (take m (month_lens y)) + d"

lemma div_pred:
  fixes y n :: int
  assumes "0 < n"
  shows "y div n = (y - 1) div n + (if n dvd y then 1 else 0)"
proof -
  define q r where "q = (y - 1) div n" and "r = (y - 1) mod n"
  then have y: "y = n * q + (r + 1)" and r: "0 \<le> r" "r < n"
    using assms mult_div_mod_eq [of n "y - 1"] by simp_all
  show ?thesis
  proof (cases "r + 1 = n")
    case True
    then have y': "y = n * (q + 1)" using y by (simp add: algebra_simps)
    then have "y div n = q + 1" using assms by simp
    moreover have "n dvd y" using y' by simp
    ultimately show ?thesis by (simp only: q_def) simp
  next
    case False
    with r have "r + 1 < n" by simp
    then have "y div n = q" "y mod n = r + 1"
      using y r by (simp_all add: int_div_pos_eq int_mod_pos_eq)
    then show ?thesis using r by (simp add: q_def [symmetric] dvd_eq_mod_eq_0)
  qed
qed

lemma year_start_Suc: "year_start (y + 1) = year_start y + (if leap y then 366 else 365)"
proof -
  define p4 p100 p400 where "p4 = (4 dvd y)" and "p100 = (100 dvd y)" and "p400 = (400 dvd y)"
  have d: "y div 4 = (y - 1) div 4 + (if p4 then 1 else 0)"
    "y div 100 = (y - 1) div 100 + (if p100 then 1 else 0)"
    "y div 400 = (y - 1) div 400 + (if p400 then 1 else 0)"
    unfolding p4_def p100_def p400_def by (rule div_pred, simp)+
  have imp: "p100 \<Longrightarrow> p4" "p400 \<Longrightarrow> p100"
    unfolding p4_def p100_def p400_def using dvd_trans [of 4 100 y] dvd_trans [of 100 400 y] by simp_all
  have "year_start (y + 1) = 365 * y + y div 4 - y div 100 + y div 400"
    by (simp add: year_start_def)
  also have "\<dots> = 365 * (y - 1) + (y - 1) div 4 - (y - 1) div 100 + (y - 1) div 400
      + (365 + (if p4 then 1 else 0) - (if p100 then 1 else 0) + (if p400 then 1 else 0))"
    unfolding d by (simp add: algebra_simps)
  also have "\<dots> = year_start y + (if leap y then 366 else 365)"
    unfolding leap_def p4_def [symmetric] p100_def [symmetric] p400_def [symmetric] year_start_def Let_def
    using imp by (cases p4; cases p100; cases p400) simp_all
  finally show ?thesis .
qed

lemma year_start_bounds:
  "400 * year_start y \<le> 146097 * (y - 1) + 396" "146097 * (y - 1) - 700 < 400 * year_start y"
proof -
  define x a b c where x: "x = y - 1" and "a = x div 4" and "b = x div 100" and "c = x div 400"
  then have "4 * a \<le> x" "x < 4 * a + 4" "100 * b \<le> x" "x < 100 * b + 100" "400 * c \<le> x" "x < 400 * c + 400"
    by simp_all
  moreover have "year_start y = 365 * x + a - b + c"
    by (simp add: year_start_def \<open>a = _\<close> \<open>b = _\<close> \<open>c = _\<close> x Let_def)
  ultimately show "400 * year_start y \<le> 146097 * (y - 1) + 396" "146097 * (y - 1) - 700 < 400 * year_start y"
    unfolding x [symmetric] by linarith+
qed

lemma year_of_day_bounds:
  "year_start (year_of_day d) \<le> d" "d < year_start (year_of_day d + 1)"
proof -
  define y where y: "y = d * 400 div 146097 + 1"
  have lo: "146097 * (y - 1) \<le> 400 * d" and hi: "400 * d < 146097 * y"
    unfolding y by simp_all
  have "year_start (y - 1) \<le> d"
    using lo year_start_bounds(1) [of "y - 1"] by (simp add: right_diff_distrib)
  moreover have "d < year_start (y + 1 + 1)"
    using hi year_start_bounds(2) [of "y + 1 + 1"] by (simp add: distrib_left)
  ultimately show "year_start (year_of_day d) \<le> d" "d < year_start (year_of_day d + 1)"
    unfolding year_of_day_def Let_def y [symmetric] by auto
qed

lemma month_split_correct:
  assumes "month_split ls m d = (m', d')" "0 \<le> d" "d < sum_list ls"
  shows "m \<le> m' \<and> m' < m + length ls \<and> 0 \<le> d' \<and> d' < ls ! (m' - m)
    \<and> sum_list (take (m' - m) ls) + d' = d"
  using assms
proof (induction ls m d rule: month_split.induct)
  case (2 l ls m d)
  show ?case
  proof (cases "d < l")
    case True
    with 2 show ?thesis by simp
  next
    case False
    with 2 have IH: "Suc m \<le> m' \<and> m' < Suc m + length ls \<and> 0 \<le> d' \<and> d' < ls ! (m' - Suc m)
        \<and> sum_list (take (m' - Suc m) ls) + d' = d - l"
      by simp
    then have "m' - m = Suc (m' - Suc m)" by arith
    with IH show ?thesis by auto
  qed
qed simp

lemma sum_month_lens: "sum_list (month_lens y) = (if leap y then 366 else 365)"
  by (simp add: month_lens_def)

lemma civil_correct:
  assumes "civil d = (y, m, k)"
  shows "m < 12" "0 \<le> k" "k < month_lens y ! m" "day_number y m k = d"
    "year_start y \<le> d" "d < year_start (y + 1)"
proof -
  have y: "y = year_of_day d" and s: "month_split (month_lens y) 0 (d - year_start y) = (m, k)"
    using assms by (auto simp: civil_def Let_def)
  show b: "year_start y \<le> d" "d < year_start (y + 1)"
    using year_of_day_bounds [of d] by (auto simp: y)
  then have "d - year_start y < sum_list (month_lens y)"
    by (simp add: sum_month_lens year_start_Suc split: if_splits)
  with month_split_correct [OF s] b
  show "m < 12" "0 \<le> k" "k < month_lens y ! m" "day_number y m k = d"
    by (auto simp: day_number_def month_lens_def)
qed

lemma month_len_le: "m < 12 \<Longrightarrow> month_lens y ! m \<le> 31"
  by (auto simp: month_lens_def numeral_eq_Suc less_Suc_eq)

section \<open>The layout RFC3339Nano\<close>

primrec padk :: "nat \<Rightarrow> int \<Rightarrow> string" where
  "padk 0 n = []"
| "padk (Suc k) n = padk k (n div 10) @ [digit (n mod 10)]"

definition pad_year :: "int \<Rightarrow> string" where
  "pad_year y =
     (if 0 \<le> y \<and> y \<le> 9999 then padk 4 y
      else let ds = digits \<bar>y\<bar>; z = replicate (4 - length ds) (CHR ''0'')
           in if y < 0 then CHR ''-'' # z @ ds else z @ ds)"

definition frac_text :: "int \<Rightarrow> string" where
  "frac_text ns =
     (if ns = 0 then [] else CHR ''.'' # rev (dropWhile (\<lambda>c. c = CHR ''0'') (rev (padk 9 ns))))"

definition FormatNano :: "time \<Rightarrow> string" where
  "FormatNano t =
     (let secs = t div second; ns = t mod second;
          day = secs div 86400; sod = secs mod 86400;
          (y, m, d) = civil day
      in pad_year y @ ''-'' @ padk 2 (int m + 1) @ ''-'' @ padk 2 (d + 1) @ ''T''
         @ padk 2 (sod div 3600) @ '':'' @ padk 2 (sod div 60 mod 60) @ '':'' @ padk 2 (sod mod 60)
         @ frac_text ns @ ''Z'')"

text \<open>
  The RFC 3339 parser of package \<open>time\<close>: fixed-width fields in range, an optional fraction
  of which nine digits count, and a zone \<open>Z\<close> or \<open>+hh:mm\<close> / \<open>-hh:mm\<close>.
\<close>

definition take_uint :: "nat \<Rightarrow> int \<Rightarrow> int \<Rightarrow> string \<Rightarrow> (int \<times> string) option" where
  "take_uint w lo hi s =
     (let ds = take w s
      in if length ds = w \<and> list_all is_digit ds \<and> lo \<le> digits_val ds \<and> digits_val ds \<le> hi
         then Some (digits_val ds, drop w s) else None)"

fun take_char :: "char \<Rightarrow> string \<Rightarrow> string option" where
  "take_char c [] = None"
| "take_char c (x # xs) = (if x = c then Some xs else None)"

fun take_frac :: "string \<Rightarrow> int \<times> string" where
  "take_frac (c # x # xs) =
     (if c = CHR ''.'' \<and> is_digit x
      then let ds = takeWhile is_digit (x # xs); nine = take 9 ds
           in (digits_val nine * 10 ^ (9 - length nine), dropWhile is_digit (x # xs))
      else (0, c # x # xs))"
| "take_frac s = (0, s)"

definition take_zone :: "string \<Rightarrow> int option" where
  "take_zone s =
     (if s = ''Z'' then Some 0
      else if length s \<noteq> 6 \<or> s ! 3 \<noteq> CHR '':'' \<or> (s ! 0 \<noteq> CHR ''+'' \<and> s ! 0 \<noteq> CHR ''-'') then None
      else case (take_uint 2 0 23 (drop 1 s), take_uint 2 0 59 (drop 4 s)) of
        (Some (h, _), Some (mi, _)) \<Rightarrow>
          let off = (h * 60 + mi) * 60 in Some (if s ! 0 = CHR ''-'' then - off else off)
      | _ \<Rightarrow> None)"

definition ParseRFC3339 :: "string \<Rightarrow> time option" where
  "ParseRFC3339 s0 =
     Option.bind (take_uint 4 0 9999 s0) (\<lambda>(y, s1).
     Option.bind (take_char (CHR ''-'') s1) (\<lambda>s2.
     Option.bind (take_uint 2 1 12 s2) (\<lambda>(mo, s3).
     Option.bind (take_char (CHR ''-'') s3) (\<lambda>s4.
     Option.bind (take_uint 2 1 (month_lens y ! nat (mo - 1)) s4) (\<lambda>(d, s5).
     Option.bind (take_char (CHR ''T'') s5) (\<lambda>s6.
     Option.bind (take_uint 2 0 23 s6) (\<lambda>(h, s7).
     Option.bind (take_char (CHR '':'') s7) (\<lambda>s8.
     Option.bind (take_uint 2 0 59 s8) (\<lambda>(mi, s9).
     Option.bind (take_char (CHR '':'') s9) (\<lambda>s10.
     Option.bind (take_uint 2 0 59 s10) (\<lambda>(sec, s11).
     let (ns, s12) = take_frac s11 in
     Option.bind (take_zone s12) (\<lambda>off.
       Some ((day_number y (nat (mo - 1)) (d - 1) * 86400
              + (h * 3600 + mi * 60 + sec) - off) * second + ns)))))))))))))"

text \<open>The instants whose year is 0 to 9999, those the layout can carry.\<close>

definition printable_time :: "time \<Rightarrow> bool" where
  "printable_time t \<longleftrightarrow> year_start 0 * 86400 * second \<le> t \<and> t < year_start 10000 * 86400 * second"

lemma padk_length [simp]: "length (padk k n) = k"
  by (induction k arbitrary: n) auto

lemma padk_digits [simp]: "list_all is_digit (padk k n)"
  by (induction k arbitrary: n) auto

lemma digits_val_snoc: "digits_val (s @ [c]) = 10 * digits_val s + digit_val c"
  by (simp add: digits_val_def)

lemma padk_val: "0 \<le> n \<Longrightarrow> n < 10 ^ k \<Longrightarrow> digits_val (padk k n) = n"
proof (induction k arbitrary: n)
  case 0
  then show ?case by (simp add: digits_val_def)
next
  case (Suc k)
  then have "n div 10 < 10 ^ k" by simp
  with Suc show ?case by (simp add: digits_val_snoc)
qed

lemma take_uint_padk:
  "0 \<le> n \<Longrightarrow> n < 10 ^ w \<Longrightarrow> lo \<le> n \<Longrightarrow> n \<le> hi \<Longrightarrow> take_uint w lo hi (padk w n @ s) = Some (n, s)"
  by (simp add: take_uint_def padk_val)

lemma digits_val_zeros: "digits_val (s @ replicate j (CHR ''0'')) = digits_val s * 10 ^ j"
proof (induction j)
  case (Suc j)
  have "s @ replicate (Suc j) (CHR ''0'') = (s @ replicate j (CHR ''0'')) @ [CHR ''0'']"
    by (simp only: append_assoc replicate_append_same replicate_Suc)
  then show ?case
    using Suc by (simp only: digits_val_snoc) (simp add: digit_val_def)
qed simp

lemma drop_zeros_split:
  obtains j where "p = rev (dropWhile (\<lambda>c. c = CHR ''0'') (rev p)) @ replicate j (CHR ''0'')"
proof -
  let ?z = "takeWhile (\<lambda>c. c = CHR ''0'') (rev p)"
  have "rev p = ?z @ dropWhile (\<lambda>c. c = CHR ''0'') (rev p)" by simp
  then have "p = rev (dropWhile (\<lambda>c. c = CHR ''0'') (rev p)) @ rev ?z"
    by (metis rev_append rev_rev_ident)
  moreover have "?z = replicate (length ?z) (CHR ''0'')"
    by (rule replicate_length_same [symmetric]) (auto dest: set_takeWhileD)
  then have "rev ?z = replicate (length ?z) (CHR ''0'')"
    by (metis rev_replicate)
  ultimately show ?thesis using that by metis
qed

lemma take_frac_text:
  assumes "0 \<le> ns" "ns < 10 ^ 9"
  shows "take_frac (frac_text ns @ ''Z'') = (ns, ''Z'')"
proof (cases "ns = 0")
  case False
  define core where "core = rev (dropWhile (\<lambda>c. c = CHR ''0'') (rev (padk 9 ns)))"
  obtain j where p: "padk 9 ns = core @ replicate j (CHR ''0'')"
    unfolding core_def by (rule drop_zeros_split)
  have len: "length core = 9 - j" "j \<le> 9"
    using arg_cong [OF p, of length] by simp_all
  have val: "digits_val core * 10 ^ j = ns"
    using padk_val [OF assms] p by (simp add: digits_val_zeros)
  then have "core \<noteq> []"
    using False by (auto simp: digits_val_def)
  then obtain x xs where core: "core = x # xs"
    by (cases core) auto
  have dig: "list_all is_digit core"
    using padk_digits [of 9 ns] p by simp
  then have "takeWhile is_digit (core @ ''Z'') = core" "dropWhile is_digit (core @ ''Z'') = ''Z''"
    by (auto simp: list_all_iff takeWhile_append2 dropWhile_append2 is_digit_def)
  with core dig len val False show ?thesis
    by (simp add: frac_text_def core_def [symmetric])
qed (simp add: frac_text_def)

lemma year_start_mono: "a \<le> b \<Longrightarrow> year_start a \<le> year_start b"
proof (induction b rule: int_ge_induct)
  case (step i)
  then show ?case by (simp add: year_start_Suc split: if_split)
qed simp

lemma civil_year_range:
  assumes "civil d = (y, m, k)" "year_start 0 \<le> d" "d < year_start 10000"
  shows "0 \<le> y" "y \<le> 9999"
proof -
  note b = civil_correct(5,6) [OF assms(1)]
  show "0 \<le> y"
    using year_start_mono [of "y + 1" 0] b assms(2) by (cases "0 \<le> y") auto
  show "y \<le> 9999"
    using year_start_mono [of 10000 y] b assms(3) by (cases "y \<le> 9999") auto
qed

theorem Parse_FormatNano:
  assumes "printable_time t"
  shows "ParseRFC3339 (FormatNano t) = Some t"
proof -
  define secs ns day sod where "secs = t div second" and "ns = t mod second"
    and "day = secs div 86400" and "sod = secs mod 86400"
  obtain y m d where c: "civil day = (y, m, d)"
    by (metis prod_cases3)
  have ns: "0 \<le> ns" "ns < 10 ^ 9" "t = secs * second + ns"
    by (simp_all add: ns_def secs_def second_def)
  have sod: "0 \<le> sod" "sod < 86400" "secs = day * 86400 + sod"
    by (simp_all add: sod_def day_def)
  have "year_start 0 \<le> day" "day < year_start 10000"
    using assms ns sod unfolding printable_time_def second_def by simp_all
  note y = civil_year_range [OF c this]
  note cv = civil_correct [OF c]
  have d: "d + 1 \<le> month_lens y ! m" "month_lens y ! m \<le> 31"
    using cv month_len_le by auto
  have "sod div 3600 = sod div 60 div 60"
    using zdiv_zmult2_eq [of 60 sod 60] by simp
  then have hms: "sod = sod div 3600 * 3600 + sod div 60 mod 60 * 60 + sod mod 60"
    using div_mult_mod_eq [of "sod div 60" 60] div_mult_mod_eq [of sod 60] by linarith
  have h: "0 \<le> sod div 3600" "sod div 3600 \<le> 23" using sod(1,2) by simp_all
  have layout: "FormatNano t = padk 4 y @ ''-'' @ padk 2 (int m + 1) @ ''-'' @ padk 2 (d + 1) @ ''T''
      @ padk 2 (sod div 3600) @ '':'' @ padk 2 (sod div 60 mod 60) @ '':'' @ padk 2 (sod mod 60)
      @ frac_text ns @ ''Z''"
    using y by (simp add: FormatNano_def Let_def pad_year_def c flip: secs_def ns_def day_def sod_def)
  have val: "(day_number y m d * 86400 + sod) * second + ns = t"
    using cv(4) ns(3) sod(3) by simp
  have date: "ParseRFC3339 (FormatNano t) =
      Some ((day_number y m d * 86400
         + (sod div 3600 * 3600 + sod div 60 mod 60 * 60 + sod mod 60)) * second + ns)"
    unfolding layout ParseRFC3339_def
    using y cv(1,2) d h ns(1,2)
    by (simp add: take_uint_padk take_frac_text take_zone_def)
  then show ?thesis
    using hms val by simp
qed

end
