(* ===== verification/Protocol.thy ===== *)
theory Protocol
  imports Go_Time
begin

text \<open>
  The message schema of \<^verbatim>\<open>internal/protocol/message.go\<close>: the struct \<open>Message\<close>, its
  constants, \<open>Message.Validate\<close> and \<open>NewChatMessage\<close>. \<open>protocol.Type\<close> is a string type,
  so a received message may carry any string there; \<open>Validate\<close> admits the four known
  ones. The JSON text of a message and the frames are in the theory \<open>Framing\<close>.
\<close>

definition MaxBodyLen :: int where "MaxBodyLen = 64 * 1024"
definition MaxIDLen :: int where "MaxIDLen = 256"
definition MaxSenderIDLen :: int where "MaxSenderIDLen = 512"
definition ProtocolVersion :: int where "ProtocolVersion = 1"

definition TypeChat :: string where "TypeChat = ''chat''"
definition TypeJoin :: string where "TypeJoin = ''join''"
definition TypeLeave :: string where "TypeLeave = ''leave''"
definition TypeSystem :: string where "TypeSystem = ''system''"

record Message =
  Version :: int
  ID :: string
  Type :: string
  SenderID :: string
  RecipientID :: string
  GroupID :: string
  Timestamp :: time
  Body :: string

text \<open>The sentinel errors; those wrapped by \<open>fmt.Errorf\<close> carry what the text adds.\<close>

datatype proto_error =
    ErrInvalidJSON
  | ErrMissingRequired
  | ErrUnsupportedVersion int
  | ErrUnknownType
  | ErrFieldTooLong string
  | ErrMarshal

definition Validate :: "Message \<Rightarrow> proto_error option" where
  "Validate m =
     (if Version m \<noteq> ProtocolVersion then Some (ErrUnsupportedVersion (Version m))
      else if TrimSpace (ID m) = [] \<or> TrimSpace (SenderID m) = [] \<or> TrimSpace (Body m) = []
        then Some ErrMissingRequired
      else if Type m \<noteq> TypeChat \<and> Type m \<noteq> TypeJoin \<and> Type m \<noteq> TypeLeave \<and> Type m \<noteq> TypeSystem
        then Some ErrUnknownType
      else if IsZero (Timestamp m) then Some ErrMissingRequired
      else if MaxIDLen < len (ID m) then Some (ErrFieldTooLong ''id'')
      else if MaxSenderIDLen < len (SenderID m) then Some (ErrFieldTooLong ''sender_id'')
      else if MaxSenderIDLen < len (RecipientID m) then Some (ErrFieldTooLong ''recipient_id'')
      else if MaxSenderIDLen < len (GroupID m) then Some (ErrFieldTooLong ''group_id'')
      else if MaxBodyLen < len (Body m) then Some (ErrFieldTooLong ''body'')
      else None)"

definition NewChatMessage :: "time \<Rightarrow> string \<Rightarrow> string \<Rightarrow> string \<Rightarrow> string \<Rightarrow> Message" where
  "NewChatMessage now senderID recipientID groupID body =
     \<lparr>Version = ProtocolVersion,
      ID = FormatInt (UnixNano now),
      Type = TypeChat,
      SenderID = senderID,
      RecipientID = recipientID,
      GroupID = groupID,
      Timestamp = now,
      Body = body\<rparr>"

lemmas proto_consts = MaxBodyLen_def MaxIDLen_def MaxSenderIDLen_def ProtocolVersion_def
  TypeChat_def TypeJoin_def TypeLeave_def TypeSystem_def

section \<open>What a valid message is\<close>

text \<open>The declarative reading of \<open>Validate\<close>: the order of the checks does not matter for acceptance.\<close>

definition well_formed :: "Message \<Rightarrow> bool" where
  "well_formed m \<longleftrightarrow> Version m = 1 \<and> Type m \<in> {''chat'', ''join'', ''leave'', ''system''}
     \<and> TrimSpace (ID m) \<noteq> [] \<and> TrimSpace (SenderID m) \<noteq> [] \<and> TrimSpace (Body m) \<noteq> []
     \<and> Timestamp m \<noteq> 0
     \<and> length (ID m) \<le> 256 \<and> length (SenderID m) \<le> 512 \<and> length (RecipientID m) \<le> 512
     \<and> length (GroupID m) \<le> 512 \<and> length (Body m) \<le> 65536"

lemma Validate_iff: "Validate m = None \<longleftrightarrow> well_formed m"
  by (auto simp: Validate_def well_formed_def proto_consts IsZero_def zero_time_def)

lemma valid_ids:
  assumes "Validate m = None"
  shows "ID m \<noteq> []" "SenderID m \<noteq> []" "Body m \<noteq> []" "TrimSpace (ID m) \<noteq> []"
  using assms by (auto simp: Validate_iff well_formed_def)

text \<open>Strings of printable ASCII without spaces are their own trimming; message ids are such.\<close>

definition visible :: "char \<Rightarrow> bool" where
  "visible c \<longleftrightarrow> (let n = of_char c :: int in 33 \<le> n \<and> n \<le> 126)"

lemma visible_not_space:
  "visible c \<Longrightarrow> w \<in> set space_runes \<Longrightarrow> hd w \<noteq> c \<and> last w \<noteq> c"
  by (auto simp: space_runes_def visible_def)

lemma space_rune_nonempty: "w \<in> set space_runes \<Longrightarrow> w \<noteq> []"
  by (auto simp: space_runes_def)

lemma visible_trimmed:
  assumes "list_all visible s"
  shows "trimmed s"
proof -
  have "\<not> prefix w s" if "w \<in> set space_runes" for w
  proof
    assume "prefix w s"
    with space_rune_nonempty [OF that] have "hd w \<in> set s" by (auto simp: prefix_def)
    then show False using assms visible_not_space [OF _ that] by (auto simp: list_all_iff)
  qed
  moreover have "\<not> suffix w s" if "w \<in> set space_runes" for w
  proof
    assume "suffix w s"
    with space_rune_nonempty [OF that] have "last w \<in> set s" by (auto simp: suffix_def)
    then show False using assms visible_not_space [OF _ that] by (auto simp: list_all_iff)
  qed
  ultimately have "starts_clean space_runes s" "starts_clean (map rev space_runes) (rev s)"
    by (auto simp: starts_clean_def has_prefix_iff suffix_to_prefix)
  then show ?thesis
    by (simp add: trimmed_def TrimSpace_def TrimLeft_def TrimRight_def strip_clean)
qed

lemma FormatInt_visible: "list_all visible (FormatInt i)"
proof -
  have "is_digit c \<Longrightarrow> visible c" for c by (simp add: is_digit_def visible_def Let_def)
  then have "0 \<le> n \<Longrightarrow> list_all visible (digits n)" for n
    using digits_are_digits [of n] by (auto simp: list_all_iff)
  then show ?thesis by (auto simp: FormatInt_def visible_def)
qed

lemma FormatInt_trimmed [simp]: "TrimSpace (FormatInt i) = FormatInt i"
  using visible_trimmed [OF FormatInt_visible] by blast

lemma FormatInt_nonempty [simp]: "FormatInt i \<noteq> []"
  by (simp add: FormatInt_def)

lemma digits_length: "0 \<le> n \<Longrightarrow> n < 10 ^ k \<Longrightarrow> 0 < k \<Longrightarrow> length (digits n) \<le> k"
proof (induction k arbitrary: n)
  case (Suc k)
  show ?case
  proof (cases "n < 10")
    case True
    then show ?thesis by (subst digits.simps) simp
  next
    case False
    with Suc.prems have "n div 10 < 10 ^ k" "0 \<le> n div 10" "0 < k"
      by (auto intro: gr0I)
    then have "length (digits (n div 10)) \<le> k" by (intro Suc.IH)
    with False show ?thesis by (subst digits.simps) simp
  qed
qed simp

lemma FormatInt_length:
  assumes "in_int64 i"
  shows "length (FormatInt i) \<le> 20"
proof -
  have "length (digits \<bar>i\<bar>) \<le> 19"
    by (rule digits_length) (use assms in \<open>auto simp: in_int64_def abs_if\<close>)
  then show ?thesis by (auto simp: FormatInt_def abs_if)
qed

lemma NewChatMessage_sel [simp]:
  "ID (NewChatMessage now s r g b) = FormatInt (UnixNano now)"
  "SenderID (NewChatMessage now s r g b) = s" "RecipientID (NewChatMessage now s r g b) = r"
  "GroupID (NewChatMessage now s r g b) = g" "Body (NewChatMessage now s r g b) = b"
  "Timestamp (NewChatMessage now s r g b) = now" "Version (NewChatMessage now s r g b) = 1"
  "Type (NewChatMessage now s r g b) = ''chat''"
  by (simp_all add: NewChatMessage_def proto_consts)

text \<open>Which arguments make \<open>NewChatMessage\<close> produce a message that passes \<open>Validate\<close>.\<close>

lemma NewChatMessage_valid_iff:
  "Validate (NewChatMessage now s r g b) = None \<longleftrightarrow>
     now \<noteq> 0 \<and> TrimSpace s \<noteq> [] \<and> TrimSpace b \<noteq> []
     \<and> length s \<le> 512 \<and> length r \<le> 512 \<and> length g \<le> 512 \<and> length b \<le> 65536"
  using FormatInt_length [OF UnixNano_int64, of now] by (auto simp: Validate_iff well_formed_def)

end
