(* ===== verification/Directory.thy ===== *)
theory Directory
  imports Skall_Prelude
begin

text \<open>
  The contract that the in-memory group manager and the group tables of the store share:
  a directory of groups, each with its set of members. \<open>spec_step\<close> is the abstract
  specification of the four commands of \<open>ChatService\<close> that change it (they trim their
  arguments and ignore blank ones); the locale \<open>membership_directory\<close> is the interface of
  an implementation, interpreted on the manager in \<open>Group_Directory\<close> and on the store there
  too, so that both are shown to follow the same specification.
\<close>

type_synonym directory = "string \<Rightarrow> string set option"

datatype dir_cmd =
    DirCreate string string
  | DirJoin string string
  | DirLeave string string
  | DirDrop string

fun spec_step :: "dir_cmd \<Rightarrow> directory \<Rightarrow> directory" where
  "spec_step (DirCreate g n) D =
     (let g' = TrimSpace g in
      if g' = [] \<or> TrimSpace n = [] \<or> D g' \<noteq> None then D else D(g' \<mapsto> {}))"
| "spec_step (DirJoin g p) D =
     (let g' = TrimSpace g; p' = TrimSpace p in
      if g' = [] \<or> p' = [] then D
      else case D g' of None \<Rightarrow> D | Some M \<Rightarrow> D(g' \<mapsto> insert p' M))"
| "spec_step (DirLeave g p) D =
     (let g' = TrimSpace g; p' = TrimSpace p in
      if g' = [] \<or> p' = [] then D
      else case D g' of None \<Rightarrow> D | Some M \<Rightarrow> D(g' \<mapsto> M - {p'}))"
| "spec_step (DirDrop g) D = (let g' = TrimSpace g in if g' = [] then D else D(g' := None))"

definition spec_run :: "dir_cmd list \<Rightarrow> directory \<Rightarrow> directory" where
  "spec_run cs D = fold spec_step cs D"

text \<open>
  An implementation: a state, its well-formedness, the directory it represents, and the
  four operations. The extra argument \<open>'x\<close> is what the specification does not see, such as
  the clock.
\<close>

locale membership_directory =
  fixes wf :: "'s \<Rightarrow> bool"
    and dir :: "'s \<Rightarrow> directory"
    and create :: "'x \<Rightarrow> string \<Rightarrow> string \<Rightarrow> 's \<Rightarrow> 's"
    and join :: "'x \<Rightarrow> string \<Rightarrow> string \<Rightarrow> 's \<Rightarrow> 's"
    and leave :: "'x \<Rightarrow> string \<Rightarrow> string \<Rightarrow> 's \<Rightarrow> 's"
    and drp :: "'x \<Rightarrow> string \<Rightarrow> 's \<Rightarrow> 's"
  assumes wf_create: "wf s \<Longrightarrow> wf (create x g n s)"
    and wf_join: "wf s \<Longrightarrow> wf (join x g p s)"
    and wf_leave: "wf s \<Longrightarrow> wf (leave x g p s)"
    and wf_drp: "wf s \<Longrightarrow> wf (drp x g s)"
    and dir_create: "wf s \<Longrightarrow> dir (create x g n s) = spec_step (DirCreate g n) (dir s)"
    and dir_join: "wf s \<Longrightarrow> dir (join x g p s) = spec_step (DirJoin g p) (dir s)"
    and dir_leave: "wf s \<Longrightarrow> dir (leave x g p s) = spec_step (DirLeave g p) (dir s)"
    and dir_drp: "wf s \<Longrightarrow> dir (drp x g s) = spec_step (DirDrop g) (dir s)"
begin

fun exec :: "'x \<Rightarrow> dir_cmd \<Rightarrow> 's \<Rightarrow> 's" where
  "exec x (DirCreate g n) s = create x g n s"
| "exec x (DirJoin g p) s = join x g p s"
| "exec x (DirLeave g p) s = leave x g p s"
| "exec x (DirDrop g) s = drp x g s"

lemma exec_refines: "wf s \<Longrightarrow> wf (exec x c s) \<and> dir (exec x c s) = spec_step c (dir s)"
  by (cases c)
    (simp_all only: exec.simps wf_create wf_join wf_leave wf_drp dir_create dir_join dir_leave dir_drp)

lemma run_refines:
  "wf s \<Longrightarrow> wf (fold (\<lambda>(x, c). exec x c) xs s)
     \<and> dir (fold (\<lambda>(x, c). exec x c) xs s) = spec_run (map snd xs) (dir s)"
proof (induction xs arbitrary: s)
  case (Cons a xs)
  then show ?case
    using exec_refines [of s "fst a" "snd a"] by (simp add: split_def spec_run_def)
qed (simp add: spec_run_def)

end

text \<open>Properties of the specification itself: groups stay apart, and join, leave and drop do what they say.\<close>

lemma spec_step_other:
  "(case c of DirCreate g _ \<Rightarrow> TrimSpace g | DirJoin g _ \<Rightarrow> TrimSpace g
     | DirLeave g _ \<Rightarrow> TrimSpace g | DirDrop g \<Rightarrow> TrimSpace g) \<noteq> h \<Longrightarrow> spec_step c D h = D h"
  by (cases c) (auto simp: Let_def split: option.split)

lemma spec_step_keys:
  "D' = spec_step c D \<Longrightarrow> D' h \<noteq> None \<Longrightarrow> D h = None \<Longrightarrow> trimmed h \<and> h \<noteq> []"
  by (cases c) (auto simp: Let_def split: option.splits if_splits)

end
