(* ===== verification/Group_Manager.thy ===== *)
theory Group_Manager
  imports Protocol Directory
begin

text \<open>
  The group manager of \<^verbatim>\<open>internal/groups/group.go\<close>. \<open>Manager\<close> keeps the groups by id and,
  per group, the set of message ids it has routed. Every exported method takes the mutex
  for the section that reads and writes the maps, so it is modelled as one function on the
  state; \<open>RouteGroupMessage\<close> releases the lock between recording the id and reading the
  members and is modelled as these two sections (\<open>route_admit\<close>, \<open>route_deliver\<close>), which
  other calls may interleave with, and as their composition.

  The entries of \<open>groups\<close> are pointers that are never nil (every writer stores \<open>&Group{..}\<close>),
  so the model keeps the struct; an entry of \<open>seen\<close> that is absent is the nil map, on which
  an assignment panics.
\<close>

section \<open>Data\<close>

record GroupMember =
  gm_PeerID :: string
  gm_JoinedAt :: time
  gm_Active :: bool
  gm_LastSeen :: time

record Group =
  g_ID :: string
  g_Name :: string
  g_Members :: "(string \<times> GroupMember) list"
  g_CreatedAt :: time
  g_UpdatedAt :: time

record Manager =
  groups :: "(string \<times> Group) list"
  seen :: "(string \<times> string list) list"

datatype group_error =
    ErrGroupNotFound string
  | ErrGroupAlreadyExists string
  | ErrInvalidGroupID
  | ErrInvalidGroupName
  | ErrInvalidPeerID
  | ErrMemberAlreadyAdded string
  | ErrMemberNotFound string
  | ErrDuplicateGroupMessage string
  | ErrMessageIDRequired
  | ErrGroupBodyRequired
  | NilMapPanic

definition maxSeenPerGroup :: int where
  "maxSeenPerGroup = 10000"

section \<open>Operations\<close>

definition NewManager :: Manager where
  "NewManager = \<lparr>groups = [], seen = []\<rparr>"

definition CreateGroup :: "time \<Rightarrow> string \<Rightarrow> string \<Rightarrow> Manager \<Rightarrow> (group_error + Group) \<times> Manager" where
  "CreateGroup now groupID0 name0 m =
     (let groupID = TrimSpace groupID0; name = TrimSpace name0 in
      if groupID = [] then (Inl ErrInvalidGroupID, m)
      else if name = [] then (Inl ErrInvalidGroupName, m)
      else if map_of (groups m) groupID \<noteq> None then (Inl (ErrGroupAlreadyExists groupID), m)
      else
        let grp = \<lparr>g_ID = groupID, g_Name = name, g_Members = [], g_CreatedAt = now, g_UpdatedAt = now\<rparr>
        in (Inr grp,
            m\<lparr>groups := AList.update groupID grp (groups m),
              seen := AList.update groupID [] (seen m)\<rparr>))"

definition GetGroup :: "Manager \<Rightarrow> string \<Rightarrow> Group option" where
  "GetGroup m groupID = map_of (groups m) (TrimSpace groupID)"

definition AddMember :: "time \<Rightarrow> string \<Rightarrow> string \<Rightarrow> Manager \<Rightarrow> group_error option \<times> Manager" where
  "AddMember now groupID0 peerID0 m =
     (let groupID = TrimSpace groupID0; peerID = TrimSpace peerID0 in
      if groupID = [] then (Some ErrInvalidGroupID, m)
      else if peerID = [] then (Some ErrInvalidPeerID, m)
      else case map_of (groups m) groupID of
        None \<Rightarrow> (Some (ErrGroupNotFound groupID), m)
      | Some grp \<Rightarrow>
          if map_of (g_Members grp) peerID \<noteq> None then (Some (ErrMemberAlreadyAdded peerID), m)
          else
            let member = \<lparr>gm_PeerID = peerID, gm_JoinedAt = now, gm_Active = True, gm_LastSeen = now\<rparr>;
                grp' = grp\<lparr>g_Members := AList.update peerID member (g_Members grp), g_UpdatedAt := now\<rparr>
            in (None, m\<lparr>groups := AList.update groupID grp' (groups m)\<rparr>))"

definition removeMember :: "time \<Rightarrow> string \<Rightarrow> string \<Rightarrow> Manager \<Rightarrow> group_error option \<times> Manager" where
  "removeMember now groupID0 peerID0 m =
     (let groupID = TrimSpace groupID0; peerID = TrimSpace peerID0 in
      if groupID = [] then (Some ErrInvalidGroupID, m)
      else if peerID = [] then (Some ErrInvalidPeerID, m)
      else case map_of (groups m) groupID of
        None \<Rightarrow> (Some (ErrGroupNotFound groupID), m)
      | Some grp \<Rightarrow>
          if map_of (g_Members grp) peerID = None then (Some (ErrMemberNotFound peerID), m)
          else
            let grp' = grp\<lparr>g_Members := AList.delete peerID (g_Members grp), g_UpdatedAt := now\<rparr>
            in (None, m\<lparr>groups := AList.update groupID grp' (groups m)\<rparr>))"

definition RemoveMember :: "time \<Rightarrow> string \<Rightarrow> string \<Rightarrow> Manager \<Rightarrow> group_error option \<times> Manager" where
  "RemoveMember now groupID peerID m = removeMember now groupID peerID m"

definition LeaveGroup :: "time \<Rightarrow> string \<Rightarrow> string \<Rightarrow> Manager \<Rightarrow> group_error option \<times> Manager" where
  "LeaveGroup now groupID peerID m = removeMember now groupID peerID m"

definition DeleteGroup :: "string \<Rightarrow> Manager \<Rightarrow> group_error option \<times> Manager" where
  "DeleteGroup groupID0 m =
     (let groupID = TrimSpace groupID0 in
      if groupID = [] then (Some ErrInvalidGroupID, m)
      else if map_of (groups m) groupID = None then (Some (ErrGroupNotFound groupID), m)
      else (None, m\<lparr>groups := AList.delete groupID (groups m), seen := AList.delete groupID (seen m)\<rparr>))"

definition ViewMembers :: "Manager \<Rightarrow> string \<Rightarrow> group_error + string list" where
  "ViewMembers m groupID0 =
     (let groupID = TrimSpace groupID0 in
      if groupID = [] then Inl ErrInvalidGroupID
      else case map_of (groups m) groupID of
        None \<Rightarrow> Inl (ErrGroupNotFound groupID)
      | Some grp \<Rightarrow> Inr (sort (map fst (g_Members grp))))"

definition ListGroups :: "Manager \<Rightarrow> string list" where
  "ListGroups m = sort (map fst (groups m))"

definition IsMember :: "Manager \<Rightarrow> string \<Rightarrow> string \<Rightarrow> bool" where
  "IsMember m groupID0 peerID0 =
     (let groupID = TrimSpace groupID0; peerID = TrimSpace peerID0 in
      if groupID = [] \<or> peerID = [] then False
      else case map_of (groups m) groupID of
        None \<Rightarrow> False
      | Some grp \<Rightarrow> map_of (g_Members grp) peerID \<noteq> None)"

definition SendGroupMessage :: "time \<Rightarrow> string \<Rightarrow> string \<Rightarrow> string \<Rightarrow> Manager \<Rightarrow> group_error + Message" where
  "SendGroupMessage now groupID0 senderID0 body m =
     (let groupID = TrimSpace groupID0; senderID = TrimSpace senderID0 in
      if groupID = [] then Inl ErrInvalidGroupID
      else if senderID = [] then Inl ErrInvalidPeerID
      else case map_of (groups m) groupID of
        None \<Rightarrow> Inl (ErrGroupNotFound groupID)
      | Some grp \<Rightarrow>
          if map_of (g_Members grp) senderID = None then Inl (ErrMemberNotFound senderID)
          else if TrimSpace body = [] then Inl ErrGroupBodyRequired
          else Inr (NewChatMessage now senderID [] groupID body))"

text \<open>
  \<open>pruneSeen\<close> walks the set in the order \<open>shuf\<close> of the runtime and deletes until half of
  the entries are gone.
\<close>

definition evict :: "(string list \<Rightarrow> string list) \<Rightarrow> string list \<Rightarrow> string list" where
  "evict shuf s =
     (if len s \<le> maxSeenPerGroup then s
      else let gone = take (length s div 2) (shuf s) in filter (\<lambda>k. k \<notin> set gone) s)"

definition pruneSeen :: "(string list \<Rightarrow> string list) \<Rightarrow> string \<Rightarrow> Manager \<Rightarrow> Manager" where
  "pruneSeen shuf groupID m =
     (case map_of (seen m) groupID of
        None \<Rightarrow> m
      | Some s \<Rightarrow> m\<lparr>seen := AList.update groupID (evict shuf s) (seen m)\<rparr>)"

text \<open>\<open>m.seen[groupID][id] = struct{}{}\<close>, a panic when the inner map is nil.\<close>

definition record_seen :: "string \<Rightarrow> string \<Rightarrow> Manager \<Rightarrow> group_error + Manager" where
  "record_seen groupID msgID m =
     (case map_of (seen m) groupID of
        None \<Rightarrow> Inl NilMapPanic
      | Some s \<Rightarrow> Inr (m\<lparr>seen := AList.update groupID (List.insert msgID s) (seen m)\<rparr>))"

definition seen_in :: "Manager \<Rightarrow> string \<Rightarrow> string \<Rightarrow> bool" where
  "seen_in m groupID msgID =
     (case map_of (seen m) groupID of None \<Rightarrow> False | Some s \<Rightarrow> msgID \<in> set s)"

definition route_admit :: "(string list \<Rightarrow> string list) \<Rightarrow> Message \<Rightarrow> Manager \<Rightarrow> group_error option \<times> Manager" where
  "route_admit shuf msg m =
     (if TrimSpace (GroupID msg) = [] then (Some ErrInvalidGroupID, m)
      else if TrimSpace (ID msg) = [] then (Some ErrMessageIDRequired, m)
      else if TrimSpace (SenderID msg) = [] then (Some ErrInvalidPeerID, m)
      else if map_of (groups m) (GroupID msg) = None then (Some (ErrGroupNotFound (GroupID msg)), m)
      else if seen_in m (GroupID msg) (ID msg) then (Some (ErrDuplicateGroupMessage (ID msg)), m)
      else case record_seen (GroupID msg) (ID msg) m of
        Inl e \<Rightarrow> (Some e, m)
      | Inr m' \<Rightarrow> (None, pruneSeen shuf (GroupID msg) m'))"

text \<open>
  The delivery loop. \<open>connected\<close> is \<open>None\<close> for the nil map and \<open>deliver\<close> is \<open>None\<close> for
  the nil function; \<open>f msg p\<close> says that the callback returned no error.
\<close>

definition deliverable ::
  "(string \<Rightarrow> bool) option \<Rightarrow> (Message \<Rightarrow> string \<Rightarrow> bool) option \<Rightarrow> Message \<Rightarrow> string \<Rightarrow> bool" where
  "deliverable connected deliver msg peerID =
     (if peerID = SenderID msg then False
      else if (case connected of None \<Rightarrow> False | Some c \<Rightarrow> \<not> c peerID) then False
      else case deliver of None \<Rightarrow> False | Some f \<Rightarrow> f msg peerID)"

definition route_deliver ::
  "(string \<Rightarrow> bool) option \<Rightarrow> (Message \<Rightarrow> string \<Rightarrow> bool) option \<Rightarrow> Message \<Rightarrow> Manager
     \<Rightarrow> group_error + string list" where
  "route_deliver connected deliver msg m =
     (case ViewMembers m (GroupID msg) of
        Inl e \<Rightarrow> Inl e
      | Inr members \<Rightarrow> Inr (filter (deliverable connected deliver msg) members))"

definition RouteGroupMessage ::
  "(string list \<Rightarrow> string list) \<Rightarrow> Message \<Rightarrow> (string \<Rightarrow> bool) option
     \<Rightarrow> (Message \<Rightarrow> string \<Rightarrow> bool) option \<Rightarrow> Manager \<Rightarrow> (group_error + string list) \<times> Manager" where
  "RouteGroupMessage shuf msg connected deliver m =
     (case route_admit shuf msg m of
        (Some e, m') \<Rightarrow> (Inl e, m')
      | (None, m') \<Rightarrow> (route_deliver connected deliver msg m', m'))"

definition MarkMessageSeen ::
  "(string list \<Rightarrow> string list) \<Rightarrow> string \<Rightarrow> string \<Rightarrow> Manager \<Rightarrow> group_error option \<times> Manager" where
  "MarkMessageSeen shuf groupID0 messageID0 m =
     (let groupID = TrimSpace groupID0; messageID = TrimSpace messageID0 in
      if groupID = [] then (Some ErrInvalidGroupID, m)
      else if messageID = [] then (Some ErrMessageIDRequired, m)
      else if map_of (groups m) groupID = None then (Some (ErrGroupNotFound groupID), m)
      else
        let m1 = (if map_of (seen m) groupID = None then m\<lparr>seen := AList.update groupID [] (seen m)\<rparr> else m)
        in case record_seen groupID messageID m1 of
             Inl e \<Rightarrow> (Some e, m1)
           | Inr m2 \<Rightarrow> (None, pruneSeen shuf groupID m2))"

definition IsDuplicate :: "Manager \<Rightarrow> string \<Rightarrow> string \<Rightarrow> bool" where
  "IsDuplicate m groupID0 messageID0 =
     (let groupID = TrimSpace groupID0; messageID = TrimSpace messageID0 in
      if groupID = [] \<or> messageID = [] then False
      else seen_in m groupID messageID)"


lemmas group_op_defs = CreateGroup_def AddMember_def removeMember_def RemoveMember_def LeaveGroup_def
  DeleteGroup_def route_admit_def MarkMessageSeen_def record_seen_def pruneSeen_def seen_in_def

section \<open>Invariant\<close>

definition member_ok :: "string \<Rightarrow> GroupMember \<Rightarrow> bool" where
  "member_ok p gm \<longleftrightarrow> gm_PeerID gm = p \<and> trimmed p \<and> p \<noteq> [] \<and> gm_Active gm"

definition group_ok :: "string \<Rightarrow> Group \<Rightarrow> bool" where
  "group_ok k g \<longleftrightarrow> g_ID g = k \<and> trimmed k \<and> k \<noteq> [] \<and> trimmed (g_Name g) \<and> g_Name g \<noteq> []
     \<and> distinct (map fst (g_Members g))
     \<and> (\<forall>p gm. map_of (g_Members g) p = Some gm \<longrightarrow> member_ok p gm)"

definition seen_ok :: "string list \<Rightarrow> bool" where
  "seen_ok s \<longleftrightarrow> distinct s \<and> len s \<le> maxSeenPerGroup"

definition manager_inv :: "Manager \<Rightarrow> bool" where
  "manager_inv m \<longleftrightarrow> distinct (map fst (groups m)) \<and> distinct (map fst (seen m))
     \<and> (\<forall>k. (map_of (seen m) k = None) = (map_of (groups m) k = None))
     \<and> (\<forall>k g. map_of (groups m) k = Some g \<longrightarrow> group_ok k g)
     \<and> (\<forall>k s. map_of (seen m) k = Some s \<longrightarrow> seen_ok s)"

lemma manager_invD:
  assumes "manager_inv m"
  shows "distinct (map fst (groups m))" "distinct (map fst (seen m))"
    and "\<And>k. (map_of (seen m) k = None) = (map_of (groups m) k = None)"
    and "\<And>k g. map_of (groups m) k = Some g \<Longrightarrow> group_ok k g"
    and "\<And>k s. map_of (seen m) k = Some s \<Longrightarrow> seen_ok s"
  using assms by (auto simp: manager_inv_def)

text \<open>Writing one group back, and writing one set of seen ids back.\<close>

lemma manager_inv_put_group:
  assumes "manager_inv m" "map_of (groups m) k \<noteq> None" "group_ok k g"
  shows "manager_inv (m\<lparr>groups := AList.update k g (groups m)\<rparr>)"
  using assms by (auto simp: manager_inv_def skall_maps AList.distinct_update)

lemma manager_inv_new_group:
  assumes "manager_inv m" "group_ok k g" "seen_ok s"
  shows "manager_inv (m\<lparr>groups := AList.update k g (groups m), seen := AList.update k s (seen m)\<rparr>)"
  using assms by (auto simp: manager_inv_def skall_maps AList.distinct_update)

lemma manager_inv_put_seen:
  assumes "manager_inv m" "map_of (groups m) k \<noteq> None" "seen_ok s"
  shows "manager_inv (m\<lparr>seen := AList.update k s (seen m)\<rparr>)"
  using assms by (auto simp: manager_inv_def skall_maps AList.distinct_update)

lemma evict_subset: "set (evict shuf s) \<subseteq> set s"
  by (auto simp: evict_def Let_def)

lemma evict_small: "len s \<le> maxSeenPerGroup \<Longrightarrow> evict shuf s = s"
  by (simp add: evict_def)

text \<open>
  Exactly \<open>length s div 2\<close> ids are evicted when the cap is exceeded, in whatever order the
  runtime walks the map.
\<close>

lemma evict_length:
  assumes "any_order shuf" "distinct s" "maxSeenPerGroup < len s"
  shows "length (evict shuf s) = length s - length s div 2"
proof -
  let ?gone = "take (length s div 2) (shuf s)"
  have sub: "set ?gone \<subseteq> set s"
    using any_order_set [OF assms(1)] set_take_subset by metis
  have "card (set ?gone) = length s div 2"
    using assms by (simp add: distinct_card any_order_distinct any_order_length)
  moreover have "evict shuf s = filter (\<lambda>k. k \<notin> set ?gone) s"
    using assms(3) by (simp add: evict_def Let_def)
  then have "length (evict shuf s) = card (set s - set ?gone)"
    using assms(2) by (simp add: distinct_length_filter Collect_conj_eq set_diff_eq Int_commute)
  ultimately show ?thesis
    using assms(2) sub by (simp add: card_Diff_subset distinct_card)
qed

lemma seen_ok_insert_evict:
  assumes "seen_ok s" "any_order shuf"
  shows "seen_ok (evict shuf (List.insert x s))"
proof -
  let ?s = "List.insert x s"
  have s: "distinct ?s" "len ?s \<le> maxSeenPerGroup + 1"
    using assms(1) by (auto simp: seen_ok_def List.insert_def)
  show ?thesis
  proof (cases "len ?s \<le> maxSeenPerGroup")
    case True
    then show ?thesis using s by (simp add: seen_ok_def evict_small)
  next
    case False
    then have "length (evict shuf ?s) = length ?s - length ?s div 2"
      using s assms(2) by (intro evict_length) auto
    moreover have "distinct (evict shuf ?s)" using s(1) by (simp add: evict_def Let_def)
    ultimately show ?thesis using s(2) by (simp add: seen_ok_def maxSeenPerGroup_def)
  qed
qed

lemma CreateGroup_inv:
  assumes "manager_inv m"
  shows "manager_inv (snd (CreateGroup now g n m))"
  using assms
  by (simp add: CreateGroup_def Let_def)
    (auto simp: group_ok_def seen_ok_def maxSeenPerGroup_def intro!: manager_inv_new_group)

lemma AddMember_inv:
  assumes "manager_inv m"
  shows "manager_inv (snd (AddMember now g p m))"
proof (cases "map_of (groups m) (TrimSpace g)")
  case (Some grp)
  have "group_ok (TrimSpace g) grp" by (rule manager_invD(4) [OF assms Some])
  then show ?thesis
    using assms Some
    by (simp add: AddMember_def Let_def)
      (auto simp: group_ok_def member_ok_def skall_maps AList.distinct_update intro!: manager_inv_put_group)
qed (use assms in \<open>simp add: AddMember_def Let_def\<close>)

lemma removeMember_inv:
  assumes "manager_inv m"
  shows "manager_inv (snd (removeMember now g p m))"
proof (cases "map_of (groups m) (TrimSpace g)")
  case (Some grp)
  have "group_ok (TrimSpace g) grp" by (rule manager_invD(4) [OF assms Some])
  then show ?thesis
    using assms Some
    by (simp add: removeMember_def Let_def)
      (auto simp: group_ok_def member_ok_def skall_maps AList.distinct_delete intro!: manager_inv_put_group)
qed (use assms in \<open>simp add: removeMember_def Let_def\<close>)

lemma DeleteGroup_inv:
  assumes "manager_inv m"
  shows "manager_inv (snd (DeleteGroup g m))"
  using assms
  by (simp add: DeleteGroup_def Let_def) (auto simp: manager_inv_def skall_maps AList.distinct_delete)

text \<open>Recording an id and pruning, the section \<open>RouteGroupMessage\<close> and \<open>MarkMessageSeen\<close> share.\<close>

lemma record_and_prune:
  assumes "manager_inv m" "map_of (seen m) k = Some s"
  shows "record_seen k x m = Inr (m\<lparr>seen := AList.update k (List.insert x s) (seen m)\<rparr>)"
    and "pruneSeen shuf k (m\<lparr>seen := AList.update k (List.insert x s) (seen m)\<rparr>)
      = m\<lparr>seen := AList.update k (evict shuf (List.insert x s)) (seen m)\<rparr>"
  using assms(2) by (simp_all add: record_seen_def pruneSeen_def skall_maps)

lemma record_and_prune_inv:
  assumes "manager_inv m" "any_order shuf" "map_of (groups m) k \<noteq> None" "record_seen k x m = Inr m'"
  shows "manager_inv (pruneSeen shuf k m')"
proof -
  obtain s where s: "map_of (seen m) k = Some s"
    using assms(1,3) manager_invD(3) by fastforce
  have "manager_inv (m\<lparr>seen := AList.update k (evict shuf (List.insert x s)) (seen m)\<rparr>)"
    using assms s by (intro manager_inv_put_seen seen_ok_insert_evict) (auto dest: manager_invD(5))
  moreover have "m' = m\<lparr>seen := AList.update k (List.insert x s) (seen m)\<rparr>"
    using assms(4) record_and_prune(1) [OF assms(1) s] by simp
  ultimately show ?thesis
    by (simp only: record_and_prune(2) [OF assms(1) s])
qed

lemma route_admit_inv: "manager_inv m \<Longrightarrow> any_order shuf \<Longrightarrow> manager_inv (snd (route_admit shuf msg m))"
  by (auto simp: route_admit_def split: sum.split dest: record_and_prune_inv)

lemma MarkMessageSeen_inv: "manager_inv m \<Longrightarrow> any_order shuf \<Longrightarrow> manager_inv (snd (MarkMessageSeen shuf g i m))"
  by (auto simp: MarkMessageSeen_def Let_def manager_invD(3) split: sum.split dest: record_and_prune_inv)

section \<open>The manager as a state machine\<close>

text \<open>Any sequence of calls by any number of goroutines is a sequence of these atomic sections.\<close>

inductive mgr_step :: "Manager \<Rightarrow> Manager \<Rightarrow> bool" where
  step_create: "mgr_step m (snd (CreateGroup now g n m))"
| step_add: "mgr_step m (snd (AddMember now g p m))"
| step_remove: "mgr_step m (snd (RemoveMember now g p m))"
| step_leave: "mgr_step m (snd (LeaveGroup now g p m))"
| step_delete: "mgr_step m (snd (DeleteGroup g m))"
| step_route: "any_order shuf \<Longrightarrow> mgr_step m (snd (route_admit shuf msg m))"
| step_mark: "any_order shuf \<Longrightarrow> mgr_step m (snd (MarkMessageSeen shuf g i m))"

interpretation mgr: invariant_system "\<lambda>m. m = NewManager" mgr_step manager_inv
proof unfold_locales
  show "s = NewManager \<Longrightarrow> manager_inv s" for s
    by (simp add: NewManager_def manager_inv_def)
  show "manager_inv s \<Longrightarrow> mgr_step s t \<Longrightarrow> manager_inv t" for s t
    by (erule mgr_step.cases)
      (auto simp: RemoveMember_def LeaveGroup_def
        intro: CreateGroup_inv AddMember_inv removeMember_inv DeleteGroup_inv route_admit_inv MarkMessageSeen_inv)
qed

abbreviation mgr_reachable :: "Manager \<Rightarrow> bool" where
  "mgr_reachable \<equiv> reach (\<lambda>m. m = NewManager) mgr_step"

lemma mgr_start: "mgr_reachable NewManager"
  by (rule reach_init) simp


section \<open>Routing\<close>

text \<open>The outcome of the admission section, in terms of the sets of seen ids.\<close>

lemma route_admit_ok:
  assumes "manager_inv m" "map_of (groups m) (GroupID msg) \<noteq> None"
    and "TrimSpace (ID msg) \<noteq> []" "TrimSpace (SenderID msg) \<noteq> []" "\<not> seen_in m (GroupID msg) (ID msg)"
  obtains s where "map_of (seen m) (GroupID msg) = Some s" "ID msg \<notin> set s"
    "route_admit shuf msg m =
       (None, m\<lparr>seen := AList.update (GroupID msg) (evict shuf (List.insert (ID msg) s)) (seen m)\<rparr>)"
proof -
  obtain s where s: "map_of (seen m) (GroupID msg) = Some s"
    using assms(1,2) manager_invD(3) by fastforce
  obtain g where "map_of (groups m) (GroupID msg) = Some g"
    using assms(2) by blast
  then have "group_ok (GroupID msg) g" by (rule manager_invD(4) [OF assms(1)])
  then have "TrimSpace (GroupID msg) \<noteq> []" by (auto simp: group_ok_def)
  with assms s have "route_admit shuf msg m =
      (None, m\<lparr>seen := AList.update (GroupID msg) (evict shuf (List.insert (ID msg) s)) (seen m)\<rparr>)"
    by (simp add: route_admit_def record_and_prune [OF assms(1) s] del: not_in_set_insert)
  moreover have "ID msg \<notin> set s" using assms(5) s by (simp add: seen_in_def)
  ultimately show thesis using s that by blast
qed

lemma route_admit_eq:
  assumes "manager_inv m" "map_of (groups m) (GroupID msg) \<noteq> None" "map_of (seen m) (GroupID msg) = Some s"
    and "TrimSpace (ID msg) \<noteq> []" "TrimSpace (SenderID msg) \<noteq> []" "ID msg \<notin> set s"
  shows "route_admit shuf msg m =
    (None, m\<lparr>seen := AList.update (GroupID msg) (evict shuf (List.insert (ID msg) s)) (seen m)\<rparr>)"
proof -
  have "\<not> seen_in m (GroupID msg) (ID msg)" using assms by (simp add: seen_in_def)
  then show ?thesis
    by (rule route_admit_ok [OF assms(1,2,4,5), of shuf]) (use assms(3) in simp)
qed

lemma route_admit_dup:
  assumes "map_of (groups m) (GroupID msg) \<noteq> None" "TrimSpace (GroupID msg) \<noteq> []"
    and "TrimSpace (ID msg) \<noteq> []" "TrimSpace (SenderID msg) \<noteq> []" "seen_in m (GroupID msg) (ID msg)"
  shows "route_admit shuf msg m = (Some (ErrDuplicateGroupMessage (ID msg)), m)"
  using assms by (simp add: route_admit_def)

lemma route_admit_groups [simp]: "groups (snd (route_admit shuf msg m)) = groups m"
  by (auto simp: route_admit_def record_seen_def pruneSeen_def split: option.split sum.split)

text \<open>
  Admission of a burst of messages for one group: the ids that get through, in order.
\<close>

fun admitted :: "(string list \<Rightarrow> string list) \<Rightarrow> Message list \<Rightarrow> Manager \<Rightarrow> string list" where
  "admitted shuf [] m = []"
| "admitted shuf (msg # msgs) m =
     (case route_admit shuf msg m of
        (None, m') \<Rightarrow> ID msg # admitted shuf msgs m'
      | (Some e, m') \<Rightarrow> admitted shuf msgs m')"

definition burst :: "string \<Rightarrow> Message list \<Rightarrow> bool" where
  "burst k msgs \<longleftrightarrow> (\<forall>msg \<in> set msgs. GroupID msg = k \<and> TrimSpace (ID msg) \<noteq> [] \<and> TrimSpace (SenderID msg) \<noteq> [])"

lemma burst_Cons: "burst k (msg # msgs) \<longleftrightarrow>
    GroupID msg = k \<and> TrimSpace (ID msg) \<noteq> [] \<and> TrimSpace (SenderID msg) \<noteq> [] \<and> burst k msgs"
  by (auto simp: burst_def)

lemma admitted_spec:
  assumes "manager_inv m" "any_order shuf" "map_of (groups m) k \<noteq> None" "map_of (seen m) k = Some s"
    and "burst k msgs" "len s + len msgs \<le> maxSeenPerGroup"
  shows "distinct (admitted shuf msgs m) \<and> set (admitted shuf msgs m) = ID ` set msgs - set s"
  using assms
proof (induction msgs arbitrary: m s)
  case (Cons msg msgs)
  note k = Cons.prems(5) [unfolded burst_Cons]
  have tk: "TrimSpace k \<noteq> []"
    using Cons.prems(1,3) manager_invD(4) by (fastforce simp: group_ok_def)
  show ?case
  proof (cases "ID msg \<in> set s")
    case True
    then have "route_admit shuf msg m = (Some (ErrDuplicateGroupMessage (ID msg)), m)"
      using k tk Cons.prems(3,4) by (intro route_admit_dup) (auto simp: seen_in_def)
    with Cons.IH [OF Cons.prems(1-4)] Cons.prems(6) k True show ?thesis by auto
  next
    case False
    let ?m = "m\<lparr>seen := AList.update k (List.insert (ID msg) s) (seen m)\<rparr>"
    have ev: "evict shuf (List.insert (ID msg) s) = List.insert (ID msg) s"
      using Cons.prems(6) False by (intro evict_small) (simp add: List.insert_def)
    then have adm: "route_admit shuf msg m = (None, ?m)"
      using route_admit_ok [OF Cons.prems(1), of msg shuf] k Cons.prems(3,4) False
      by (fastforce simp: seen_in_def)
    have "manager_inv ?m"
      using route_admit_inv [OF Cons.prems(1,2), of msg] adm by simp
    then have "distinct (admitted shuf msgs ?m)
        \<and> set (admitted shuf msgs ?m) = ID ` set msgs - set (List.insert (ID msg) s)"
      using Cons.prems k False by (intro Cons.IH) (auto simp: skall_maps List.insert_def)
    with adm False show ?thesis by auto
  qed
qed simp

section \<open>Properties\<close>



text \<open>Recording a message id never hits the nil inner map, so neither \<open>RouteGroupMessage\<close> nor
  \<open>MarkMessageSeen\<close> panics in a reachable state.\<close>

theorem no_nil_map_panic:
  assumes "mgr_reachable m"
  shows "fst (RouteGroupMessage shuf msg conn deliver m) \<noteq> Inl NilMapPanic
    \<and> fst (MarkMessageSeen shuf g i m) \<noteq> Some NilMapPanic"
proof -
  have inv: "manager_inv m" by (rule mgr.reach_inv [OF assms])
  have "fst (route_admit shuf msg m) \<noteq> Some NilMapPanic"
    using manager_invD(3) [OF inv, of "GroupID msg"] by (auto simp: route_admit_def record_seen_def split: option.split)
  then show ?thesis
    by (auto simp: RouteGroupMessage_def MarkMessageSeen_def route_deliver_def ViewMembers_def record_seen_def
        Let_def skall_maps split: prod.split option.split sum.split)
qed

theorem no_nil_map_panic_witness:
  "fst (MarkMessageSeen rev ''g'' ''m1'' (snd (CreateGroup 5 ''g'' ''team'' NewManager))) \<noteq> Some NilMapPanic"
  using no_nil_map_panic [OF reach_step [OF mgr_start step_create]] by blast


text \<open>C23: Routing a message that its group has not seen delivers it to exactly the members other than
  the sender that are connected and whose delivery succeeds, each once and in sorted order; no
  other peer gets it.\<close>

theorem route_delivers_to_members:
  assumes "mgr_reachable m" and "any_order shuf"
    and g: "map_of (groups m) (GroupID msg) = Some g"
    and "TrimSpace (ID msg) \<noteq> []" "TrimSpace (SenderID msg) \<noteq> []"
    and "\<not> seen_in m (GroupID msg) (ID msg)"
  shows "\<exists>ds. fst (RouteGroupMessage shuf msg conn deliver m) = Inr ds \<and> sorted ds \<and> distinct ds
    \<and> set ds = {p. map_of (g_Members g) p \<noteq> None \<and> p \<noteq> SenderID msg
                 \<and> (case conn of None \<Rightarrow> True | Some c \<Rightarrow> c p)
                 \<and> (case deliver of None \<Rightarrow> False | Some f \<Rightarrow> f msg p)}"
proof -
  have inv: "manager_inv m" by (rule mgr.reach_inv [OF assms(1)])
  have ok: "group_ok (GroupID msg) g" by (rule manager_invD(4) [OF inv g])
  obtain m' where m': "route_admit shuf msg m = (None, m')"
    using assms route_admit_ok [OF inv, of msg shuf] by fastforce
  then have "groups m' = groups m"
    using route_admit_groups [of shuf msg m] by simp
  then have "route_deliver conn deliver msg m' =
      Inr (filter (deliverable conn deliver msg) (sort (map fst (g_Members g))))"
    using g ok by (simp add: route_deliver_def ViewMembers_def Let_def group_ok_def trimmed_def)
  moreover have "set (filter (deliverable conn deliver msg) (sort (map fst (g_Members g)))) =
      {p. map_of (g_Members g) p \<noteq> None \<and> p \<noteq> SenderID msg
         \<and> (case conn of None \<Rightarrow> True | Some c \<Rightarrow> c p) \<and> (case deliver of None \<Rightarrow> False | Some f \<Rightarrow> f msg p)}"
    using alist.keys_get [of _ "g_Members g"]
    by (auto simp: deliverable_def split: option.splits if_splits)
  ultimately show ?thesis
    using m' ok by (simp add: RouteGroupMessage_def sorted_filter [where f = "\<lambda>x. x", simplified] group_ok_def)
qed

definition demo_manager :: Manager where
  "demo_manager = snd (AddMember 7 ''g'' ''bob'' (snd (AddMember 6 ''g'' ''ann''
     (snd (CreateGroup 5 ''g'' ''team'' NewManager)))))"

definition demo_message :: Message where
  "demo_message = \<lparr>Version = 1, ID = ''m1'', Type = ''chat'', SenderID = ''ann'', RecipientID = [],
     GroupID = ''g'', Timestamp = 9, Body = ''hi''\<rparr>"

lemma demo_manager_reachable: "mgr_reachable demo_manager"
  unfolding demo_manager_def
  by (rule reach_step [OF reach_step [OF reach_step [OF mgr_start step_create] step_add] step_add])

lemma demo_manager_group:
  "map_of (groups demo_manager) ''g'' =
     Some \<lparr>g_ID = ''g'', g_Name = ''team'',
       g_Members = [(''ann'', \<lparr>gm_PeerID = ''ann'', gm_JoinedAt = 6, gm_Active = True, gm_LastSeen = 6\<rparr>),
                    (''bob'', \<lparr>gm_PeerID = ''bob'', gm_JoinedAt = 7, gm_Active = True, gm_LastSeen = 7\<rparr>)],
       g_CreatedAt = 5, g_UpdatedAt = 7\<rparr>"
  "map_of (seen demo_manager) ''g'' = Some []"
  by code_simp+

lemma demo_trims: "TrimSpace ''m1'' = ''m1''" "TrimSpace ''ann'' = ''ann''" "TrimSpace ''g'' = ''g''"
  by code_simp+

theorem route_delivers_to_members_witness:
  "\<exists>ds. fst (RouteGroupMessage rev demo_message None (Some (\<lambda>_ _. True)) demo_manager) = Inr ds
    \<and> set ds = {''bob''}"
proof -
  have "{p. map_of [(''ann'', a), (''bob'', b)] p \<noteq> None \<and> p \<noteq> ''ann''} = {''bob''}" for a b :: GroupMember
    by auto
  then show ?thesis
    using route_delivers_to_members [OF demo_manager_reachable any_order_rev, of demo_message _ None "Some (\<lambda>_ _. True)"]
      demo_manager_group demo_trims
    by (auto simp: demo_message_def seen_in_def)
qed



text \<open>The deduplication set is bounded but forgetful: when it is full, the runtime may evict the
  very id that was just recorded, and the same message is then admitted a second time.\<close>

theorem full_set_may_readmit:
  assumes "mgr_reachable m" "map_of (groups m) (GroupID msg) \<noteq> None" "map_of (seen m) (GroupID msg) = Some s"
    and "len s = maxSeenPerGroup" "ID msg \<notin> set s" "TrimSpace (ID msg) \<noteq> []" "TrimSpace (SenderID msg) \<noteq> []"
  shows "\<exists>shuf. any_order shuf \<and> fst (route_admit shuf msg m) = None
    \<and> fst (route_admit shuf msg (snd (route_admit shuf msg m))) = None"
proof -
  let ?x = "ID msg"
  define shuf where "shuf xs = (if ?x \<in> set xs then ?x # remove1 ?x xs else xs)" for xs
  have any: "any_order shuf" by (simp add: any_order_def shuf_def)
  have inv: "manager_inv m" by (rule mgr.reach_inv [OF assms(1)])
  define m' where "m' = m\<lparr>seen := AList.update (GroupID msg) (evict shuf (List.insert ?x s)) (seen m)\<rparr>"
  have m': "route_admit shuf msg m = (None, m')"
    unfolding m'_def by (rule route_admit_eq [OF inv assms(2,3,6,7,5)])
  have seen': "map_of (seen m') (GroupID msg) = Some (evict shuf (List.insert ?x s))"
    by (simp add: m'_def skall_maps)
  have inv': "manager_inv m'" and g': "groups m' = groups m"
    using route_admit_inv [OF inv any, of msg] route_admit_groups [of shuf msg m] m' by simp_all
  have ls: "length s = 10000" using assms(4) by (simp add: maxSeenPerGroup_def)
  then have "length (List.insert ?x s) div 2 \<noteq> 0" using assms(5) by simp
  then obtain n where n: "length (List.insert ?x s) div 2 = Suc n"
    using not0_implies_Suc by blast
  have "?x \<notin> set (evict shuf (List.insert ?x s))"
    unfolding evict_def Let_def n using ls assms(5)
    by (simp add: shuf_def maxSeenPerGroup_def)
  then have "fst (route_admit shuf msg m') = None"
    using route_admit_eq [OF inv' _ seen' assms(6,7), of shuf] assms(2) g' by simp
  with any m' show ?thesis by auto
qed


text \<open>A run that fills the deduplication set of a group, for the witness.\<close>

lemma mark_fills:
  assumes "mgr_reachable m" "map_of (groups m) k = Some g" "map_of (seen m) k = Some s"
    and "distinct (is @ s)" "\<And>i. i \<in> set is \<Longrightarrow> trimmed i \<and> i \<noteq> []" "len is + len s \<le> maxSeenPerGroup"
  shows "\<exists>m' s'. mgr_reachable m' \<and> groups m' = groups m \<and> map_of (seen m') k = Some s'
    \<and> length s' = length is + length s \<and> set s' = set is \<union> set s"
  using assms
proof (induction "is" arbitrary: m s)
  case (Cons i xs)
  let ?m = "m\<lparr>seen := AList.update k (List.insert i s) (seen m)\<rparr>"
  have inv: "manager_inv m" by (rule mgr.reach_inv [OF Cons.prems(1)])
  have k: "TrimSpace k = k" "k \<noteq> []" using manager_invD(4) [OF inv Cons.prems(2)] by (auto simp: group_ok_def)
  have "evict rev (List.insert i s) = List.insert i s"
    using Cons.prems(4,6) by (intro evict_small) simp
  then have "snd (MarkMessageSeen rev k i m) = ?m"
    using k Cons.prems(2,3,5) record_and_prune [OF inv Cons.prems(3)]
    by (simp add: MarkMessageSeen_def Let_def trimmed_def del: not_in_set_insert)
  then have r: "mgr_reachable ?m"
    using reach_step [OF Cons.prems(1) step_mark [OF any_order_rev]] by metis
  have "\<exists>m' s'. mgr_reachable m' \<and> groups m' = groups ?m \<and> map_of (seen m') k = Some s'
      \<and> length s' = length xs + length (List.insert i s) \<and> set s' = set xs \<union> set (List.insert i s)"
    using Cons.prems r by (intro Cons.IH) (auto simp: skall_maps)
  then show ?case using Cons.prems(4) by auto
qed auto

theorem full_set_may_readmit_witness:
  "\<exists>m shuf. mgr_reachable m \<and> any_order shuf \<and> fst (route_admit shuf demo_message m) = None
    \<and> fst (route_admit shuf demo_message (snd (route_admit shuf demo_message m))) = None"
proof -
  let ?is = "map FormatInt [0..9999]"
  have i64: "i \<in> set [0..9999] \<Longrightarrow> in_int64 i" for i by (simp add: in_int64_def)
  have "inj_on FormatInt (set [0..9999])"
    by (intro inj_onI FormatInt_inj i64)
  then have d: "distinct (?is @ [])" by (simp add: distinct_map)
  have t: "\<And>i. i \<in> set ?is \<Longrightarrow> trimmed i \<and> i \<noteq> []" by (auto simp: trimmed_def)
  have m1: "''m1'' \<notin> set ?is"
  proof
    assume "''m1'' \<in> set ?is"
    then obtain i where "''m1'' = FormatInt i" by auto
    then have "hd (FormatInt i) = CHR ''m''" by (metis list.sel(1))
    moreover have "0 \<le> i \<Longrightarrow> is_digit (hd (digits i))"
      using digits_are_digits [of i] digits_nonempty [of i] by (cases "digits i") auto
    moreover have "\<not> is_digit (CHR ''m'')" by (simp add: is_digit_def)
    ultimately show False by (cases "i < 0") (auto simp: FormatInt_def)
  qed
  obtain m' s' where "mgr_reachable m'" "groups m' = groups demo_manager" "map_of (seen m') ''g'' = Some s'"
    "length s' = length ?is" "set s' = set ?is"
    using mark_fills [OF demo_manager_reachable demo_manager_group d] t by (auto simp: maxSeenPerGroup_def)
  with m1 full_set_may_readmit [of m' demo_message s'] show ?thesis
    using demo_manager_group demo_trims by (auto simp: demo_message_def maxSeenPerGroup_def)
qed

text \<open>\<open>RouteGroupMessage\<close> records the id of a message as it came, while \<open>IsDuplicate\<close> trims the id it is
  asked about: a routed message whose id has surrounding white space is rejected as a duplicate
  when routed again, yet \<open>IsDuplicate\<close> reports that it is not one.\<close>

theorem IsDuplicate_misses_padded_id:
  assumes "mgr_reachable m" "any_order shuf" "map_of (groups m) (GroupID msg) \<noteq> None"
    and "map_of (seen m) (GroupID msg) = Some s" "len s < maxSeenPerGroup"
    and "TrimSpace (ID msg) \<noteq> []" "TrimSpace (SenderID msg) \<noteq> []"
    and "ID msg \<notin> set s" "TrimSpace (ID msg) \<notin> set s" "TrimSpace (ID msg) \<noteq> ID msg"
  shows "\<exists>m'. route_admit shuf msg m = (None, m')
    \<and> route_admit shuf msg m' = (Some (ErrDuplicateGroupMessage (ID msg)), m')
    \<and> \<not> IsDuplicate m' (GroupID msg) (ID msg)"
proof -
  define m' where "m' = m\<lparr>seen := AList.update (GroupID msg) (List.insert (ID msg) s) (seen m)\<rparr>"
  have inv: "manager_inv m" by (rule mgr.reach_inv [OF assms(1)])
  have k: "TrimSpace (GroupID msg) = GroupID msg" "GroupID msg \<noteq> []"
    using manager_invD(4) [OF inv] assms(3) by (fastforce simp: group_ok_def)+
  have "evict shuf (List.insert (ID msg) s) = List.insert (ID msg) s"
    using assms(5,8) by (intro evict_small) simp
  then have m': "route_admit shuf msg m = (None, m')"
    using route_admit_eq [OF inv assms(3,4,6,7,8), of shuf] by (simp add: m'_def)
  moreover have "route_admit shuf msg m' = (Some (ErrDuplicateGroupMessage (ID msg)), m')"
    using assms k by (intro route_admit_dup) (auto simp: m'_def seen_in_def skall_maps)
  moreover have "\<not> IsDuplicate m' (GroupID msg) (ID msg)"
    using assms k by (simp add: IsDuplicate_def seen_in_def m'_def skall_maps)
  ultimately show ?thesis by blast
qed

theorem IsDuplicate_misses_padded_id_witness:
  "\<exists>m'. route_admit rev (demo_message\<lparr>ID := '' m1''\<rparr>) demo_manager = (None, m') \<and> \<not> IsDuplicate m' ''g'' '' m1''"
proof -
  have "TrimSpace '' m1'' = ''m1''" by code_simp
  then show ?thesis
    using IsDuplicate_misses_padded_id [OF demo_manager_reachable any_order_rev, of "demo_message\<lparr>ID := '' m1''\<rparr>" "[]"]
      demo_manager_group demo_trims
    by (auto simp: demo_message_def maxSeenPerGroup_def)
qed

end
