(* ===== verification/Sha256.thy ===== *)
theory Sha256
  imports Skall_Prelude
begin

text \<open>
  SHA-256 (FIPS 180-4) as package \<open>crypto/sha256\<close> computes it, on byte strings, and
  \<open>hex.EncodeToString\<close>. SKALL derives its peer ids and its Kademlia keys from these digests.
\<close>

unbundle bit_operations_syntax

type_synonym w32 = "32 word"

text \<open>
  The constants of the standard, from their definition: the first 32 bits of the fractional
  parts of the cube roots of the first 64 primes (\<open>sha_k\<close>) and of the square roots of the
  first 8 primes (\<open>sha_init\<close>). \<open>iroot k b n\<close> is the integer \<open>k\<close>-th root of \<open>n\<close>, found bit by bit
  below \<open>2 ^ b\<close>.
\<close>

primrec iroot_from :: "nat \<Rightarrow> nat \<Rightarrow> int \<Rightarrow> int \<Rightarrow> int" where
  "iroot_from k 0 n r = r"
| "iroot_from k (Suc b) n r = iroot_from k b n (if (r + 2 ^ b) ^ k \<le> n then r + 2 ^ b else r)"

definition iroot :: "nat \<Rightarrow> nat \<Rightarrow> int \<Rightarrow> int" where
  "iroot k b n = iroot_from k b n 0"

definition small_primes :: "int list" where
  "small_primes = filter (\<lambda>p. list_all (\<lambda>d. p mod d \<noteq> 0) [2..p - 1]) [2..311]"

definition sha_k :: "w32 list" where
  "sha_k = map (\<lambda>p. word_of_int (iroot 3 35 (p * 2 ^ 96))) small_primes"

definition sha_init :: "w32 list" where
  "sha_init = map (\<lambda>p. word_of_int (iroot 2 37 (p * 2 ^ 64))) [2, 3, 5, 7, 11, 13, 17, 19]"

lemma length_sha_init: "length sha_init = 8"
  by (simp add: sha_init_def)

definition rotr :: "nat \<Rightarrow> w32 \<Rightarrow> w32" where
  "rotr n x = (drop_bit n x) OR (push_bit (32 - n) x)"

definition sha_ch :: "w32 \<Rightarrow> w32 \<Rightarrow> w32 \<Rightarrow> w32" where
  "sha_ch x y z = (x AND y) XOR (NOT x AND z)"

definition sha_maj :: "w32 \<Rightarrow> w32 \<Rightarrow> w32 \<Rightarrow> w32" where
  "sha_maj x y z = (x AND y) XOR (x AND z) XOR (y AND z)"

definition sha_S0 :: "w32 \<Rightarrow> w32" where "sha_S0 x = rotr 2 x XOR rotr 13 x XOR rotr 22 x"
definition sha_S1 :: "w32 \<Rightarrow> w32" where "sha_S1 x = rotr 6 x XOR rotr 11 x XOR rotr 25 x"
definition sha_s0 :: "w32 \<Rightarrow> w32" where "sha_s0 x = rotr 7 x XOR rotr 18 x XOR drop_bit 3 x"
definition sha_s1 :: "w32 \<Rightarrow> w32" where "sha_s1 x = rotr 17 x XOR rotr 19 x XOR drop_bit 10 x"

text \<open>The message schedule, built with the newest word first.\<close>

primrec sha_schedule :: "nat \<Rightarrow> w32 list \<Rightarrow> w32 list" where
  "sha_schedule 0 ws = rev ws"
| "sha_schedule (Suc n) ws = sha_schedule n ((sha_s1 (ws ! 1) + ws ! 6 + sha_s0 (ws ! 14) + ws ! 15) # ws)"

fun sha_round :: "w32 \<times> w32 \<Rightarrow> w32 list \<Rightarrow> w32 list" where
  "sha_round (k, w) [a, b, c, d, e, f, g, h] =
     (let t1 = h + sha_S1 e + sha_ch e f g + k + w; t2 = sha_S0 a + sha_maj a b c
      in [t1 + t2, a, b, c, d + t1, e, f, g])"
| "sha_round _ st = st"

definition sha_block :: "w32 list \<Rightarrow> w32 list \<Rightarrow> w32 list" where
  "sha_block ws st = map2 (+) st (fold sha_round (zip sha_k (sha_schedule 48 (rev ws))) st)"

definition be_word :: "string \<Rightarrow> w32" where
  "be_word bs = foldl (\<lambda>n c. push_bit 8 n OR of_int (of_char c)) 0 bs"

definition be_bytes :: "nat \<Rightarrow> int \<Rightarrow> string" where
  "be_bytes n i = map (\<lambda>k. char_of (i div 256 ^ k mod 256)) (rev [0..<n])"

function chunks :: "nat \<Rightarrow> 'a list \<Rightarrow> 'a list list" where
  "chunks n xs = (if xs = [] \<or> n = 0 then [] else take n xs # chunks n (drop n xs))"
  by pat_completeness auto
termination
  by (relation "measure (\<lambda>(n, xs). length xs)") auto

declare chunks.simps [simp del]

definition sha_pad :: "string \<Rightarrow> string" where
  "sha_pad s = s @ [CHR 0x80] @ replicate (nat ((55 - len s) mod 64)) (CHR 0x00) @ be_bytes 8 (8 * len s)"

definition sha256 :: "string \<Rightarrow> string" where
  "sha256 s =
     concat (map (\<lambda>w. be_bytes 4 (uint w))
       (fold (\<lambda>blk st. sha_block (map be_word (chunks 4 blk)) st) (chunks 64 (sha_pad s)) sha_init))"

definition hex_digit :: "int \<Rightarrow> char" where
  "hex_digit n = (if n < 10 then char_of (48 + n) else char_of (87 + n))"

definition hex :: "string \<Rightarrow> string" where
  "hex s = concat (map (\<lambda>c. [hex_digit (of_char c div 16), hex_digit (of_char c mod 16)]) s)"

lemma length_be_bytes [simp]: "length (be_bytes n i) = n"
  by (simp add: be_bytes_def)

lemma length_sha_round [simp]: "length (sha_round kw st) = length st"
  by (cases "(kw, st)" rule: sha_round.cases) (simp_all add: Let_def)

lemma length_fold_sha_round [simp]: "length (fold sha_round kws st) = length st"
  by (induction kws arbitrary: st) auto

lemma length_sha_block [simp]: "length (sha_block ws st) = length st"
  by (simp add: sha_block_def)

lemma length_sha256 [simp]: "length (sha256 s) = 32"
proof -
  have "length (fold (\<lambda>blk st. sha_block (map be_word (chunks 4 blk)) st) bs st) = length st" for bs st
    by (induction bs arbitrary: st) auto
  then show ?thesis
    by (simp add: sha256_def length_concat length_sha_init comp_def sum_list_triv)
qed

lemma length_hex [simp]: "length (hex s) = 2 * length s"
  by (induction s) (auto simp: hex_def)

lemma be_bytes_upto:
  "map (\<lambda>k. i div 256 ^ k mod 256) (rev [0..<n]) = map (\<lambda>k. j div 256 ^ k mod (256 :: int)) (rev [0..<n])
    \<Longrightarrow> i mod 256 ^ n = j mod 256 ^ n"
proof (induction n)
  case (Suc n)
  have "i mod 256 ^ Suc n = 256 ^ n * (i div 256 ^ n mod 256) + i mod 256 ^ n" for i :: int
    by (metis mod_mult2_eq' power_Suc2 mult.commute zmod_zmult2_eq zero_le_numeral zero_le_power)
  with Suc show ?case by simp
qed simp

end
