(* ===== verification/Identity.thy ===== *)
theory Identity
  imports Protocol Sha256
begin

text \<open>
  The local identity of \<^verbatim>\<open>internal/identity/identity.go\<close>: the struct, its validation, its
  generation from fresh key material, and the derived peer id.

  \<open>ed25519.GenerateKey\<close> reads 32 random bytes, the seed, and returns the public key and the
  private key, which is the seed followed by the public key (RFC 8032 form, as documented by
  \<open>crypto/ed25519\<close>). The curve computation \<open>pub\<close> from the seed to the public key is an
  argument; the only fact used of it is that a public key has 32 bytes. The conversion to
  a libp2p key and peer id belongs to go-libp2p and is an argument of its users.
\<close>

definition IdentityVersion :: int where "IdentityVersion = 1"

record Identity =
  i_Version :: int
  i_PeerID :: string
  i_Username :: string
  i_DisplayName :: string
  i_CreatedAt :: time
  i_PublicKey :: string
  i_PrivateKey :: string

datatype identity_error =
    ErrIdMissingRequired
  | ErrInvalidKeyPair
  | ErrPeerIDMismatch
  | ErrUnsupportedVer int
  | ErrRandom
  | ErrNoPrivateKey
  | ErrLibP2P string

definition PublicKeySize :: nat where "PublicKeySize = 32"
definition PrivateKeySize :: nat where "PrivateKeySize = 64"

definition PeerIDFromPublicKey :: "string \<Rightarrow> string" where
  "PeerIDFromPublicKey publicKey = hex (sha256 publicKey)"

definition shortPeerID :: "string \<Rightarrow> string" where
  "shortPeerID peerID = (if len peerID \<le> 8 then peerID else take 8 peerID)"

text \<open>\<open>PrivateKey.Public()\<close> is the upper half of the 64 bytes.\<close>

definition ed25519_Public :: "string \<Rightarrow> string" where
  "ed25519_Public priv = take 32 (drop 32 priv)"

definition ValidateIdentity :: "Identity \<Rightarrow> identity_error option" where
  "ValidateIdentity i =
     (if i_Version i \<noteq> IdentityVersion then Some (ErrUnsupportedVer (i_Version i))
      else if TrimSpace (i_PeerID i) = [] \<or> TrimSpace (i_Username i) = [] \<or> TrimSpace (i_DisplayName i) = []
        then Some ErrIdMissingRequired
      else if IsZero (i_CreatedAt i) then Some ErrIdMissingRequired
      else if length (i_PublicKey i) \<noteq> PublicKeySize \<or> length (i_PrivateKey i) \<noteq> PrivateKeySize
        then Some ErrInvalidKeyPair
      else if ed25519_Public (i_PrivateKey i) \<noteq> i_PublicKey i then Some ErrInvalidKeyPair
      else if PeerIDFromPublicKey (i_PublicKey i) \<noteq> i_PeerID i then Some ErrPeerIDMismatch
      else None)"

text \<open>
  \<open>Generate\<close>. The seed is \<open>None\<close> when the random source fails; the result is the identity
  together with the error of its validation, as the Go function returns both.
\<close>

definition Generate :: "(string \<Rightarrow> string) \<Rightarrow> string option \<Rightarrow> time \<Rightarrow> identity_error + Identity" where
  "Generate pub seed now =
     (case seed of
        None \<Rightarrow> Inl ErrRandom
      | Some sd \<Rightarrow>
          let publicKey = pub sd; privateKey = sd @ pub sd;
              peerID = PeerIDFromPublicKey publicKey; shortID = shortPeerID peerID;
              identity = \<lparr>i_Version = IdentityVersion, i_PeerID = peerID,
                i_Username = ''user-'' @ shortID, i_DisplayName = ''SKALL-'' @ shortID,
                i_CreatedAt = now, i_PublicKey = publicKey, i_PrivateKey = privateKey\<rparr>
          in (case ValidateIdentity identity of None \<Rightarrow> Inr identity | Some e \<Rightarrow> Inl e))"

definition Summary :: "Identity \<Rightarrow> (time \<Rightarrow> string) \<Rightarrow> string" where
  "Summary i rfc3339 =
     ''Peer ID: '' @ i_PeerID i @ [CHR 0x0A] @ ''Username: '' @ i_Username i @ [CHR 0x0A]
     @ ''Display Name: '' @ i_DisplayName i @ [CHR 0x0A] @ ''Created At: '' @ rfc3339 (i_CreatedAt i)"

text \<open>
  \<open>LibP2PPrivKey\<close> and \<open>LibP2PPeerID\<close>. \<open>conv\<close> is \<open>libp2pcrypto.KeyPairFromStdKey\<close> and
  \<open>pid\<close> is \<open>peer.IDFromPrivateKey\<close>; a \<open>None\<close> is their error.
\<close>

definition LibP2PPrivKey :: "(string \<Rightarrow> 'k option) \<Rightarrow> Identity \<Rightarrow> identity_error + 'k" where
  "LibP2PPrivKey conv i =
     (if length (i_PrivateKey i) = 0 then Inl ErrNoPrivateKey
      else case conv (i_PrivateKey i) of
        None \<Rightarrow> Inl (ErrLibP2P ''convert identity key to libp2p'')
      | Some k \<Rightarrow> Inr k)"

definition LibP2PPeerID :: "(string \<Rightarrow> 'k option) \<Rightarrow> ('k \<Rightarrow> 'p option) \<Rightarrow> Identity \<Rightarrow> identity_error + 'p" where
  "LibP2PPeerID conv pid i =
     (case LibP2PPrivKey conv i of
        Inl e \<Rightarrow> Inl e
      | Inr k \<Rightarrow> (case pid k of None \<Rightarrow> Inl (ErrLibP2P ''derive libp2p peer id'') | Some p \<Rightarrow> Inr p))"

section \<open>What a valid identity is\<close>

lemma ValidateIdentity_iff:
  "ValidateIdentity i = None \<longleftrightarrow>
     i_Version i = 1 \<and> TrimSpace (i_PeerID i) \<noteq> [] \<and> TrimSpace (i_Username i) \<noteq> []
     \<and> TrimSpace (i_DisplayName i) \<noteq> [] \<and> i_CreatedAt i \<noteq> 0
     \<and> length (i_PublicKey i) = 32 \<and> length (i_PrivateKey i) = 64
     \<and> drop 32 (i_PrivateKey i) = i_PublicKey i \<and> i_PeerID i = hex (sha256 (i_PublicKey i))"
  by (auto simp: ValidateIdentity_def IdentityVersion_def IsZero_def zero_time_def PublicKeySize_def
      PrivateKeySize_def ed25519_Public_def PeerIDFromPublicKey_def)

lemma hex_digit_visible: "0 \<le> n \<Longrightarrow> n < 16 \<Longrightarrow> visible (hex_digit n)"
  by (auto simp: hex_digit_def visible_def)

lemma hex_visible: "list_all visible (hex s)"
proof (induction s)
  case (Cons c s)
  have "(0 :: int) \<le> of_char c div 16" "of_char c div 16 < (16 :: int)"
    using of_char_int [of c] by linarith+
  then have "visible (hex_digit (of_char c div 16))" "visible (hex_digit (of_char c mod 16))"
    by (simp_all add: hex_digit_visible)
  with Cons show ?case by (simp add: hex_def)
qed (simp add: hex_def)

lemma visible_nonblank: "list_all visible s \<Longrightarrow> s \<noteq> [] \<Longrightarrow> TrimSpace s \<noteq> []"
  using visible_trimmed by fastforce

lemma short_id_visible: "list_all visible (shortPeerID (PeerIDFromPublicKey k))"
  using hex_visible [of "sha256 k"]
  by (auto simp: shortPeerID_def PeerIDFromPublicKey_def list_all_iff dest: in_set_takeD)

section \<open>Properties\<close>

text \<open>The peer id of an identity is 64 hexadecimal characters determined by the public key: it has no
  blanks, so it survives the trimming of every store and manager call unchanged, and an identity
  that passes validation carries the id of its own key and a private key that contains that key.\<close>

theorem valid_identity_peer_id:
  assumes "ValidateIdentity i = None"
  shows "length (i_PeerID i) = 64 \<and> TrimSpace (i_PeerID i) = i_PeerID i
    \<and> i_PeerID i = PeerIDFromPublicKey (i_PublicKey i) \<and> drop 32 (i_PrivateKey i) = i_PublicKey i"
  using assms visible_trimmed [OF hex_visible]
  by (auto simp: ValidateIdentity_iff PeerIDFromPublicKey_def)

text \<open>\<open>Generate\<close> succeeds whenever the random source does: the identity it builds passes its own
  validation, with the peer id of its key and the short id in its names.\<close>

theorem Generate_valid:
  assumes "length sd = 32" and "\<And>s. length (pub s) = 32" and "now \<noteq> 0"
  shows "\<exists>i. Generate pub (Some sd) now = Inr i \<and> ValidateIdentity i = None
    \<and> i_PeerID i = PeerIDFromPublicKey (pub sd)
    \<and> i_Username i = ''user-'' @ take 8 (i_PeerID i) \<and> i_DisplayName i = ''SKALL-'' @ take 8 (i_PeerID i)"
proof -
  let ?pid = "PeerIDFromPublicKey (pub sd)"
  have len: "length ?pid = 64" by (simp add: PeerIDFromPublicKey_def)
  then have "TrimSpace ?pid \<noteq> []"
    using visible_nonblank [OF hex_visible] by (metis PeerIDFromPublicKey_def list.size(3) zero_neq_numeral)
  moreover have "list_all visible (''user-'' @ shortPeerID ?pid)" "list_all visible (''SKALL-'' @ shortPeerID ?pid)"
    using short_id_visible [of "pub sd"] by (simp_all add: visible_def)
  then have "TrimSpace (''user-'' @ shortPeerID ?pid) \<noteq> []" "TrimSpace (''SKALL-'' @ shortPeerID ?pid) \<noteq> []"
    using visible_nonblank by blast+
  ultimately show ?thesis
    using assms len
    by (simp add: Generate_def Let_def ValidateIdentity_def IdentityVersion_def IsZero_def zero_time_def
        PublicKeySize_def PrivateKeySize_def ed25519_Public_def shortPeerID_def)
qed

definition demo_key :: "string \<Rightarrow> string" where
  "demo_key sd = replicate 32 (CHR ''k'')"

theorem Generate_valid_witness:
  "\<exists>i. Generate demo_key (Some (replicate 32 (CHR ''s''))) 5 = Inr i \<and> ValidateIdentity i = None"
  using Generate_valid [of "replicate 32 (CHR ''s'')" demo_key 5] by (auto simp: demo_key_def)

definition demo_identity :: Identity where
  "demo_identity = \<lparr>i_Version = 1, i_PeerID = PeerIDFromPublicKey (replicate 32 (CHR ''k'')),
     i_Username = ''ann'', i_DisplayName = ''Ann'', i_CreatedAt = 5, i_PublicKey = replicate 32 (CHR ''k''),
     i_PrivateKey = replicate 32 (CHR ''s'') @ replicate 32 (CHR ''k'')\<rparr>"

lemma demo_identity_valid: "ValidateIdentity demo_identity = None"
proof -
  have "TrimSpace ''ann'' = ''ann''" "TrimSpace ''Ann'' = ''Ann''" by code_simp+
  moreover have "TrimSpace (hex (sha256 (replicate 32 (CHR ''k'')))) \<noteq> []"
    by (intro visible_nonblank hex_visible) (metis length_hex length_sha256 list.size(3) mult_eq_0_iff zero_neq_numeral)
  ultimately show ?thesis
    by (simp add: demo_identity_def ValidateIdentity_iff PeerIDFromPublicKey_def)
qed

theorem valid_identity_peer_id_witness: "length (i_PeerID demo_identity) = 64"
  using valid_identity_peer_id [OF demo_identity_valid] by blast

end
