(* ===== verification/Storage.thy ===== *)
theory Storage
  imports Identity
begin

text \<open>
  The store of \<^verbatim>\<open>internal/storage/store.go\<close>. The SQLite database is the record \<open>Db\<close>: one
  association list per table, from the primary key to the other columns, which hold what the
  program binds to the statements (times are the TEXT of \<open>FormatNano\<close>). Each SQL statement of
  the source is the corresponding operation on these lists, with the constraints of the schema:
  primary keys, the foreign key of \<open>group_memberships\<close> with its cascade, \<open>ON CONFLICT\<close> updates
  and \<open>ORDER BY\<close> under the BINARY collation, which compares bytes.

  What is outside the program is an argument: \<open>drv k\<close> is the fault the driver reports for the
  \<open>k\<close>-th statement of the call (\<open>None\<close>: the statement runs; a statement that fails has no
  effect), and \<open>clk k\<close> is the \<open>k\<close>-th reading of the clock. The handle allows one connection
  (\<open>SetMaxOpenConns(1)\<close>), so statements of concurrent calls are serialised.
\<close>

type_synonym 'a tape = "nat \<Rightarrow> 'a"
type_synonym faults = "string option tape"

abbreviation no_faults :: faults where
  "no_faults \<equiv> \<lambda>_. None"

section \<open>Data\<close>

definition currentSchemaVersion :: int where "currentSchemaVersion = 1"

definition DirectionInbound :: string where "DirectionInbound = ''inbound''"
definition DirectionOutbound :: string where "DirectionOutbound = ''outbound''"
definition StatusPending :: string where "StatusPending = ''pending''"
definition StatusSent :: string where "StatusSent = ''sent''"
definition StatusReceived :: string where "StatusReceived = ''received''"
definition StatusDelivered :: string where "StatusDelivered = ''delivered''"
definition StatusFailed :: string where "StatusFailed = ''failed''"

text \<open>
  Errors. \<open>ErrDB op e\<close> is \<open>fmt.Errorf("%s: %w", op, err)\<close> of \<open>classifyDBError\<close>, with the text of
  the driver's error; \<open>ErrText\<close> is an \<open>errors.New\<close> of the method itself.
\<close>

datatype store_error =
    ErrDuplicateMessage
  | ErrCorruptedDatabase string string
  | ErrDB string string
  | ErrNoRows
  | ErrText string
  | ErrInvalidMessage proto_error
  | ErrInvalidIdentity identity_error
  | ErrSchemaIncomplete int int

record StorePeer =
  sp_PeerID :: string
  sp_DisplayName :: string
  sp_LastSeen :: time
  sp_CreatedAt :: time
  sp_UpdatedAt :: time

record StoreGroup =
  sg_GroupID :: string
  sg_Name :: string
  sg_CreatedAt :: time
  sg_UpdatedAt :: time

record GroupMembership =
  ms_GroupID :: string
  ms_PeerID :: string
  ms_JoinedAt :: time
  ms_Active :: bool
  ms_LastSeen :: time
  ms_UpdatedAt :: time

record StoredMessage =
  st_Message :: Message
  st_Direction :: string
  st_Status :: string
  st_CreatedAt :: time
  st_UpdatedAt :: time

text \<open>The rows of the tables, without their primary key.\<close>

record identity_row =
  ir_username :: string
  ir_display_name :: string
  ir_created_at :: string
  ir_public_key :: string
  ir_last_seen :: string
  ir_updated_at :: string

record peer_row =
  pr_display_name :: string
  pr_last_seen :: string
  pr_created_at :: string
  pr_updated_at :: string

record group_row =
  gr_name :: string
  gr_created_at :: string
  gr_updated_at :: string

record membership_row =
  mr_joined_at :: string
  mr_active :: int
  mr_last_seen :: string
  mr_updated_at :: string

record message_row =
  row_version :: int
  row_type :: string
  row_sender_id :: string
  row_recipient_id :: "string option"
  row_group_id :: "string option"
  row_timestamp :: string
  row_body :: string
  row_direction :: string
  row_status :: string
  row_created_at :: string
  row_updated_at :: string

record Db =
  db_schema :: "(int \<times> string \<times> string) list option"
  db_objects :: "string list"
  db_identities :: "(string \<times> identity_row) list"
  db_peers :: "(string \<times> peer_row) list"
  db_groups :: "(string \<times> group_row) list"
  db_memberships :: "((string \<times> string) \<times> membership_row) list"
  db_messages :: "(string \<times> message_row) list"

definition empty_db :: Db where
  "empty_db = \<lparr>db_schema = None, db_objects = [], db_identities = [], db_peers = [], db_groups = [],
     db_memberships = [], db_messages = []\<rparr>"

section \<open>Helpers\<close>

definition isCorruptionErr :: "string \<Rightarrow> bool" where
  "isCorruptionErr err =
     (let msg = ToLower err in
      Contains msg ''file is not a database'' \<or> Contains msg ''database disk image is malformed''
      \<or> Contains msg ''malformed'')"

definition isDuplicateErr :: "string \<Rightarrow> bool" where
  "isDuplicateErr err =
     (let msg = ToLower err in
      Contains msg ''unique constraint failed'' \<or> Contains msg ''constraint failed'')"

definition classifyDBError :: "string \<Rightarrow> string \<Rightarrow> store_error" where
  "classifyDBError op err = (if isCorruptionErr err then ErrCorruptedDatabase op err else ErrDB op err)"

definition nowUTC :: "time \<Rightarrow> string" where
  "nowUTC now = FormatNano now"

definition mustParseTime :: "string \<Rightarrow> time" where
  "mustParseTime raw =
     (if raw = [] then zero_time
      else case ParseRFC3339 raw of None \<Rightarrow> zero_time | Some t \<Rightarrow> t)"

definition nullIfEmpty :: "string \<Rightarrow> string option" where
  "nullIfEmpty v = (let t = TrimSpace v in if t = [] then None else Some t)"

text \<open>Running one statement: a fault of the driver, a missing table, or the effect.\<close>

definition on_table :: "string option \<Rightarrow> string \<Rightarrow> Db \<Rightarrow> string option" where
  "on_table fault table d =
     (case fault of
        Some e \<Rightarrow> Some e
      | None \<Rightarrow> if table \<in> set (db_objects d) then None else Some (''no such table: '' @ table))"

text \<open>\<open>INSERT ... ON CONFLICT(key) DO UPDATE SET\<close>: \<open>merge old new\<close> keeps the columns not set.\<close>

definition upsert :: "('r \<Rightarrow> 'r \<Rightarrow> 'r) \<Rightarrow> 'k \<Rightarrow> 'r \<Rightarrow> ('k \<times> 'r) list \<Rightarrow> ('k \<times> 'r) list" where
  "upsert merge k new t =
     (case map_of t k of
        None \<Rightarrow> AList.update k new t
      | Some old \<Rightarrow> AList.update k (merge old new) t)"

section \<open>Opening the database\<close>

datatype ddl = CreateTable string | CreateIndex string

fun ddl_object :: "ddl \<Rightarrow> string" where
  "ddl_object (CreateTable n) = n"
| "ddl_object (CreateIndex n) = n"

record migration =
  mg_version :: int
  mg_name :: string
  mg_upSQL :: "ddl list"

definition migrations :: "migration list" where
  "migrations =
     [\<lparr>mg_version = 1, mg_name = ''init_core_tables'',
       mg_upSQL = [CreateTable ''identities'', CreateTable ''peers'', CreateTable ''groups'',
         CreateTable ''group_memberships'', CreateTable ''messages'',
         CreateIndex ''idx_messages_ts'', CreateIndex ''idx_messages_direct'',
         CreateIndex ''idx_messages_group'']\<rparr>]"

definition quickCheck :: "string + string \<Rightarrow> store_error option" where
  "quickCheck qc =
     (case qc of
        Inl e \<Rightarrow> Some (classifyDBError ''quick check database'' e)
      | Inr result \<Rightarrow>
          if ToLower (TrimSpace result) = ''ok'' then None
          else Some (ErrCorruptedDatabase [] result))"

definition schema_version :: "Db \<Rightarrow> int" where
  "schema_version d =
     (case db_schema d of
        None \<Rightarrow> 0
      | Some [] \<Rightarrow> 0
      | Some rs \<Rightarrow> Max (set (map fst rs)))"

text \<open>\<open>CREATE ... IF NOT EXISTS\<close> inside the transaction; the \<open>k\<close>-th statement may fail.\<close>

fun run_ddl :: "faults \<Rightarrow> nat \<Rightarrow> ddl list \<Rightarrow> Db \<Rightarrow> (string + Db) \<times> nat" where
  "run_ddl drv k [] d = (Inr d, k)"
| "run_ddl drv k (c # cs) d =
     (case drv k of
        Some e \<Rightarrow> (Inl e, Suc k)
      | None \<Rightarrow> run_ddl drv (Suc k) cs (d\<lparr>db_objects := List.insert (ddl_object c) (db_objects d)\<rparr>))"

text \<open>
  One migration: begin, the statements, the record of the version, commit. The changes are made
  on a copy that becomes the database at the commit, so that a rollback is dropping the copy.
\<close>

definition apply_one :: "faults \<Rightarrow> time \<Rightarrow> nat \<Rightarrow> migration \<Rightarrow> Db \<Rightarrow> (store_error option \<times> Db) \<times> nat" where
  "apply_one drv now k m d =
     (case drv k of
        Some e \<Rightarrow> ((Some (classifyDBError ''begin migration'' e), d), Suc k)
      | None \<Rightarrow>
          (case run_ddl drv (Suc k) (mg_upSQL m) d of
             (Inl e, j) \<Rightarrow> ((Some (classifyDBError (''apply migration '' @ FormatInt (mg_version m)) e), d), j)
           | (Inr d1, j) \<Rightarrow>
               (case drv j of
                  Some e \<Rightarrow> ((Some (classifyDBError (''record migration '' @ FormatInt (mg_version m)) e), d), Suc j)
                | None \<Rightarrow>
                    let rs = (case db_schema d1 of None \<Rightarrow> [] | Some rs \<Rightarrow> rs);
                        d2 = d1\<lparr>db_schema := Some (rs @ [(mg_version m, mg_name m, nowUTC now)])\<rparr>
                    in (case drv (Suc j) of
                          Some e \<Rightarrow> ((Some (classifyDBError (''commit migration '' @ FormatInt (mg_version m)) e), d), j + 2)
                        | None \<Rightarrow> ((None, d2), j + 2)))))"

fun apply_all :: "faults \<Rightarrow> time \<Rightarrow> int \<Rightarrow> nat \<Rightarrow> migration list \<Rightarrow> Db \<Rightarrow> (store_error option \<times> Db) \<times> nat" where
  "apply_all drv now cur k [] d = ((None, d), k)"
| "apply_all drv now cur k (m # ms) d =
     (if mg_version m \<le> cur then apply_all drv now cur k ms d
      else case apply_one drv now k m d of
        ((Some e, d'), j) \<Rightarrow> ((Some e, d'), j)
      | ((None, d'), j) \<Rightarrow> apply_all drv now cur j ms d')"

definition applyMigrations :: "faults \<Rightarrow> time \<Rightarrow> Db \<Rightarrow> store_error option \<times> Db" where
  "applyMigrations drv now d =
     (case drv 0 of
        Some e \<Rightarrow> (Some (classifyDBError ''create migration table'' e), d)
      | None \<Rightarrow>
          let d0 = (if db_schema d = None then d\<lparr>db_schema := Some []\<rparr> else d)
          in case drv 1 of
               Some e \<Rightarrow> (Some (classifyDBError ''read schema version'' e), d0)
             | None \<Rightarrow>
                 (case apply_all drv now (schema_version d0) 2 migrations d0 of
                    ((Some e, d1), k) \<Rightarrow> (Some e, d1)
                  | ((None, d1), k) \<Rightarrow>
                      (case drv k of
                         Some e \<Rightarrow> (Some (classifyDBError ''read final schema version'' e), d1)
                       | None \<Rightarrow>
                           if schema_version d1 < currentSchemaVersion
                           then (Some (ErrSchemaIncomplete (schema_version d1) currentSchemaVersion), d1)
                           else (None, d1))))"

definition store_initialize :: "faults \<Rightarrow> string + string \<Rightarrow> time \<Rightarrow> Db \<Rightarrow> store_error option \<times> Db" where
  "store_initialize drv qc now d =
     (case drv 0 of
        Some e \<Rightarrow> (Some (classifyDBError ''enable foreign keys'' e), d)
      | None \<Rightarrow> (case drv 1 of
        Some e \<Rightarrow> (Some (classifyDBError ''enable WAL'' e), d)
      | None \<Rightarrow> (case drv 2 of
        Some e \<Rightarrow> (Some (classifyDBError ''set synchronous mode'' e), d)
      | None \<Rightarrow> (case quickCheck qc of
        Some e \<Rightarrow> (Some e, d)
      | None \<Rightarrow> applyMigrations (\<lambda>k. drv (k + 3)) now d))))"

record Store =
  s_path :: string
  s_closed :: bool

text \<open>
  \<open>mk\<close> is the error of \<open>os.MkdirAll\<close> on the directory of the path and \<open>op\<close> that of \<open>sql.Open\<close>;
  \<open>d\<close> is what the file holds.
\<close>

definition store_Open ::
  "(string \<Rightarrow> string option) \<Rightarrow> string option \<Rightarrow> faults \<Rightarrow> string + string \<Rightarrow> time \<Rightarrow> string \<Rightarrow> Db
     \<Rightarrow> (store_error + Store) \<times> Db" where
  "store_Open mk op drv qc now path0 d =
     (let path = TrimSpace path0 in
      if path = [] then (Inl (ErrText ''database path is required''), d)
      else case mk path of
        Some e \<Rightarrow> (Inl (ErrText (''create database directory: '' @ e)), d)
      | None \<Rightarrow> (case op of
        Some e \<Rightarrow> (Inl (ErrText (''open sqlite database: '' @ e)), d)
      | None \<Rightarrow> (case store_initialize drv qc now d of
        (Some e, d') \<Rightarrow> (Inl e, d')
      | (None, d') \<Rightarrow> (Inr \<lparr>s_path = path, s_closed = False\<rparr>, d'))))"

definition store_Close :: "string option \<Rightarrow> Store \<Rightarrow> string option \<times> Store" where
  "store_Close closeErr st = (if s_closed st then (None, st) else (closeErr, st\<lparr>s_closed := True\<rparr>))"

section \<open>Identities, peers and groups\<close>

definition UpsertIdentityMetadata :: "faults \<Rightarrow> time tape \<Rightarrow> Identity \<Rightarrow> Db \<Rightarrow> store_error option \<times> Db" where
  "UpsertIdentityMetadata drv clk loc d =
     (case ValidateIdentity loc of
        Some e \<Rightarrow> (Some (ErrInvalidIdentity e), d)
      | None \<Rightarrow>
          let now = nowUTC (clk 0); createdAt = FormatNano (i_CreatedAt loc)
          in case on_table (drv 0) ''identities'' d of
               Some e \<Rightarrow> (Some (classifyDBError ''upsert identity metadata'' e), d)
             | None \<Rightarrow>
                 (None, d\<lparr>db_identities := upsert
                    (\<lambda>old new. new\<lparr>ir_created_at := ir_created_at old\<rparr>)
                    (i_PeerID loc)
                    \<lparr>ir_username = i_Username loc, ir_display_name = i_DisplayName loc,
                     ir_created_at = createdAt, ir_public_key = i_PublicKey loc,
                     ir_last_seen = now, ir_updated_at = now\<rparr>
                    (db_identities d)\<rparr>))"

definition UpsertPeer :: "faults \<Rightarrow> time tape \<Rightarrow> string \<Rightarrow> string \<Rightarrow> time \<Rightarrow> Db \<Rightarrow> store_error option \<times> Db" where
  "UpsertPeer drv clk peerID0 displayName0 seenAt0 d =
     (let peerID = TrimSpace peerID0 in
      if peerID = [] then (Some (ErrText ''peer id is required''), d)
      else
        let displayName = (if TrimSpace displayName0 = [] then peerID else TrimSpace displayName0);
            seenAt = (if IsZero seenAt0 then clk 0 else seenAt0);
            now = nowUTC (clk 1)
        in case on_table (drv 0) ''peers'' d of
             Some e \<Rightarrow> (Some (classifyDBError ''upsert peer'' e), d)
           | None \<Rightarrow>
               (None, d\<lparr>db_peers := upsert
                  (\<lambda>old new. new\<lparr>pr_created_at := pr_created_at old\<rparr>)
                  peerID
                  \<lparr>pr_display_name = displayName, pr_last_seen = FormatNano seenAt,
                   pr_created_at = now, pr_updated_at = now\<rparr>
                  (db_peers d)\<rparr>))"

text \<open>A query reports a fault when it starts (\<open>drv 0\<close>) or while its rows are read (\<open>drv 1\<close>).\<close>

definition query :: "faults \<Rightarrow> string \<Rightarrow> string \<Rightarrow> Db \<Rightarrow> 'a list \<Rightarrow> store_error + 'a list" where
  "query drv table what d rows =
     (case on_table (drv 0) table d of
        Some e \<Rightarrow> Inl (classifyDBError (''query '' @ what) e)
      | None \<Rightarrow> (case drv 1 of
                   Some e \<Rightarrow> Inl (classifyDBError (''iterate '' @ what) e)
                 | None \<Rightarrow> Inr rows))"

definition scan_peer :: "string \<times> peer_row \<Rightarrow> StorePeer" where
  "scan_peer r = \<lparr>sp_PeerID = fst r, sp_DisplayName = pr_display_name (snd r),
     sp_LastSeen = mustParseTime (pr_last_seen (snd r)),
     sp_CreatedAt = mustParseTime (pr_created_at (snd r)),
     sp_UpdatedAt = mustParseTime (pr_updated_at (snd r))\<rparr>"

definition ListPeers :: "faults \<Rightarrow> Db \<Rightarrow> store_error + StorePeer list" where
  "ListPeers drv d = query drv ''peers'' ''peers'' d (map scan_peer (sort_key fst (db_peers d)))"

definition UpsertGroup :: "faults \<Rightarrow> time tape \<Rightarrow> string \<Rightarrow> string \<Rightarrow> time \<Rightarrow> Db \<Rightarrow> store_error option \<times> Db" where
  "UpsertGroup drv clk groupID0 name0 createdAt0 d =
     (let groupID = TrimSpace groupID0 in
      if groupID = [] then (Some (ErrText ''group id is required''), d)
      else let name = TrimSpace name0 in
      if name = [] then (Some (ErrText ''group name is required''), d)
      else
        let createdAt = (if IsZero createdAt0 then clk 0 else createdAt0);
            now = nowUTC (clk 1)
        in case on_table (drv 0) ''groups'' d of
             Some e \<Rightarrow> (Some (classifyDBError ''upsert group'' e), d)
           | None \<Rightarrow>
               (None, d\<lparr>db_groups := upsert
                  (\<lambda>old new. new\<lparr>gr_created_at := gr_created_at old\<rparr>)
                  groupID
                  \<lparr>gr_name = name, gr_created_at = FormatNano createdAt, gr_updated_at = now\<rparr>
                  (db_groups d)\<rparr>))"

text \<open>
  The membership row references its group: the engine refuses an insert whose group is missing.
  The row of the peer is written first and stays when the membership is refused.
\<close>

definition put_membership ::
  "string option \<Rightarrow> string \<Rightarrow> string \<Rightarrow> membership_row \<Rightarrow> Db \<Rightarrow> store_error option \<times> Db" where
  "put_membership fault groupID peerID row d =
     (case on_table fault ''group_memberships'' d of
        Some e \<Rightarrow> (Some (classifyDBError ''upsert group membership'' e), d)
      | None \<Rightarrow>
          if map_of (db_groups d) groupID = None
          then (Some (classifyDBError ''upsert group membership'' ''FOREIGN KEY constraint failed''), d)
          else (None, d\<lparr>db_memberships := upsert
                  (\<lambda>old new. new\<lparr>mr_joined_at := mr_joined_at old\<rparr>)
                  (groupID, peerID) row (db_memberships d)\<rparr>))"

definition SetGroupMembership ::
  "faults \<Rightarrow> time tape \<Rightarrow> string \<Rightarrow> string \<Rightarrow> time \<Rightarrow> bool \<Rightarrow> time \<Rightarrow> Db \<Rightarrow> store_error option \<times> Db" where
  "SetGroupMembership drv clk groupID0 peerID0 joinedAt0 active lastSeen0 d =
     (let groupID = TrimSpace groupID0; peerID = TrimSpace peerID0 in
      if groupID = [] then (Some (ErrText ''group id is required''), d)
      else if peerID = [] then (Some (ErrText ''peer id is required''), d)
      else
        let joinedAt = (if IsZero joinedAt0 then clk 0 else joinedAt0);
            lastSeen = (if IsZero lastSeen0 then joinedAt else lastSeen0);
            activeFlag = (if active then 1 else 0)
        in case UpsertPeer drv (\<lambda>k. clk (k + 1)) peerID peerID lastSeen d of
             (Some e, d') \<Rightarrow> (Some e, d')
           | (None, d') \<Rightarrow>
               put_membership (drv 1) groupID peerID
                 \<lparr>mr_joined_at = FormatNano joinedAt, mr_active = activeFlag,
                  mr_last_seen = FormatNano lastSeen, mr_updated_at = nowUTC (clk 3)\<rparr> d')"

definition scan_group :: "string \<times> group_row \<Rightarrow> StoreGroup" where
  "scan_group r = \<lparr>sg_GroupID = fst r, sg_Name = gr_name (snd r),
     sg_CreatedAt = mustParseTime (gr_created_at (snd r)),
     sg_UpdatedAt = mustParseTime (gr_updated_at (snd r))\<rparr>"

definition store_ListGroups :: "faults \<Rightarrow> Db \<Rightarrow> store_error + StoreGroup list" where
  "store_ListGroups drv d = query drv ''groups'' ''groups'' d (map scan_group (sort_key fst (db_groups d)))"

definition store_GetGroup :: "faults \<Rightarrow> string \<Rightarrow> Db \<Rightarrow> store_error + StoreGroup" where
  "store_GetGroup drv groupID0 d =
     (let groupID = TrimSpace groupID0 in
      if groupID = [] then Inl (ErrText ''group id is required'')
      else case on_table (drv 0) ''groups'' d of
        Some e \<Rightarrow> Inl (classifyDBError ''get group'' e)
      | None \<Rightarrow> (case map_of (db_groups d) groupID of
                   None \<Rightarrow> Inl ErrNoRows
                 | Some r \<Rightarrow> Inr (scan_group (groupID, r))))"

text \<open>\<open>DELETE FROM groups\<close> with the cascade to the memberships; \<open>drv 1\<close> is a fault of \<open>RowsAffected\<close>.\<close>

definition store_DeleteGroup :: "faults \<Rightarrow> string \<Rightarrow> Db \<Rightarrow> store_error option \<times> Db" where
  "store_DeleteGroup drv groupID0 d =
     (let groupID = TrimSpace groupID0 in
      if groupID = [] then (Some (ErrText ''group id is required''), d)
      else case on_table (drv 0) ''groups'' d of
        Some e \<Rightarrow> (Some (classifyDBError ''delete group'' e), d)
      | None \<Rightarrow>
          let d' = d\<lparr>db_groups := AList.delete groupID (db_groups d),
                     db_memberships := filter (\<lambda>r. fst (fst r) \<noteq> groupID) (db_memberships d)\<rparr>
          in case drv 1 of
               Some e \<Rightarrow> (Some (classifyDBError ''check delete group rows'' e), d')
             | None \<Rightarrow> if map_of (db_groups d) groupID = None then (Some ErrNoRows, d') else (None, d'))"

definition scan_membership :: "(string \<times> string) \<times> membership_row \<Rightarrow> GroupMembership" where
  "scan_membership r = \<lparr>ms_GroupID = fst (fst r), ms_PeerID = snd (fst r),
     ms_JoinedAt = mustParseTime (mr_joined_at (snd r)),
     ms_Active = (mr_active (snd r) = 1),
     ms_LastSeen = mustParseTime (mr_last_seen (snd r)),
     ms_UpdatedAt = mustParseTime (mr_updated_at (snd r))\<rparr>"

definition ListGroupMembers :: "faults \<Rightarrow> string \<Rightarrow> Db \<Rightarrow> store_error + GroupMembership list" where
  "ListGroupMembers drv groupID0 d =
     (let groupID = TrimSpace groupID0 in
      if groupID = [] then Inl (ErrText ''group id is required'')
      else query drv ''group_memberships'' ''group members'' d
             (map scan_membership
                (sort_key (\<lambda>r. snd (fst r)) (filter (\<lambda>r. fst (fst r) = groupID) (db_memberships d)))))"

section \<open>Messages\<close>

definition message_row_of :: "Message \<Rightarrow> string \<Rightarrow> string \<Rightarrow> string \<Rightarrow> message_row" where
  "message_row_of m direction status now =
     \<lparr>row_version = Version m, row_type = Type m, row_sender_id = SenderID m,
      row_recipient_id = nullIfEmpty (RecipientID m), row_group_id = nullIfEmpty (GroupID m),
      row_timestamp = FormatNano (Timestamp m), row_body = Body m,
      row_direction = direction, row_status = status, row_created_at = now, row_updated_at = now\<rparr>"

definition InsertMessage ::
  "faults \<Rightarrow> time tape \<Rightarrow> Message \<Rightarrow> string \<Rightarrow> string \<Rightarrow> Db \<Rightarrow> store_error option \<times> Db" where
  "InsertMessage drv clk m direction0 status0 d =
     (case Validate m of
        Some e \<Rightarrow> (Some (ErrInvalidMessage e), d)
      | None \<Rightarrow>
          let direction = (if direction0 = [] then DirectionInbound else direction0);
              status = (if status0 = [] then StatusPending else status0);
              row = message_row_of m direction status (nowUTC (clk 0));
              err = (case on_table (drv 0) ''messages'' d of
                       Some e \<Rightarrow> Some e
                     | None \<Rightarrow> if map_of (db_messages d) (ID m) = None then None
                               else Some ''UNIQUE constraint failed: messages.message_id'')
          in case err of
               Some e \<Rightarrow>
                 (Some (if isDuplicateErr e then ErrDuplicateMessage else classifyDBError ''insert message'' e), d)
             | None \<Rightarrow> (None, d\<lparr>db_messages := AList.update (ID m) row (db_messages d)\<rparr>))"

definition UpdateMessageStatus :: "faults \<Rightarrow> time tape \<Rightarrow> string \<Rightarrow> string \<Rightarrow> Db \<Rightarrow> store_error option \<times> Db" where
  "UpdateMessageStatus drv clk messageID0 status d =
     (let messageID = TrimSpace messageID0 in
      if messageID = [] then (Some (ErrText ''message id is required''), d)
      else if status = [] then (Some (ErrText ''message status is required''), d)
      else case on_table (drv 0) ''messages'' d of
        Some e \<Rightarrow> (Some (classifyDBError ''update message status'' e), d)
      | None \<Rightarrow>
          let d' = (case map_of (db_messages d) messageID of
                      None \<Rightarrow> d
                    | Some r \<Rightarrow> d\<lparr>db_messages := AList.update messageID
                        (r\<lparr>row_status := status, row_updated_at := nowUTC (clk 0)\<rparr>) (db_messages d)\<rparr>)
          in case drv 1 of
               Some e \<Rightarrow> (Some (classifyDBError ''check status update rows'' e), d')
             | None \<Rightarrow> if map_of (db_messages d) messageID = None then (Some ErrNoRows, d') else (None, d'))"

definition null_string :: "string option \<Rightarrow> string" where
  "null_string v = (case v of None \<Rightarrow> [] | Some s \<Rightarrow> s)"

definition scanStoredMessage :: "string \<times> message_row \<Rightarrow> StoredMessage" where
  "scanStoredMessage r =
     \<lparr>st_Message =
        \<lparr>Version = row_version (snd r), ID = fst r, Type = row_type (snd r), SenderID = row_sender_id (snd r),
         RecipientID = null_string (row_recipient_id (snd r)), GroupID = null_string (row_group_id (snd r)),
         Timestamp = mustParseTime (row_timestamp (snd r)), Body = row_body (snd r)\<rparr>,
      st_Direction = row_direction (snd r), st_Status = row_status (snd r),
      st_CreatedAt = mustParseTime (row_created_at (snd r)),
      st_UpdatedAt = mustParseTime (row_updated_at (snd r))\<rparr>"

text \<open>No row makes \<open>Scan\<close> return \<open>sql.ErrNoRows\<close>, which \<open>scanStoredMessage\<close> wraps.\<close>

definition GetMessage :: "faults \<Rightarrow> string \<Rightarrow> Db \<Rightarrow> store_error + StoredMessage" where
  "GetMessage drv messageID0 d =
     (let messageID = TrimSpace messageID0 in
      if messageID = [] then Inl (ErrText ''message id is required'')
      else case on_table (drv 0) ''messages'' d of
        Some e \<Rightarrow> Inl (classifyDBError ''scan message'' e)
      | None \<Rightarrow> (case map_of (db_messages d) messageID of
                   None \<Rightarrow> Inl (classifyDBError ''scan message'' ''sql: no rows in result set'')
                 | Some r \<Rightarrow> Inr (scanStoredMessage (messageID, r))))"

definition row_order :: "string \<times> message_row \<Rightarrow> string \<times> string" where
  "row_order r = (row_timestamp (snd r), fst r)"

definition page :: "int \<Rightarrow> (string \<times> message_row) list \<Rightarrow> StoredMessage list" where
  "page limit rows = map scanStoredMessage (take (nat limit) (sort_key row_order rows))"

definition direct_between :: "string \<Rightarrow> string \<Rightarrow> string \<times> message_row \<Rightarrow> bool" where
  "direct_between a b r \<longleftrightarrow> row_group_id (snd r) = None
     \<and> (row_sender_id (snd r) = a \<and> row_recipient_id (snd r) = Some b
        \<or> row_sender_id (snd r) = b \<and> row_recipient_id (snd r) = Some a)"

definition ListDirectConversation :: "faults \<Rightarrow> string \<Rightarrow> string \<Rightarrow> int \<Rightarrow> Db \<Rightarrow> store_error + StoredMessage list" where
  "ListDirectConversation drv localPeerID0 remotePeerID0 limit0 d =
     (let localPeerID = TrimSpace localPeerID0; remotePeerID = TrimSpace remotePeerID0 in
      if localPeerID = [] \<or> remotePeerID = []
      then Inl (ErrText ''both local and remote peer ids are required'')
      else
        let limit = (if limit0 \<le> 0 then 100 else limit0)
        in query drv ''messages'' ''direct conversation'' d
             (page limit (filter (direct_between localPeerID remotePeerID) (db_messages d))))"

definition ListGroupConversation :: "faults \<Rightarrow> string \<Rightarrow> int \<Rightarrow> Db \<Rightarrow> store_error + StoredMessage list" where
  "ListGroupConversation drv groupID0 limit0 d =
     (let groupID = TrimSpace groupID0 in
      if groupID = [] then Inl (ErrText ''group id is required'')
      else
        let limit = (if limit0 \<le> 0 then 100 else limit0)
        in query drv ''messages'' ''group conversation'' d
             (page limit (filter (\<lambda>r. row_group_id (snd r) = Some groupID) (db_messages d))))"

end
