(* ===== verification/Store_Laws.thy ===== *)
theory Store_Laws
  imports Storage
begin

text \<open>
  What the store guarantees: the invariant of the database under every sequence of calls,
  driver faults included, the migration protocol, and the round trips of messages, groups and
  memberships through their TEXT columns.
\<close>

lemmas store_op_defs = UpsertIdentityMetadata_def UpsertPeer_def UpsertGroup_def SetGroupMembership_def
  put_membership_def store_DeleteGroup_def InsertMessage_def UpdateMessageStatus_def

section \<open>Invariant\<close>

definition core_tables :: "string list" where
  "core_tables = [''identities'', ''peers'', ''groups'', ''group_memberships'', ''messages'']"

definition key_ok :: "string \<Rightarrow> bool" where
  "key_ok k \<longleftrightarrow> trimmed k \<and> k \<noteq> []"

definition row_ok :: "string \<Rightarrow> message_row \<Rightarrow> bool" where
  "row_ok k r \<longleftrightarrow> TrimSpace k \<noteq> [] \<and> row_version r = 1 \<and> TrimSpace (row_sender_id r) \<noteq> []
     \<and> TrimSpace (row_body r) \<noteq> [] \<and> row_direction r \<noteq> [] \<and> row_status r \<noteq> []
     \<and> pred_option key_ok (row_recipient_id r) \<and> pred_option key_ok (row_group_id r)"

definition db_inv :: "Db \<Rightarrow> bool" where
  "db_inv d \<longleftrightarrow> distinct (map fst (db_identities d)) \<and> distinct (map fst (db_peers d))
     \<and> distinct (map fst (db_groups d)) \<and> distinct (map fst (db_memberships d))
     \<and> distinct (map fst (db_messages d))
     \<and> (\<forall>k r. map_of (db_peers d) k = Some r \<longrightarrow> key_ok k)
     \<and> (\<forall>k r. map_of (db_groups d) k = Some r \<longrightarrow> key_ok k \<and> key_ok (gr_name r))
     \<and> (\<forall>g p r. map_of (db_memberships d) (g, p) = Some r \<longrightarrow>
          map_of (db_groups d) g \<noteq> None \<and> map_of (db_peers d) p \<noteq> None \<and> mr_active r \<in> {0, 1})
     \<and> (\<forall>k r. map_of (db_messages d) k = Some r \<longrightarrow> row_ok k r)
     \<and> (1 \<le> schema_version d \<longrightarrow> set core_tables \<subseteq> set (db_objects d))"

definition db_ready :: "Db \<Rightarrow> bool" where
  "db_ready d \<longleftrightarrow> db_inv d \<and> 1 \<le> schema_version d"

lemma db_inv_membershipD:
  assumes "db_inv d" "map_of (db_memberships d) (g, p) = Some r"
  shows "map_of (db_groups d) g \<noteq> None" "map_of (db_peers d) p \<noteq> None" "mr_active r = 0 \<or> mr_active r = 1" "key_ok p"
proof -
  have "\<forall>g p r. map_of (db_memberships d) (g, p) = Some r \<longrightarrow>
          map_of (db_groups d) g \<noteq> None \<and> map_of (db_peers d) p \<noteq> None \<and> mr_active r \<in> {0, 1}"
    using assms(1) unfolding db_inv_def by (elim conjE)
  with assms(2) show "map_of (db_groups d) g \<noteq> None" "mr_active r = 0 \<or> mr_active r = 1"
    and p: "map_of (db_peers d) p \<noteq> None" by auto
  from p assms(1) show "key_ok p" unfolding db_inv_def by blast
qed

lemma db_ready_tables:
  assumes "db_ready d"
  shows "''peers'' \<in> set (db_objects d)" "''groups'' \<in> set (db_objects d)"
    "''group_memberships'' \<in> set (db_objects d)" "''messages'' \<in> set (db_objects d)"
    "''identities'' \<in> set (db_objects d)"
  using assms by (auto simp: db_ready_def db_inv_def core_tables_def)

lemma on_table_ready:
  assumes "db_ready d"
  shows "on_table None ''peers'' d = None" "on_table None ''groups'' d = None"
    "on_table None ''group_memberships'' d = None" "on_table None ''messages'' d = None"
    "on_table None ''identities'' d = None"
  using db_ready_tables [OF assms] by (simp_all add: on_table_def)

lemma distinct_upsert: "distinct (map fst xs) \<Longrightarrow> distinct (map fst (upsert mrg k new xs))"
  by (simp add: upsert_def AList.distinct_update split: option.split)

lemma map_of_upsert [skall_maps]:
  "map_of (upsert mrg k new xs) j =
     (if j = k then Some (case map_of xs k of None \<Rightarrow> new | Some old \<Rightarrow> mrg old new) else map_of xs j)"
  by (simp add: upsert_def skall_maps split: option.split)

lemma schema_version_cong [simp]:
  "schema_version (d\<lparr>db_identities := a\<rparr>) = schema_version d"
  "schema_version (d\<lparr>db_peers := b\<rparr>) = schema_version d"
  "schema_version (d\<lparr>db_groups := c\<rparr>) = schema_version d"
  "schema_version (d\<lparr>db_memberships := e\<rparr>) = schema_version d"
  "schema_version (d\<lparr>db_messages := f\<rparr>) = schema_version d"
  "schema_version (d\<lparr>db_objects := g\<rparr>) = schema_version d"
  by (simp_all add: schema_version_def)

lemma key_ok_TrimSpace: "TrimSpace k \<noteq> [] \<Longrightarrow> key_ok (TrimSpace k)"
  by (simp add: key_ok_def)

lemma nullIfEmpty_ok: "pred_option key_ok (nullIfEmpty v)"
  by (simp add: nullIfEmpty_def Let_def key_ok_def)

lemma row_ok_message:
  assumes "Validate m = None" "dr \<noteq> []" "st \<noteq> []"
  shows "row_ok (ID m) (message_row_of m dr st now)"
  using assms by (simp add: Validate_iff well_formed_def row_ok_def message_row_of_def nullIfEmpty_ok)

text \<open>Preservation, operation by operation; the faults and the clock are arbitrary.\<close>

lemma UpsertIdentityMetadata_inv: "db_inv d \<Longrightarrow> db_inv (snd (UpsertIdentityMetadata drv clk i d))"
  by (simp add: UpsertIdentityMetadata_def Let_def db_inv_def distinct_upsert split: option.split)

lemma put_peer_inv: "db_inv d \<Longrightarrow> key_ok p \<Longrightarrow> db_inv (d\<lparr>db_peers := upsert mrg p r (db_peers d)\<rparr>)"
  unfolding db_inv_def by (auto simp: distinct_upsert skall_maps split: if_splits)

lemma UpsertPeer_inv: "db_inv d \<Longrightarrow> db_inv (snd (UpsertPeer drv clk p n t d))"
  by (simp add: UpsertPeer_def Let_def put_peer_inv key_ok_TrimSpace split: option.split)

lemma put_group_inv:
  "db_inv d \<Longrightarrow> key_ok p \<Longrightarrow> key_ok (gr_name r) \<Longrightarrow> (\<And>old. gr_name (mrg old r) = gr_name r)
     \<Longrightarrow> db_inv (d\<lparr>db_groups := upsert mrg p r (db_groups d)\<rparr>)"
  unfolding db_inv_def by (auto simp: distinct_upsert skall_maps split: if_splits option.splits)

lemma UpsertGroup_inv: "db_inv d \<Longrightarrow> db_inv (snd (UpsertGroup drv clk g n t d))"
  by (simp add: UpsertGroup_def Let_def put_group_inv key_ok_TrimSpace split: option.split)

lemma put_membership_inv:
  assumes "db_inv d" "map_of (db_peers d) p \<noteq> None" "mr_active r \<in> {0, 1}"
  shows "db_inv (snd (put_membership f g p r d))"
  using assms unfolding db_inv_def
  by (auto simp: put_membership_def distinct_upsert skall_maps split: if_splits option.splits)

lemma UpsertPeer_present:
  assumes "UpsertPeer drv clk p n t d = (None, d')"
  shows "map_of (db_peers d') (TrimSpace p) \<noteq> None"
  using assms by (auto simp: UpsertPeer_def Let_def skall_maps split: if_splits option.splits)

lemma SetGroupMembership_inv:
  assumes "db_inv d"
  shows "db_inv (snd (SetGroupMembership drv clk g p j a l d))"
proof -
  have "db_inv d'" if "UpsertPeer drv clk' p' n' t d = (e, d')" for clk' p' n' t e d'
    using UpsertPeer_inv [OF assms, of drv clk' p' n' t] that by simp
  moreover have "map_of (db_peers d') (TrimSpace p) \<noteq> None"
    if "UpsertPeer drv clk' (TrimSpace p) n' t d = (None, d')" for clk' n' t d'
    using UpsertPeer_present [OF that] by simp
  ultimately show ?thesis
    using assms
    by (auto simp: SetGroupMembership_def Let_def split: prod.split option.split intro!: put_membership_inv)
qed

lemma map_of_filter_key: "map_of (filter (\<lambda>r. P (fst r)) xs) k = (if P k then map_of xs k else None)"
  by (induction xs) auto

lemma delete_group_inv:
  assumes "db_inv d"
  shows "db_inv (d\<lparr>db_groups := AList.delete k (db_groups d),
      db_memberships := filter (\<lambda>r. fst (fst r) \<noteq> k) (db_memberships d)\<rparr>)"
  using assms map_of_filter_key [of "\<lambda>x. fst x \<noteq> k" "db_memberships d"] unfolding db_inv_def
  by (auto simp: skall_maps AList.distinct_delete distinct_map_filter split: if_splits)

lemma store_DeleteGroup_inv: "db_inv d \<Longrightarrow> db_inv (snd (store_DeleteGroup drv g d))"
  by (simp add: store_DeleteGroup_def Let_def delete_group_inv split: option.split)

lemma put_message_inv:
  "db_inv d \<Longrightarrow> row_ok k r \<Longrightarrow> db_inv (d\<lparr>db_messages := AList.update k r (db_messages d)\<rparr>)"
  unfolding db_inv_def by (auto simp: AList.distinct_update skall_maps split: if_splits)

lemma InsertMessage_inv: "db_inv d \<Longrightarrow> db_inv (snd (InsertMessage drv clk m dr st d))"
  by (auto simp: InsertMessage_def Let_def DirectionInbound_def StatusPending_def row_ok_message
      intro!: put_message_inv split: option.split)

lemma UpdateMessageStatus_inv:
  assumes "db_inv d"
  shows "db_inv (snd (UpdateMessageStatus drv clk k st d))"
proof -
  have "row_ok i r" if "map_of (db_messages d) i = Some r" for i r
    using assms that by (auto simp: db_inv_def)
  then have "st \<noteq> [] \<Longrightarrow> map_of (db_messages d) i = Some r \<Longrightarrow> row_ok i (r\<lparr>row_status := st, row_updated_at := u\<rparr>)"
    for i r u by (simp add: row_ok_def)
  then show ?thesis
    using assms by (simp add: UpdateMessageStatus_def Let_def put_message_inv split: option.split)
qed

section \<open>Migrations\<close>

lemma schema_version_snoc:
  "schema_version (d\<lparr>db_schema := Some (rs @ [(v, n, t)])\<rparr>) \<ge> v"
proof -
  have "v \<in> set (map fst (rs @ [(v, n, t)]))" by simp
  then have "v \<le> Max (set (map fst (rs @ [(v, n, t)])))" by (intro Max_ge) simp_all
  then show ?thesis by (cases rs) (simp_all add: schema_version_def)
qed

lemma run_ddl_ok:
  "run_ddl drv k cs d = (Inr d', j) \<Longrightarrow>
     d' = d\<lparr>db_objects := db_objects d'\<rparr> \<and> set (db_objects d') = set (db_objects d) \<union> ddl_object ` set cs"
proof (induction cs arbitrary: k d)
  case (Cons c cs)
  from Cons.prems have r: "run_ddl drv (Suc k) cs (d\<lparr>db_objects := List.insert (ddl_object c) (db_objects d)\<rparr>) = (Inr d', j)"
    by (simp split: option.splits)
  from Cons.IH [OF this] show ?case by auto
qed simp

text \<open>
  A migration is all or nothing: if it reports an error the database is as before, and if it
  does not, all objects exist and the version is recorded.
\<close>

lemma apply_one_atomic: "apply_one drv now k m d = ((Some e, d'), j) \<Longrightarrow> d' = d"
  by (auto simp: apply_one_def Let_def split: option.splits sum.splits prod.splits)

lemma apply_one_ok:
  assumes "apply_one drv now k m d = ((None, d'), j)"
  shows "\<exists>obs rs. d' = d\<lparr>db_objects := obs, db_schema := Some (rs @ [(mg_version m, mg_name m, nowUTC now)])\<rparr>
    \<and> set obs = set (db_objects d) \<union> ddl_object ` set (mg_upSQL m)"
proof -
  from assms obtain d1 i where r: "run_ddl drv (Suc k) (mg_upSQL m) d = (Inr d1, i)"
    and d': "d' = d1\<lparr>db_schema := Some ((case db_schema d1 of None \<Rightarrow> [] | Some rs \<Rightarrow> rs)
        @ [(mg_version m, mg_name m, nowUTC now)])\<rparr>"
    by (auto simp: apply_one_def Let_def split: option.splits sum.splits prod.splits)
  from run_ddl_ok [OF r] obtain obs where "d1 = d\<lparr>db_objects := obs\<rparr>"
    "set obs = set (db_objects d) \<union> ddl_object ` set (mg_upSQL m)" by metis
  with d' show ?thesis by fastforce
qed

lemma core_in_migrations: "ddl_object ` set (mg_upSQL (hd migrations)) \<supseteq> set core_tables"
  by (auto simp: migrations_def core_tables_def)

lemma migrations_single: "migrations = [hd migrations]" "mg_version (hd migrations) = 1"
  by (simp_all add: migrations_def)

lemma apply_all_single:
  "apply_all drv now cur k migrations d =
     (if 1 \<le> cur then ((None, d), k)
      else case apply_one drv now k (hd migrations) d of
        ((Some e, d'), j) \<Rightarrow> ((Some e, d'), j)
      | ((None, d'), j) \<Rightarrow> ((None, d'), j))"
  by (subst migrations_single(1)) (simp add: migrations_single(2) split: option.split prod.split)

definition with_schema :: "Db \<Rightarrow> Db" where
  "with_schema d = (if db_schema d = None then d\<lparr>db_schema := Some []\<rparr> else d)"

lemma with_schema_version [simp]: "schema_version (with_schema d) = schema_version d"
  by (simp add: with_schema_def schema_version_def)

lemma applyMigrations_cases:
  assumes "applyMigrations drv now d = (r, d')"
  shows "r \<noteq> None \<and> (d' = d \<or> d' = with_schema d)
    \<or> 1 \<le> schema_version d \<and> d' = with_schema d
    \<or> schema_version d < 1 \<and> (\<exists>k j. apply_one drv now k (hd migrations) (with_schema d) = ((None, d'), j))"
  using assms
  by (auto simp: applyMigrations_def Let_def apply_all_single with_schema_def [symmetric] currentSchemaVersion_def
      dest: apply_one_atomic split: option.splits prod.splits if_splits)

lemma db_inv_schema:
  "db_inv d \<Longrightarrow> set (db_objects d) \<union> set core_tables \<subseteq> set obs \<Longrightarrow> db_inv (d\<lparr>db_objects := obs, db_schema := sch\<rparr>)"
  by (auto simp: db_inv_def)

lemma db_inv_with_schema: "db_inv d \<Longrightarrow> db_inv (with_schema d)"
  unfolding db_inv_def with_schema_def by (auto simp: schema_version_def)

lemma applyMigrations_inv:
  assumes "db_inv d" "applyMigrations drv now d = (r, d')"
  shows "db_inv d' \<and> (r = None \<longrightarrow> db_ready d')"
  using applyMigrations_cases [OF assms(2)]
proof (elim disjE conjE exE)
  fix k j
  assume "apply_one drv now k (hd migrations) (with_schema d) = ((None, d'), j)"
  from apply_one_ok [OF this] obtain obs rs where
    d': "d' = (with_schema d)\<lparr>db_objects := obs, db_schema := Some (rs @ [(1, mg_name (hd migrations), nowUTC now)])\<rparr>"
    and "set obs = set (db_objects (with_schema d)) \<union> ddl_object ` set (mg_upSQL (hd migrations))"
    by (auto simp: migrations_single(2))
  then have "db_inv d'"
    using core_in_migrations by (auto intro!: db_inv_schema db_inv_with_schema assms(1))
  moreover have "1 \<le> schema_version d'" unfolding d' by (rule schema_version_snoc)
  ultimately show ?thesis by (simp add: db_ready_def)
qed (use assms(1) db_inv_with_schema in \<open>auto simp: db_ready_def\<close>)

lemma store_Open_cases:
  assumes "store_Open mk op drv qc now path d = (r, d')"
  shows "(\<exists>e. r = Inl e) \<and> d' = d
    \<or> quickCheck qc = None \<and> (\<exists>drv' m. applyMigrations drv' now d = (m, d')
        \<and> (case m of Some e \<Rightarrow> r = Inl e | None \<Rightarrow> r = Inr \<lparr>s_path = TrimSpace path, s_closed = False\<rparr>))"
  using assms
  by (auto simp: store_Open_def store_initialize_def Let_def split: option.splits prod.splits if_splits)

lemma store_Open_inv:
  assumes "db_inv d" "store_Open mk op drv qc now path d = (r, d')"
  shows "db_inv d' \<and> (\<forall>st. r = Inr st \<longrightarrow> db_ready d')"
  using store_Open_cases [OF assms(2)] assms(1) applyMigrations_inv [OF assms(1)]
  by (auto split: option.splits)

section \<open>Reachable databases\<close>

text \<open>
  A step is a call of any method, with any driver faults and clock, or an attempt to open the
  database, successful or not.
\<close>

inductive store_step :: "Db \<Rightarrow> Db \<Rightarrow> bool" where
  step_open: "store_step d (snd (store_Open mk op drv qc now path d))"
| step_identity: "store_step d (snd (UpsertIdentityMetadata drv clk i d))"
| step_peer: "store_step d (snd (UpsertPeer drv clk p n t d))"
| step_group: "store_step d (snd (UpsertGroup drv clk g n t d))"
| step_membership: "store_step d (snd (SetGroupMembership drv clk g p j a l d))"
| step_delete: "store_step d (snd (store_DeleteGroup drv g d))"
| step_insert: "store_step d (snd (InsertMessage drv clk m dr st d))"
| step_status: "store_step d (snd (UpdateMessageStatus drv clk k st d))"

abbreviation db_reachable :: "Db \<Rightarrow> bool" where
  "db_reachable \<equiv> reach (\<lambda>d. d = empty_db) store_step"

lemma empty_db_inv: "db_inv empty_db"
  by (simp add: db_inv_def empty_db_def schema_version_def)

lemma store_step_inv: "store_step d d' \<Longrightarrow> db_inv d \<Longrightarrow> db_inv d'"
proof (induction rule: store_step.induct)
  case (step_open d mk op drv qc now path)
  then show ?case using store_Open_inv [OF step_open] by (metis prod.collapse)
qed (simp_all add: UpsertIdentityMetadata_inv UpsertPeer_inv UpsertGroup_inv SetGroupMembership_inv
    store_DeleteGroup_inv InsertMessage_inv UpdateMessageStatus_inv)

interpretation db: invariant_system "\<lambda>d. d = empty_db" store_step db_inv
  by unfold_locales (auto simp: empty_db_inv intro: store_step_inv)

section \<open>Round trips\<close>

lemma mustParse_FormatNano [simp]:
  assumes "printable_time t"
  shows "mustParseTime (FormatNano t) = t"
proof -
  have "FormatNano t \<noteq> []"
    using Parse_FormatNano [OF assms] by (auto simp: ParseRFC3339_def take_uint_def)
  then show ?thesis
    using Parse_FormatNano [OF assms] by (simp add: mustParseTime_def)
qed

lemma null_string_nullIfEmpty [simp]: "null_string (nullIfEmpty v) = TrimSpace v"
  by (simp add: nullIfEmpty_def null_string_def Let_def)

lemma duplicate_text: "isDuplicateErr ''UNIQUE constraint failed: messages.message_id''"
  by code_simp

lemma InsertMessage_ready:
  assumes "db_ready d" "Validate m = None"
  shows "InsertMessage no_faults clk m dr st d =
    (if map_of (db_messages d) (ID m) \<noteq> None then (Some ErrDuplicateMessage, d)
     else (None, d\<lparr>db_messages := AList.update (ID m)
       (message_row_of m (if dr = [] then DirectionInbound else dr) (if st = [] then StatusPending else st)
         (nowUTC (clk 0))) (db_messages d)\<rparr>))"
  using assms on_table_ready(4) [OF assms(1)] duplicate_text
  by (simp add: InsertMessage_def Let_def)

lemma InsertMessage_keeps_ready: "db_ready d \<Longrightarrow> db_ready (snd (InsertMessage drv clk m dr st d))"
  using InsertMessage_inv [of d drv clk m dr st]
  by (auto simp: db_ready_def InsertMessage_def Let_def split: option.splits)

text \<open>A database as a first start leaves it.\<close>

definition fresh_db :: Db where
  "fresh_db = snd (store_Open (\<lambda>_. None) None no_faults (Inr ''ok'') 5 ''skall.db'' empty_db)"

lemma ok_text: "quickCheck (Inr ''ok'') = None"
  by code_simp

lemma run_ddl_clean:
  "run_ddl no_faults k cs d =
     (Inr (fold (\<lambda>c e. e\<lparr>db_objects := List.insert (ddl_object c) (db_objects e)\<rparr>) cs d), k + length cs)"
  by (induction cs arbitrary: k d) auto

lemma store_Open_clean:
  assumes "TrimSpace path \<noteq> []"
  shows "store_Open (\<lambda>_. None) None no_faults (Inr ''ok'') now path d =
    (Inr \<lparr>s_path = TrimSpace path, s_closed = False\<rparr>, snd (applyMigrations no_faults now d))
     \<and> fst (applyMigrations no_faults now d) = None"
proof -
  have one: "\<exists>e' j. apply_one no_faults now k m e = ((None, e'), j)" for k m e
    by (simp add: apply_one_def run_ddl_clean Let_def)
  have "fst (applyMigrations no_faults now d) = None"
  proof (cases "1 \<le> schema_version (with_schema d)")
    case True
    then show ?thesis
      by (simp add: applyMigrations_def Let_def apply_all_single with_schema_def [symmetric] currentSchemaVersion_def)
  next
    case False
    obtain e' j where e': "apply_one no_faults now 2 (hd migrations) (with_schema d) = ((None, e'), j)"
      using one by blast
    from apply_one_ok [OF this] have "1 \<le> schema_version e'"
      using schema_version_snoc [of 1] by (auto simp: migrations_single(2))
    with False e' show ?thesis
      by (simp add: applyMigrations_def Let_def apply_all_single with_schema_def [symmetric] currentSchemaVersion_def)
  qed
  then show ?thesis
    using assms by (simp add: store_Open_def store_initialize_def Let_def ok_text prod.case_eq_if)
qed

lemma applyMigrations_rows:
  assumes "applyMigrations drv now d = (None, d')"
  shows "db_identities d' = db_identities d \<and> db_peers d' = db_peers d \<and> db_groups d' = db_groups d
      \<and> db_memberships d' = db_memberships d \<and> db_messages d' = db_messages d"
  using applyMigrations_cases [OF assms] by (auto simp: with_schema_def dest!: apply_one_ok)

lemma path_trim: "TrimSpace ''skall.db'' = ''skall.db''"
  by code_simp

lemma empty_db_reachable: "db_reachable empty_db"
  by (rule reach_init) simp

lemma fresh_db_reachable: "db_reachable fresh_db"
  unfolding fresh_db_def by (rule reach_step, rule reach_init, rule refl, rule step_open)

lemma fresh_db_ready: "db_ready fresh_db"
proof -
  have "store_Open (\<lambda>_. None) None no_faults (Inr ''ok'') 5 ''skall.db'' empty_db = (Inr \<lparr>s_path = ''skall.db'', s_closed = False\<rparr>, fresh_db)"
    using store_Open_clean [of "''skall.db''" 5 empty_db] by (simp add: path_trim fresh_db_def)
  from store_Open_inv [OF empty_db_inv this] show ?thesis by simp
qed

section \<open>Properties\<close>



text \<open>C24: Opening a database of any earlier state without faults succeeds, makes it ready without touching
  a row of the user tables, and opening it again changes nothing at all.\<close>

theorem Open_prepares:
  assumes "db_reachable d" "TrimSpace path \<noteq> []"
  shows "\<exists>d'. store_Open (\<lambda>_. None) None no_faults (Inr ''ok'') now path d =
        (Inr \<lparr>s_path = TrimSpace path, s_closed = False\<rparr>, d')
    \<and> db_ready d'
    \<and> db_identities d' = db_identities d \<and> db_peers d' = db_peers d \<and> db_groups d' = db_groups d
    \<and> db_memberships d' = db_memberships d \<and> db_messages d' = db_messages d
    \<and> snd (store_Open (\<lambda>_. None) None no_faults (Inr ''ok'') now' path d') = d'"
proof -
  let ?d = "snd (applyMigrations no_faults now d)"
  have inv: "db_inv d" by (rule db.reach_inv [OF assms(1)])
  have o: "store_Open (\<lambda>_. None) None no_faults (Inr ''ok'') now path d =
      (Inr \<lparr>s_path = TrimSpace path, s_closed = False\<rparr>, ?d)" and none: "fst (applyMigrations no_faults now d) = None"
    using store_Open_clean [OF assms(2)] by auto
  have am: "applyMigrations no_faults now d = (None, ?d)" using none by (metis prod.collapse)
  have ready: "db_ready ?d" using store_Open_inv [OF inv o] by simp
  note rows = applyMigrations_rows [OF am]
  have sch: "with_schema ?d = ?d"
    using ready by (auto simp: with_schema_def db_ready_def schema_version_def)
  have "snd (applyMigrations no_faults now' ?d) = ?d"
    using applyMigrations_cases [of no_faults now' ?d None] store_Open_clean [OF assms(2), of now' ?d] ready sch
    by (metis db_ready_def linorder_not_le prod.collapse)
  then have "snd (store_Open (\<lambda>_. None) None no_faults (Inr ''ok'') now' path ?d) = ?d"
    using store_Open_clean [OF assms(2), of now' ?d] by simp
  with o ready rows show ?thesis by blast
qed

theorem Open_prepares_witness:
  "snd (store_Open (\<lambda>_. None) None no_faults (Inr ''ok'') 9 ''skall.db'' fresh_db) = fresh_db"
  using Open_prepares [OF empty_db_reachable, of "''skall.db''" 5 9]
  by (auto simp: path_trim fresh_db_def)

text \<open>A migration is never half applied: whatever statement of \<open>Open\<close> fails, either no table or index
  was created or the database is completely migrated.\<close>

theorem Open_never_half_migrated:
  assumes "db_reachable d" "store_Open mk op drv qc now path d = (r, d')"
  shows "db_objects d' = db_objects d \<or> db_ready d'"
proof -
  have inv: "db_inv d" by (rule db.reach_inv [OF assms(1)])
  have "db_objects d' = db_objects d \<or> db_ready d'" if am: "applyMigrations drv' now d = (m, d')" for drv' m
    using applyMigrations_cases [OF am]
  proof (elim disjE conjE exE)
    fix k j
    assume one: "apply_one drv' now k (hd migrations) (with_schema d) = ((None, d'), j)"
    then have "1 \<le> schema_version d'"
      using apply_one_ok [OF one] schema_version_snoc [of 1] by (auto simp: migrations_single(2))
    then show ?thesis using applyMigrations_inv [OF inv am] by (simp add: db_ready_def)
  qed (auto simp: with_schema_def)
  then show ?thesis using store_Open_cases [OF assms(2)] by auto
qed

theorem Open_never_half_migrated_witness:
  "db_objects (snd (store_Open (\<lambda>_. None) None (\<lambda>k. if k = 9 then Some ''disk full'' else None) (Inr ''ok'') 5 ''f'' empty_db)) = []
   \<or> db_ready (snd (store_Open (\<lambda>_. None) None (\<lambda>k. if k = 9 then Some ''disk full'' else None) (Inr ''ok'') 5 ''f'' empty_db))"
  using Open_never_half_migrated [of empty_db, OF empty_db_reachable prod.collapse [symmetric]]
  by (simp add: empty_db_def)

text \<open>C7: Message round trip: a valid message with a fresh, trimmed id is stored, and \<open>GetMessage\<close> returns it
  with every field unchanged, only the recipient and group ids trimmed; the empty direction and
  status become inbound and pending. A second insert of the same id is refused as a duplicate and
  leaves the database, hence the first message, as it is.\<close>

theorem InsertMessage_GetMessage:
  assumes "db_ready d" "Validate m = None" "map_of (db_messages d) (ID m) = None" "trimmed (ID m)"
    and "printable_time (Timestamp m)" "printable_time (clk 0)"
  shows "\<exists>d'. InsertMessage no_faults clk m dr st d = (None, d')
    \<and> GetMessage no_faults (ID m) d' = Inr \<lparr>
        st_Message = m\<lparr>RecipientID := TrimSpace (RecipientID m), GroupID := TrimSpace (GroupID m)\<rparr>,
        st_Direction = (if dr = [] then ''inbound'' else dr), st_Status = (if st = [] then ''pending'' else st),
        st_CreatedAt = clk 0, st_UpdatedAt = clk 0\<rparr>
    \<and> (\<forall>m' clk' dr' st'. Validate m' = None \<and> ID m' = ID m \<longrightarrow>
         InsertMessage no_faults clk' m' dr' st' d' = (Some ErrDuplicateMessage, d'))"
proof -
  define d' where "d' = snd (InsertMessage no_faults clk m dr st d)"
  have ins: "InsertMessage no_faults clk m dr st d = (None, d')"
    using InsertMessage_ready [OF assms(1,2)] assms(3) by (simp add: d'_def)
  have ready: "db_ready d'"
    unfolding d'_def by (rule InsertMessage_keeps_ready [OF assms(1)])
  have id: "TrimSpace (ID m) = ID m" "ID m \<noteq> []"
    using assms(2,4) by (auto dest: valid_ids)
  have row: "map_of (db_messages d') (ID m) = Some (message_row_of m (if dr = [] then DirectionInbound else dr)
      (if st = [] then StatusPending else st) (nowUTC (clk 0)))"
    using InsertMessage_ready [OF assms(1,2), of clk dr st] assms(3) by (simp add: d'_def skall_maps)
  have get: "GetMessage no_faults (ID m) d' = Inr \<lparr>
        st_Message = m\<lparr>RecipientID := TrimSpace (RecipientID m), GroupID := TrimSpace (GroupID m)\<rparr>,
        st_Direction = (if dr = [] then ''inbound'' else dr), st_Status = (if st = [] then ''pending'' else st),
        st_CreatedAt = clk 0, st_UpdatedAt = clk 0\<rparr>"
    using id row on_table_ready(4) [OF ready] assms(5,6)
    by (simp add: GetMessage_def Let_def scanStoredMessage_def message_row_of_def nowUTC_def
        DirectionInbound_def StatusPending_def)
  moreover have "InsertMessage no_faults clk' m' dr' st' d' = (Some ErrDuplicateMessage, d')"
    if "Validate m' = None" "ID m' = ID m" for m' clk' dr' st'
    using InsertMessage_ready [OF ready that(1)] row that(2) by simp
  ultimately show ?thesis using ins by blast
qed

definition demo_chat :: "time \<Rightarrow> Message" where
  "demo_chat t = \<lparr>Version = 1, ID = ''m1'', Type = ''chat'', SenderID = ''ann'', RecipientID = ''bob'',
     GroupID = [], Timestamp = t, Body = ''hi''\<rparr>"

lemma demo_chat_ok: "Validate (demo_chat 7) = None" "trimmed (ID (demo_chat 7))"
  "printable_time (Timestamp (demo_chat 7))" "printable_time 5"
  by code_simp+

lemma fresh_db_messages: "db_messages fresh_db = []" "db_peers fresh_db = []" "db_groups fresh_db = []"
  "db_memberships fresh_db = []"
  by code_simp+

theorem InsertMessage_GetMessage_witness:
  "\<exists>d'. InsertMessage no_faults (\<lambda>_. 5) (demo_chat 7) [] [] fresh_db = (None, d')
     \<and> InsertMessage no_faults (\<lambda>_. 6) (demo_chat 7) [] [] d' = (Some ErrDuplicateMessage, d')"
  using InsertMessage_GetMessage [OF fresh_db_ready demo_chat_ok(1) _ demo_chat_ok(2,3), of "\<lambda>_. 5" "[]" "[]"]
    demo_chat_ok by (fastforce simp: fresh_db_messages)

section \<open>Conversations\<close>

lemma direct_between_sym: "direct_between a b = direct_between b a"
  by (auto simp: fun_eq_iff direct_between_def)

lemma query_clean: "on_table None table d = None \<Longrightarrow> query no_faults table what d rows = Inr rows"
  by (simp add: query_def)

lemma take_sort_key_least:
  assumes "x \<in> set (take n (sort_key f xs))" "y \<in> set xs" "y \<notin> set (take n (sort_key f xs))"
  shows "f x \<le> f y"
proof -
  have "y \<in> set (drop n (sort_key f xs))"
    using assms(2,3) by (metis Un_iff append_take_drop_id set_append set_sort)
  moreover have "sorted (map f (take n (sort_key f xs)) @ map f (drop n (sort_key f xs)))"
    by (metis append_take_drop_id map_append sorted_sort_key)
  ultimately show ?thesis
    using assms(1) by (auto simp only: sorted_append set_map image_iff)
qed

text \<open>C25: Both ends of a direct conversation read the same history from the same rows: exactly the rows
  with no group whose sender and recipient are the two peers, in the order of the timestamp text
  and then of the id, cut to the first \<open>limit\<close> rows (100 when the limit is not positive). Rows that
  are cut come after every row returned, so a long conversation shows its beginning.\<close>

theorem ListDirectConversation_spec:
  assumes "db_ready d" "TrimSpace a \<noteq> []" "TrimSpace b \<noteq> []"
  shows "\<exists>rows. ListDirectConversation no_faults a b n d = Inr (map scanStoredMessage rows)
    \<and> ListDirectConversation no_faults b a n d = Inr (map scanStoredMessage rows)
    \<and> set rows \<subseteq> {r \<in> set (db_messages d). direct_between (TrimSpace a) (TrimSpace b) r}
    \<and> length rows = min (if n \<le> 0 then 100 else nat n)
         (length (filter (direct_between (TrimSpace a) (TrimSpace b)) (db_messages d)))
    \<and> sorted (map row_order rows) \<and> distinct (map fst rows)
    \<and> (\<forall>r \<in> set (db_messages d). direct_between (TrimSpace a) (TrimSpace b) r \<and> r \<notin> set rows
          \<longrightarrow> (\<forall>x \<in> set rows. row_order x \<le> row_order r))"
proof -
  let ?sel = "filter (direct_between (TrimSpace a) (TrimSpace b)) (db_messages d)"
  let ?k = "if n \<le> 0 then 100 else nat n"
  let ?rows = "take ?k (sort_key row_order ?sel)"
  have "distinct (map fst (db_messages d))" using assms(1) by (simp add: db_ready_def db_inv_def)
  then have "distinct (map fst (sort_key row_order ?sel))"
    by (metis distinct_map distinct_map_filter distinct_sort set_sort)
  then have "distinct (map fst ?rows)" by (metis distinct_take take_map)
  moreover have "ListDirectConversation no_faults a b n d = Inr (map scanStoredMessage ?rows)"
    using assms on_table_ready(4) [OF assms(1)] by (simp add: ListDirectConversation_def Let_def query_clean page_def)
  moreover have "ListDirectConversation no_faults b a n d = Inr (map scanStoredMessage ?rows)"
    using assms on_table_ready(4) [OF assms(1)]
    by (simp add: ListDirectConversation_def Let_def query_clean page_def direct_between_sym [of "TrimSpace b"])
  moreover have "sorted (map row_order ?rows)"
    by (simp only: take_map [symmetric] sorted_wrt_take sorted_sort_key)
  moreover have "row_order x \<le> row_order r"
    if "r \<in> set ?sel" "r \<notin> set ?rows" "x \<in> set ?rows" for r x
    using take_sort_key_least [OF that(3,1,2)] .
  ultimately show ?thesis
    by (intro exI [of _ ?rows]) (auto dest: in_set_takeD)
qed

lemma demo_trim: "TrimSpace ''ann'' = ''ann''" "TrimSpace ''bob'' = ''bob''" "TrimSpace ''m1'' = ''m1''"
  "TrimSpace ''m2'' = ''m2''"
  by code_simp+

theorem ListDirectConversation_spec_witness:
  "ListDirectConversation no_faults ''ann'' ''bob'' 10 fresh_db = Inr []"
  using ListDirectConversation_spec [OF fresh_db_ready, of "''ann''" "''bob''" 10]
  by (auto simp: demo_trim fresh_db_messages)

lemma FormatNano_split: "\<exists>p. \<forall>ns. 0 \<le> ns \<and> ns < second \<longrightarrow> FormatNano (s * second + ns) = p @ frac_text ns @ ''Z''"
proof -
  have "(s * second + ns) div second = s \<and> (s * second + ns) mod second = ns" if "0 \<le> ns \<and> ns < second" for ns
    using that by (simp add: second_def)
  then show ?thesis
    unfolding FormatNano_def Let_def
    by (cases "civil (s div 86400)") (auto intro!: exI)
qed

lemma text_order:
  assumes "0 < ns" "ns < second"
  shows "FormatNano (s * second + ns) < FormatNano (s * second)"
proof -
  obtain p where p: "\<And>ns. 0 \<le> ns \<Longrightarrow> ns < second \<Longrightarrow> FormatNano (s * second + ns) = p @ frac_text ns @ ''Z''"
    using FormatNano_split by blast
  have "FormatNano (s * second) = p @ ''Z''"
    using p [of 0] by (simp add: second_def frac_text_def)
  moreover have "FormatNano (s * second + ns) = p @ CHR ''.'' # rev (dropWhile (\<lambda>c. c = CHR ''0'') (rev (padk 9 ns))) @ ''Z''"
    using p [of ns] assms by (simp add: frac_text_def)
  moreover have "CHR ''.'' < CHR ''Z''" by (simp add: less_char_def)
  then have "p @ CHR ''.'' # x < p @ ''Z''" for x by (induction p) (simp_all add: list_less_def)
  ultimately show ?thesis by simp
qed

lemma sort_key_swap: "f y < f x \<Longrightarrow> sort_key f [x, y] = [y, x]"
  by (auto simp: sort_key_def)

text \<open>The history is not chronological within a second: the timestamp column is the text with trailing
  zeros dropped, and \<open>.\<close> sorts before \<open>Z\<close>, so a message sent on a whole second is listed after every
  later message of that second, also when it was sent and stored first.\<close>

theorem conversation_not_chronological:
  assumes "db_ready d" "db_messages d = []" "0 < ns" "ns < second"
    and "Validate m = None" "trimmed (SenderID m)" "TrimSpace (RecipientID m) \<noteq> []" "TrimSpace (GroupID m) = []"
    and "Timestamp m = s * second" "i \<noteq> ID m" "Validate (m\<lparr>ID := i, Timestamp := s * second + ns\<rparr>) = None"
  shows "\<exists>d1 d2 x y. InsertMessage no_faults clk m dr st d = (None, d1)
    \<and> InsertMessage no_faults clk' (m\<lparr>ID := i, Timestamp := s * second + ns\<rparr>) dr st d1 = (None, d2)
    \<and> ListDirectConversation no_faults (SenderID m) (RecipientID m) 100 d2 = Inr [y, x]
    \<and> ID (st_Message x) = ID m \<and> ID (st_Message y) = i"
proof -
  define m2 where "m2 = m\<lparr>ID := i, Timestamp := s * second + ns\<rparr>"
  define d1 d2 where "d1 = snd (InsertMessage no_faults clk m dr st d)"
    and "d2 = snd (InsertMessage no_faults clk' m2 dr st d1)"
  let ?dr = "if dr = [] then DirectionInbound else dr" and ?st = "if st = [] then StatusPending else st"
  let ?r1 = "(ID m, message_row_of m ?dr ?st (nowUTC (clk 0)))"
    and ?r2 = "(i, message_row_of m2 ?dr ?st (nowUTC (clk' 0)))"
  have v2: "Validate m2 = None" "ID m2 = i" using assms(11) by (simp_all add: m2_def)
  have i1: "InsertMessage no_faults clk m dr st d = (None, d1)" "db_messages d1 = [?r1]"
    using InsertMessage_ready [OF assms(1,5), of clk dr st] assms(2) by (simp_all add: d1_def)
  have ready1: "db_ready d1"
    unfolding d1_def by (rule InsertMessage_keeps_ready [OF assms(1)])
  have i2: "InsertMessage no_faults clk' m2 dr st d1 = (None, d2)" "db_messages d2 = [?r1, ?r2]"
    using InsertMessage_ready [OF ready1 v2(1), of clk' dr st] i1(2) assms(10) v2(2) by (simp_all add: d2_def)
  have ready2: "db_ready d2"
    unfolding d2_def by (rule InsertMessage_keeps_ready [OF ready1])
  have sel: "filter (direct_between (SenderID m) (TrimSpace (RecipientID m))) (db_messages d2) = [?r1, ?r2]"
    using assms(7,8) i2(2) by (simp add: direct_between_def message_row_of_def m2_def nullIfEmpty_def Let_def)
  have "row_order ?r2 < row_order ?r1"
    using text_order [OF assms(3,4), of s] by (simp add: row_order_def message_row_of_def m2_def assms(9))
  then have "sort_key row_order [?r1, ?r2] = [?r2, ?r1]" by (rule sort_key_swap)
  moreover have "TrimSpace (SenderID m) = SenderID m" "SenderID m \<noteq> []"
    using assms(5,6) valid_ids by auto
  ultimately have "ListDirectConversation no_faults (SenderID m) (RecipientID m) 100 d2
      = Inr [scanStoredMessage ?r2, scanStoredMessage ?r1]"
    using assms(7) sel on_table_ready(4) [OF ready2]
    by (simp add: ListDirectConversation_def Let_def query_clean page_def)
  with i1(1) i2(1) show ?thesis
    unfolding m2_def [symmetric] by (fastforce simp: scanStoredMessage_def)
qed

lemma demo_late_ok: "Validate (demo_chat (7 * second)) = None"
  "Validate ((demo_chat (7 * second))\<lparr>ID := ''m2'', Timestamp := 7 * second + 500000000\<rparr>) = None"
  by code_simp+

theorem conversation_not_chronological_witness:
  "\<exists>d1 d2 x y. InsertMessage no_faults (\<lambda>_. 5) (demo_chat (7 * second)) [] [] fresh_db = (None, d1)
    \<and> InsertMessage no_faults (\<lambda>_. 6) ((demo_chat (7 * second))\<lparr>ID := ''m2'', Timestamp := 7 * second + 500000000\<rparr>) [] [] d1 = (None, d2)
    \<and> ListDirectConversation no_faults ''ann'' ''bob'' 100 d2 = Inr [y, x]
    \<and> ID (st_Message x) = ''m1'' \<and> ID (st_Message y) = ''m2''"
  using conversation_not_chronological [OF fresh_db_ready fresh_db_messages(1), of 500000000 "demo_chat (7 * second)" 7 "''m2''"
      "\<lambda>_. 5" "[]" "[]" "\<lambda>_. 6"] demo_late_ok demo_trim
  by (simp add: demo_chat_def second_def trimmed_def)

text \<open>A message whose id has surrounding white space passes validation and is stored, but no call can
  reach it: \<open>GetMessage\<close> and \<open>UpdateMessageStatus\<close> look for the trimmed id.\<close>

theorem padded_id_unreachable:
  assumes "db_ready d" "Validate m = None" "map_of (db_messages d) (ID m) = None"
    and "map_of (db_messages d) (TrimSpace (ID m)) = None" "TrimSpace (ID m) \<noteq> ID m" "status \<noteq> []"
  shows "\<exists>d'. InsertMessage no_faults clk m dr st d = (None, d')
    \<and> GetMessage no_faults (ID m) d' = Inl (ErrDB ''scan message'' ''sql: no rows in result set'')
    \<and> UpdateMessageStatus no_faults clk (ID m) status d' = (Some ErrNoRows, d')"
proof -
  define d' where "d' = snd (InsertMessage no_faults clk m dr st d)"
  note ins = InsertMessage_ready [OF assms(1,2), of clk dr st]
  have ready: "db_ready d'"
    unfolding d'_def by (rule InsertMessage_keeps_ready [OF assms(1)])
  have row: "map_of (db_messages d') (TrimSpace (ID m)) = None" "TrimSpace (ID m) \<noteq> []"
    using ins assms(3-5) valid_ids(4) [OF assms(2)] by (simp_all add: d'_def skall_maps)
  have "\<not> isCorruptionErr ''sql: no rows in result set''" by code_simp
  with row have "GetMessage no_faults (ID m) d' = Inl (ErrDB ''scan message'' ''sql: no rows in result set'')"
    "UpdateMessageStatus no_faults clk (ID m) status d' = (Some ErrNoRows, d')"
    using on_table_ready(4) [OF ready] assms(6)
    by (simp_all add: GetMessage_def UpdateMessageStatus_def Let_def classifyDBError_def)
  then show ?thesis using ins assms(3) by (auto simp: d'_def)
qed

lemma padded_ok: "Validate ((demo_chat 7)\<lparr>ID := '' m1''\<rparr>) = None" "TrimSpace '' m1'' = ''m1''"
  by code_simp+

theorem padded_id_unreachable_witness:
  "\<exists>d'. InsertMessage no_faults (\<lambda>_. 5) ((demo_chat 7)\<lparr>ID := '' m1''\<rparr>) [] [] fresh_db = (None, d')
     \<and> UpdateMessageStatus no_faults (\<lambda>_. 5) '' m1'' ''sent'' d' = (Some ErrNoRows, d')"
  using padded_id_unreachable [OF fresh_db_ready padded_ok(1), of "''sent''" "\<lambda>_. 5" "[]" "[]"]
  by (fastforce simp: fresh_db_messages padded_ok)

end
