(* ===== verification/Group_Directory.thy ===== *)
theory Group_Directory
  imports Group_Manager Store_Laws
begin

text \<open>
  The group manager and the group tables of the store as two implementations of one directory
  of groups and members (\<open>Directory\<close>), and \<^verbatim>\<open>internal/groups/persistence.go\<close>, which rebuilds the
  manager from the tables at start-up. The locale \<open>membership_directory\<close> is interpreted on the
  manager's methods (\<open>mdir\<close>) and on the store's (\<open>sdir\<close>); that the two agree after any sequence of
  commands, and that a restart restores exactly the active members, follows from its lemmas.
\<close>

section \<open>LoadFromStore\<close>

definition restore_member :: "string \<Rightarrow> GroupMembership \<Rightarrow> Manager \<Rightarrow> Manager" where
  "restore_member groupID ms mgr =
     (if \<not> ms_Active ms then mgr
      else case map_of (groups mgr) groupID of
        None \<Rightarrow> mgr
      | Some grp \<Rightarrow>
          if map_of (g_Members grp) (ms_PeerID ms) \<noteq> None then mgr
          else mgr\<lparr>groups := AList.update groupID
            (grp\<lparr>g_Members := AList.update (ms_PeerID ms)
               \<lparr>gm_PeerID = ms_PeerID ms, gm_JoinedAt = ms_JoinedAt ms, gm_Active = True, gm_LastSeen = ms_LastSeen ms\<rparr>
               (g_Members grp)\<rparr>)
            (groups mgr)\<rparr>)"

definition restore_group :: "StoreGroup \<Rightarrow> Manager \<Rightarrow> Manager" where
  "restore_group sg mgr =
     mgr\<lparr>groups := AList.update (sg_GroupID sg)
           \<lparr>g_ID = sg_GroupID sg, g_Name = sg_Name sg, g_Members = [],
            g_CreatedAt = sg_CreatedAt sg, g_UpdatedAt = sg_UpdatedAt sg\<rparr> (groups mgr),
         seen := AList.update (sg_GroupID sg) [] (seen mgr)\<rparr>"

text \<open>The faults of the \<open>i\<close>-th query are \<open>drv i\<close>; the members of a group that cannot be listed are skipped.\<close>

fun load_groups :: "faults tape \<Rightarrow> nat \<Rightarrow> Db \<Rightarrow> StoreGroup list \<Rightarrow> Manager \<Rightarrow> Manager" where
  "load_groups drv i d [] mgr = mgr"
| "load_groups drv i d (sg # sgs) mgr =
     (if GetGroup mgr (sg_GroupID sg) \<noteq> None then load_groups drv i d sgs mgr
      else
        let mgr1 = restore_group sg mgr
        in case ListGroupMembers (drv i) (sg_GroupID sg) d of
             Inl e \<Rightarrow> load_groups drv (Suc i) d sgs mgr1
           | Inr members \<Rightarrow> load_groups drv (Suc i) d sgs (fold (restore_member (sg_GroupID sg)) members mgr1))"

definition LoadFromStore :: "faults tape \<Rightarrow> Db \<Rightarrow> Manager \<Rightarrow> store_error option \<times> Manager" where
  "LoadFromStore drv d mgr =
     (case store_ListGroups (drv 0) d of
        Inl e \<Rightarrow> (Some e, mgr)
      | Inr sgs \<Rightarrow> (None, load_groups drv 1 d sgs mgr))"

section \<open>The manager as a directory\<close>

definition mgr_dir :: "Manager \<Rightarrow> directory" where
  "mgr_dir m g = map_option (\<lambda>grp. fst ` set (g_Members grp)) (map_of (groups m) g)"

lemma keys_update [simp]: "fst ` set (AList.update k v xs) = insert k (fst ` set xs)"
  using alist.set_keys_put [of k v xs] by simp

lemma keys_delete [simp]: "fst ` set (AList.delete k xs) = fst ` set xs - {k}"
  using alist.set_keys_del [of k xs] by simp

lemma mgr_dir_simps [simp]:
  "mgr_dir (m\<lparr>groups := AList.update k grp (groups m)\<rparr>) = (mgr_dir m)(k \<mapsto> fst ` set (g_Members grp))"
  "mgr_dir (m\<lparr>groups := AList.delete k (groups m)\<rparr>) = (mgr_dir m)(k := None)"
  "mgr_dir (m\<lparr>seen := s\<rparr>) = mgr_dir m"
  "mgr_dir (m\<lparr>groups := gs, seen := s\<rparr>) = mgr_dir (m\<lparr>groups := gs\<rparr>)"
  by (auto simp: mgr_dir_def fun_eq_iff skall_maps)

lemma mgr_dir_lookup:
  "map_of (groups m) g = None \<Longrightarrow> mgr_dir m g = None"
  "map_of (groups m) g = Some grp \<Longrightarrow> mgr_dir m g = Some (fst ` set (g_Members grp))"
  by (simp_all add: mgr_dir_def)

lemma member_iff: "map_of (g_Members grp) p = None \<longleftrightarrow> p \<notin> fst ` set (g_Members grp)"
  by (simp add: map_of_eq_None_iff)

lemma mgr_create_dir: "mgr_dir (snd (CreateGroup now g n m)) = spec_step (DirCreate g n) (mgr_dir m)"
  by (auto simp: CreateGroup_def Let_def mgr_dir_def)

lemma mgr_join_dir: "mgr_dir (snd (AddMember now g p m)) = spec_step (DirJoin g p) (mgr_dir m)"
  by (cases "map_of (groups m) (TrimSpace g)")
    (simp_all add: AddMember_def Let_def mgr_dir_lookup member_iff insert_absorb fun_upd_idem)

lemma mgr_leave_dir: "mgr_dir (snd (LeaveGroup now g p m)) = spec_step (DirLeave g p) (mgr_dir m)"
  by (cases "map_of (groups m) (TrimSpace g)")
    (simp_all add: LeaveGroup_def removeMember_def Let_def mgr_dir_lookup member_iff fun_upd_idem)

lemma mgr_drop_dir: "mgr_dir (snd (DeleteGroup g m)) = spec_step (DirDrop g) (mgr_dir m)"
  by (simp add: DeleteGroup_def Let_def mgr_dir_lookup fun_upd_idem)

lemma LeaveGroup_inv: "manager_inv m \<Longrightarrow> manager_inv (snd (LeaveGroup now g p m))"
  by (simp only: LeaveGroup_def removeMember_inv)

interpretation mdir: membership_directory manager_inv mgr_dir
  "\<lambda>now g n m. snd (CreateGroup now g n m)" "\<lambda>now g p m. snd (AddMember now g p m)"
  "\<lambda>now g p m. snd (LeaveGroup now g p m)" "\<lambda>now g m. snd (DeleteGroup g m)"
  by unfold_locales
    (simp_all only: CreateGroup_inv AddMember_inv LeaveGroup_inv DeleteGroup_inv
      mgr_create_dir mgr_join_dir mgr_leave_dir mgr_drop_dir)

section \<open>The group tables as a directory\<close>

definition db_dir :: "Db \<Rightarrow> directory" where
  "db_dir d g = map_option (\<lambda>_. {p. \<exists>r. map_of (db_memberships d) (g, p) = Some r \<and> mr_active r = 1})
     (map_of (db_groups d) g)"

text \<open>The store's methods as the service calls them; \<open>x\<close> is the clock of the call and the time it passes.\<close>

definition store_create :: "time tape \<times> time \<Rightarrow> string \<Rightarrow> string \<Rightarrow> Db \<Rightarrow> Db" where
  "store_create x g n d = snd (UpsertGroup no_faults (fst x) g n (snd x) d)"

definition store_join :: "time tape \<times> time \<Rightarrow> string \<Rightarrow> string \<Rightarrow> Db \<Rightarrow> Db" where
  "store_join x g p d = snd (SetGroupMembership no_faults (fst x) g p (snd x) True (snd x) d)"

definition store_leave :: "time tape \<times> time \<Rightarrow> string \<Rightarrow> string \<Rightarrow> Db \<Rightarrow> Db" where
  "store_leave x g p d = snd (SetGroupMembership no_faults (fst x) g p (snd x) False (snd x) d)"

definition store_drop :: "time tape \<times> time \<Rightarrow> string \<Rightarrow> Db \<Rightarrow> Db" where
  "store_drop x g d = snd (store_DeleteGroup no_faults g d)"

lemma db_dir_eqI:
  assumes "\<And>g. map_of (db_groups d') g = None \<longleftrightarrow> map_of (db_groups d) g = None"
    and "\<And>g p. (\<exists>r. map_of (db_memberships d') (g, p) = Some r \<and> mr_active r = 1)
      = (\<exists>r. map_of (db_memberships d) (g, p) = Some r \<and> mr_active r = 1)"
  shows "db_dir d' = db_dir d"
proof
  fix g
  show "db_dir d' g = db_dir d g"
    using assms(1) [of g] assms(2) [of g] by (cases "map_of (db_groups d) g") (auto simp: db_dir_def)
qed

lemma UpsertPeer_ready:
  assumes "db_ready d" "TrimSpace p \<noteq> []"
  shows "\<exists>ps. UpsertPeer no_faults clk p n t d = (None, d\<lparr>db_peers := ps\<rparr>)"
  unfolding UpsertPeer_def Let_def using assms(2) by (simp only: on_table_ready(1) [OF assms(1)] if_False option.case) blast

lemma db_dir_peers [simp]: "db_dir (d\<lparr>db_peers := ps\<rparr>) = db_dir d"
  by (simp add: db_dir_def fun_eq_iff)

lemma on_table_peers [simp]: "on_table f t (d\<lparr>db_peers := ps\<rparr>) = on_table f t d"
  by (simp add: on_table_def)

lemma store_create_dir:
  assumes "db_ready d"
  shows "db_dir (store_create clk g n d) = spec_step (DirCreate g n) (db_dir d)"
proof -
  have "map_of (db_memberships d) (g', p) = None" if "map_of (db_groups d) g' = None" for g' p
    using assms that db_inv_membershipD(1) [of d g' p] by (cases "map_of (db_memberships d) (g', p)") (auto simp: db_ready_def)
  then show ?thesis
    using on_table_ready(2) [OF assms]
    by (auto simp: store_create_def UpsertGroup_def Let_def db_dir_def fun_eq_iff skall_maps)
qed

lemma set_membership_dir:
  assumes "db_ready d" "TrimSpace g \<noteq> []" "TrimSpace p \<noteq> []"
  shows "db_dir (snd (SetGroupMembership no_faults clk g p j a l d)) =
    (case db_dir d (TrimSpace g) of None \<Rightarrow> db_dir d
     | Some M \<Rightarrow> (db_dir d)(TrimSpace g \<mapsto> (if a then insert (TrimSpace p) M else M - {TrimSpace p})))"
proof -
  obtain ps where ps: "UpsertPeer no_faults (\<lambda>k. clk (k + 1)) (TrimSpace p) (TrimSpace p) t d = (None, d\<lparr>db_peers := ps t\<rparr>)" for t
    using UpsertPeer_ready [OF assms(1)] assms(3) by (metis TrimSpace_idem)
  show ?thesis
    using assms(2,3) on_table_ready(3) [OF assms(1)] ps
    by (auto simp: SetGroupMembership_def put_membership_def Let_def db_dir_def fun_eq_iff skall_maps split: option.split)
qed

lemma store_drop_dir:
  assumes "db_ready d"
  shows "db_dir (store_drop clk g d) = spec_step (DirDrop g) (db_dir d)"
  using on_table_ready(2) [OF assms] map_of_filter_key [of "\<lambda>x. fst x \<noteq> TrimSpace g" "db_memberships d"]
  by (auto simp: store_drop_def store_DeleteGroup_def Let_def db_dir_def fun_eq_iff skall_maps split: option.split)

lemma put_membership_version [simp]: "schema_version (snd (put_membership f g p r d)) = schema_version d"
  by (simp add: put_membership_def split: option.split)

lemma SetGroupMembership_blank:
  "TrimSpace g = [] \<or> TrimSpace p = [] \<Longrightarrow> snd (SetGroupMembership drv clk g p j a l d) = d"
  by (auto simp: SetGroupMembership_def Let_def)

lemma store_ops_ready:
  assumes "db_ready d"
  shows "db_ready (store_create clk g n d)" "db_ready (store_join clk g p d)"
    "db_ready (store_leave clk g p d)" "db_ready (store_drop clk g d)"
proof -
  have v: "schema_version d' = schema_version d" if "UpsertPeer drv clk p n t d = (e, d')" for drv clk p n t e d'
    using that by (auto simp: UpsertPeer_def Let_def split: option.splits if_splits)
  have w: "schema_version (snd (SetGroupMembership drv clk g p j a l d)) = schema_version d" for drv clk g p j a l
    by (simp add: SetGroupMembership_def Let_def put_membership_version v split: prod.split option.split)
  show "db_ready (store_join clk g p d)" "db_ready (store_leave clk g p d)"
    using assms by (simp_all add: db_ready_def store_join_def store_leave_def SetGroupMembership_inv w)
  show "db_ready (store_create clk g n d)"
    using assms UpsertGroup_inv [of d no_faults "fst clk" g n "snd clk"]
    by (auto simp: db_ready_def store_create_def UpsertGroup_def Let_def split: option.split)
  show "db_ready (store_drop clk g d)"
    using assms store_DeleteGroup_inv [of d no_faults g]
    by (auto simp: db_ready_def store_drop_def store_DeleteGroup_def Let_def split: option.split)
qed

lemma store_join_dir: "db_ready d \<Longrightarrow> db_dir (store_join clk g p d) = spec_step (DirJoin g p) (db_dir d)"
  using set_membership_dir [of d g p "fst clk" "snd clk" True "snd clk"]
  by (cases "TrimSpace g = [] \<or> TrimSpace p = []")
    (auto simp: store_join_def SetGroupMembership_blank Let_def split: option.split)

lemma store_leave_dir: "db_ready d \<Longrightarrow> db_dir (store_leave clk g p d) = spec_step (DirLeave g p) (db_dir d)"
  using set_membership_dir [of d g p "fst clk" "snd clk" False "snd clk"]
  by (cases "TrimSpace g = [] \<or> TrimSpace p = []")
    (auto simp: store_leave_def SetGroupMembership_blank Let_def split: option.split)

interpretation sdir: membership_directory db_ready db_dir store_create store_join store_leave store_drop
  by unfold_locales
    (simp_all only: store_ops_ready store_create_dir store_join_dir store_leave_dir store_drop_dir)

section \<open>Restoring the manager\<close>

definition member_of :: "GroupMembership \<Rightarrow> GroupMember" where
  "member_of ms = \<lparr>gm_PeerID = ms_PeerID ms, gm_JoinedAt = ms_JoinedAt ms, gm_Active = True, gm_LastSeen = ms_LastSeen ms\<rparr>"

definition active_members :: "GroupMembership list \<Rightarrow> (string \<times> GroupMember) list" where
  "active_members mss = map (\<lambda>ms. (ms_PeerID ms, member_of ms)) (filter ms_Active mss)"

definition same_header :: "Group \<Rightarrow> Group \<Rightarrow> bool" where
  "same_header a b \<longleftrightarrow> g_ID a = g_ID b \<and> g_Name a = g_Name b \<and> g_CreatedAt a = g_CreatedAt b \<and> g_UpdatedAt a = g_UpdatedAt b"

lemma restore_member_groups:
  assumes "map_of (groups mgr) gid = Some grp" "distinct (map fst (g_Members grp))"
  shows "\<exists>grp'. map_of (groups (restore_member gid ms mgr)) = (map_of (groups mgr))(gid \<mapsto> grp')
    \<and> seen (restore_member gid ms mgr) = seen mgr \<and> same_header grp' grp
    \<and> distinct (map fst (g_Members grp'))
    \<and> map_of (g_Members grp') = map_of (active_members [ms]) ++ map_of (g_Members grp)"
proof (cases "ms_Active ms \<and> map_of (g_Members grp) (ms_PeerID ms) = None")
  case True
  then show ?thesis
    using assms
    by (auto simp: restore_member_def same_header_def active_members_def member_of_def skall_maps fun_eq_iff
        AList.distinct_update map_add_def split: option.split)
next
  case False
  then have "restore_member gid ms mgr = mgr" "map_of (active_members [ms]) ++ map_of (g_Members grp) = map_of (g_Members grp)"
    using assms(1) by (auto simp: restore_member_def active_members_def map_add_def fun_eq_iff split: option.split)
  then show ?thesis using assms by (auto simp: same_header_def fun_eq_iff)
qed

lemma fold_restore_groups:
  assumes "map_of (groups mgr) gid = Some grp" "distinct (map fst (g_Members grp))"
  shows "\<exists>grp'. map_of (groups (fold (restore_member gid) mss mgr)) = (map_of (groups mgr))(gid \<mapsto> grp')
    \<and> seen (fold (restore_member gid) mss mgr) = seen mgr \<and> same_header grp' grp
    \<and> distinct (map fst (g_Members grp'))
    \<and> map_of (g_Members grp') = map_of (active_members mss) ++ map_of (g_Members grp)"
  using assms
proof (induction mss arbitrary: mgr grp)
  case Nil
  then show ?case by (auto simp: same_header_def active_members_def fun_eq_iff)
next
  case (Cons ms mss)
  obtain g1 where g1: "map_of (groups (restore_member gid ms mgr)) = (map_of (groups mgr))(gid \<mapsto> g1)"
    "seen (restore_member gid ms mgr) = seen mgr" "same_header g1 grp" "distinct (map fst (g_Members g1))"
    "map_of (g_Members g1) = map_of (active_members [ms]) ++ map_of (g_Members grp)"
    using restore_member_groups [OF Cons.prems] by blast
  have "map_of (groups (restore_member gid ms mgr)) gid = Some g1" by (simp add: g1(1))
  from Cons.IH [OF this g1(4)] obtain g2 where g2:
    "map_of (groups (fold (restore_member gid) mss (restore_member gid ms mgr))) = (map_of (groups mgr))(gid \<mapsto> g2)"
    "seen (fold (restore_member gid) mss (restore_member gid ms mgr)) = seen mgr" "same_header g2 g1"
    "distinct (map fst (g_Members g2))"
    "map_of (g_Members g2) = map_of (active_members mss) ++ map_of (g_Members g1)"
    unfolding g1(1,2) fun_upd_upd by blast
  have "map_of (active_members (ms # mss)) = map_of (active_members mss) ++ map_of (active_members [ms])"
    by (simp add: active_members_def)
  with g2 g1 show ?case
    by (intro exI [of _ g2]) (simp add: same_header_def)
qed

text \<open>The active members that the rows of a group restore, as a map.\<close>

definition row_member :: "string \<Rightarrow> membership_row \<Rightarrow> GroupMember" where
  "row_member p r = \<lparr>gm_PeerID = p, gm_JoinedAt = mustParseTime (mr_joined_at r), gm_Active = True,
     gm_LastSeen = mustParseTime (mr_last_seen r)\<rparr>"

lemma active_members_rows:
  assumes "distinct (map fst rows)"
  shows "map_of (active_members (map scan_membership (sort_key f (filter (\<lambda>r. fst (fst r) = g) rows)))) p =
    (case map_of rows (g, p) of None \<Rightarrow> None | Some r \<Rightarrow> if mr_active r = 1 then Some (row_member p r) else None)"
proof -
  let ?sel = "sort_key f (filter (\<lambda>r. fst (fst r) = g) rows)"
  let ?act = "active_members (map scan_membership ?sel)"
  have act: "?act = map (\<lambda>r. (snd (fst r), row_member (snd (fst r)) (snd r))) (filter (\<lambda>r. mr_active (snd r) = 1) ?sel)"
    by (simp add: active_members_def filter_map o_def scan_membership_def member_of_def row_member_def)
  have "inj_on fst (set rows)" using assms by (simp add: distinct_map)
  then have "inj_on (\<lambda>r. snd (fst r)) (set (filter (\<lambda>r. mr_active (snd r) = 1) ?sel))"
    by (intro inj_onI) (metis (mono_tags, lifting) filter_is_subset inj_onD mem_Collect_eq prod.collapse set_filter set_sort)
  moreover have "distinct ?sel" using assms by (simp add: distinct_map)
  ultimately have d: "distinct (map fst ?act)"
    unfolding act by (simp add: distinct_map o_def)
  have "map_of ?act p = Some x \<longleftrightarrow> (\<exists>r. map_of rows (g, p) = Some r \<and> mr_active r = 1 \<and> x = row_member p r)" for x
    unfolding map_of_eq_Some_iff [OF d] map_of_eq_Some_iff [OF assms] by (auto simp: act image_iff)
  then show ?thesis
    by (cases "map_of ?act p"; cases "map_of rows (g, p)") (force split: if_splits)+
qed

text \<open>What loading makes of a group of the tables.\<close>

definition loaded :: "Db \<Rightarrow> string \<Rightarrow> Group \<Rightarrow> bool" where
  "loaded d g grp \<longleftrightarrow> (\<exists>r. map_of (db_groups d) g = Some r \<and> g_ID grp = g \<and> g_Name grp = gr_name r
     \<and> g_CreatedAt grp = mustParseTime (gr_created_at r) \<and> g_UpdatedAt grp = mustParseTime (gr_updated_at r))
     \<and> distinct (map fst (g_Members grp))
     \<and> (\<forall>p. map_of (g_Members grp) p =
          (case map_of (db_memberships d) (g, p) of None \<Rightarrow> None
           | Some r \<Rightarrow> if mr_active r = 1 then Some (row_member p r) else None))"

lemma group_key:
  assumes "db_ready d" "map_of (db_groups d) g = Some r"
  shows "TrimSpace g = g" "g \<noteq> []"
proof -
  have "key_ok g" using assms unfolding db_ready_def db_inv_def by blast
  then show "TrimSpace g = g" "g \<noteq> []" by (auto simp: key_ok_def)
qed

lemma restore_one:
  assumes "db_ready d" "map_of (db_groups d) g = Some r"
    and "ListGroupMembers no_faults g d = Inr mss"
  shows "\<exists>grp. map_of (groups (fold (restore_member g) mss (restore_group (scan_group (g, r)) mgr))) = (map_of (groups mgr))(g \<mapsto> grp)
    \<and> loaded d g grp
    \<and> seen (fold (restore_member g) mss (restore_group (scan_group (g, r)) mgr)) = AList.update g [] (seen mgr)"
proof -
  let ?m = "restore_group (scan_group (g, r)) mgr"
  let ?g0 = "\<lparr>g_ID = g, g_Name = gr_name r, g_Members = [], g_CreatedAt = mustParseTime (gr_created_at r),
      g_UpdatedAt = mustParseTime (gr_updated_at r)\<rparr>"
  have m: "map_of (groups ?m) = (map_of (groups mgr))(g \<mapsto> ?g0)" "seen ?m = AList.update g [] (seen mgr)"
    by (simp_all add: restore_group_def scan_group_def fun_eq_iff skall_maps)
  note k = group_key [OF assms(1,2)]
  have mss: "mss = map scan_membership (sort_key (\<lambda>r. snd (fst r)) (filter (\<lambda>r. fst (fst r) = g) (db_memberships d)))"
    using assms(3) k on_table_ready(3) [OF assms(1)] by (simp add: ListGroupMembers_def Let_def query_clean)
  have dm: "distinct (map fst (db_memberships d))" using assms(1) by (simp add: db_ready_def db_inv_def)
  obtain grp where grp: "map_of (groups (fold (restore_member g) mss ?m)) = (map_of (groups ?m))(g \<mapsto> grp)"
    "seen (fold (restore_member g) mss ?m) = seen ?m" "same_header grp ?g0" "distinct (map fst (g_Members grp))"
    "map_of (g_Members grp) = map_of (active_members mss) ++ map_of (g_Members ?g0)"
    using fold_restore_groups [of ?m g ?g0 mss] m(1) by auto
  have "loaded d g grp"
    using grp(3,4,5) assms(2) active_members_rows [OF dm, of "\<lambda>r. snd (fst r)" g]
    by (simp add: loaded_def same_header_def mss)
  then show ?thesis using grp(1,2) m by (intro exI [of _ grp]) simp
qed

lemma ListGroupMembers_ready:
  assumes "db_ready d" "map_of (db_groups d) g = Some r"
  shows "\<exists>mss. ListGroupMembers no_faults g d = Inr mss"
  using group_key [OF assms] on_table_ready(3) [OF assms(1)] by (simp add: ListGroupMembers_def Let_def query_clean)

lemma scan_group_id [simp]: "sg_GroupID (scan_group x) = fst x"
  by (simp add: scan_group_def)

lemma load_groups_spec:
  assumes "db_ready d" "\<forall>(g, r) \<in> set rs. map_of (db_groups d) g = Some r"
  shows "\<exists>new. map_of (groups (load_groups (\<lambda>_. no_faults) i d (map scan_group rs) mgr)) = new ++ map_of (groups mgr)
    \<and> dom new = fst ` set rs - dom (map_of (groups mgr)) \<and> (\<forall>g grp. new g = Some grp \<longrightarrow> loaded d g grp)"
  using assms(2)
proof (induction rs arbitrary: i mgr)
  case Nil
  then show ?case by (intro exI [of _ Map.empty]) simp
next
  case (Cons x rs)
  obtain g r where x: "x = (g, r)" by (cases x)
  have g: "map_of (db_groups d) g = Some r" using Cons.prems x by simp
  note k = group_key(1) [OF assms(1) g]
  have IH: "\<exists>new. map_of (groups (load_groups (\<lambda>_. no_faults) i d (map scan_group rs) mgr)) = new ++ map_of (groups mgr)
    \<and> dom new = fst ` set rs - dom (map_of (groups mgr)) \<and> (\<forall>g grp. new g = Some grp \<longrightarrow> loaded d g grp)" for i mgr
    using Cons.IH Cons.prems by simp
  show ?case
  proof (cases "map_of (groups mgr) g")
    case (Some grp)
    then have "load_groups (\<lambda>_. no_faults) i d (map scan_group (x # rs)) mgr = load_groups (\<lambda>_. no_faults) i d (map scan_group rs) mgr"
      by (simp add: x GetGroup_def k)
    moreover have "fst ` set (x # rs) - dom (map_of (groups mgr)) = fst ` set rs - dom (map_of (groups mgr))"
      using Some x by auto
    ultimately show ?thesis using IH by metis
  next
    case None
    obtain mss where mss: "ListGroupMembers no_faults g d = Inr mss" using ListGroupMembers_ready [OF assms(1) g] by blast
    let ?m = "fold (restore_member g) mss (restore_group (scan_group (g, r)) mgr)"
    obtain grp where grp: "map_of (groups ?m) = (map_of (groups mgr))(g \<mapsto> grp)" "loaded d g grp"
      using restore_one [OF assms(1) g mss] by blast
    obtain new where new: "map_of (groups (load_groups (\<lambda>_. no_faults) (Suc i) d (map scan_group rs) ?m)) = new ++ map_of (groups ?m)"
      "dom new = fst ` set rs - dom (map_of (groups ?m))" "\<forall>g grp. new g = Some grp \<longrightarrow> loaded d g grp"
      using IH [of "Suc i" ?m] by (elim exE conjE)
    have "load_groups (\<lambda>_. no_faults) i d (map scan_group (x # rs)) mgr = load_groups (\<lambda>_. no_faults) (Suc i) d (map scan_group rs) ?m"
      using None k mss by (simp add: x GetGroup_def)
    moreover have "g \<notin> dom new" unfolding new(2) grp(1) by simp
    then have "new g = None" by blast
    then have "new ++ (map_of (groups mgr))(g \<mapsto> grp) = new(g \<mapsto> grp) ++ map_of (groups mgr)"
      using None by (intro ext) (simp add: map_add_def split: option.split)
    then have "new ++ map_of (groups ?m) = new(g \<mapsto> grp) ++ map_of (groups mgr)" by (simp only: grp(1))
    moreover have "dom (new(g \<mapsto> grp)) = fst ` set (x # rs) - dom (map_of (groups mgr))"
      using None by (auto simp: new(2) grp(1) x)
    moreover have "\<forall>h hg. (new(g \<mapsto> grp)) h = Some hg \<longrightarrow> loaded d h hg"
      using new(3) grp(2) by simp
    ultimately show ?thesis
      by (intro exI [of _ "new(g \<mapsto> grp)"]) (simp only: new(1))
  qed
qed

text \<open>Loading keeps the invariant of the manager, whatever queries fail.\<close>

lemma restore_member_inv:
  assumes "manager_inv mgr" "key_ok (ms_PeerID ms)"
  shows "manager_inv (restore_member gid ms mgr)"
proof (cases "map_of (groups mgr) gid")
  case (Some grp)
  have "group_ok gid grp" by (rule manager_invD(4) [OF assms(1) Some])
  then have "group_ok gid (grp\<lparr>g_Members := AList.update (ms_PeerID ms) (member_of ms) (g_Members grp)\<rparr>)"
    using assms(2) by (auto simp: group_ok_def member_ok_def key_ok_def member_of_def skall_maps AList.distinct_update)
  then show ?thesis
    using assms(1) Some manager_inv_put_group [OF assms(1), of gid] by (simp add: restore_member_def member_of_def)
qed (use assms(1) in \<open>simp add: restore_member_def\<close>)

lemma restore_group_inv:
  assumes "manager_inv mgr" "key_ok (sg_GroupID sg)" "key_ok (sg_Name sg)"
  shows "manager_inv (restore_group sg mgr)"
  unfolding restore_group_def
  by (rule manager_inv_new_group [OF assms(1)])
    (use assms(2,3) in \<open>simp_all add: group_ok_def key_ok_def seen_ok_def maxSeenPerGroup_def\<close>)

lemma ListGroupMembers_keys:
  assumes "db_inv d" "ListGroupMembers drv g d = Inr mss" "ms \<in> set mss"
  shows "key_ok (ms_PeerID ms)"
proof -
  obtain r where r: "r \<in> set (db_memberships d)" "ms = scan_membership r"
    using assms(2,3) by (auto simp: ListGroupMembers_def query_def Let_def split: if_splits option.splits)
  have "map_of (db_memberships d) (fst (fst r), snd (fst r)) = Some (snd r)"
    using assms(1) r(1) by (simp add: db_inv_def)
  from db_inv_membershipD(4) [OF assms(1) this] show ?thesis by (simp add: r(2) scan_membership_def)
qed

lemma load_groups_inv:
  assumes "db_inv d"
  shows "(\<And>sg. sg \<in> set sgs \<Longrightarrow> key_ok (sg_GroupID sg) \<and> key_ok (sg_Name sg)) \<Longrightarrow> manager_inv mgr
    \<Longrightarrow> manager_inv (load_groups drv i d sgs mgr)"
proof (induction sgs arbitrary: i mgr)
  case (Cons sg sgs)
  have fold_inv: "(\<And>ms. ms \<in> set mss \<Longrightarrow> key_ok (ms_PeerID ms)) \<Longrightarrow> manager_inv m \<Longrightarrow> manager_inv (fold (restore_member g) mss m)"
    for g mss m by (induction mss arbitrary: m) (simp_all add: restore_member_inv)
  have "manager_inv (restore_group sg mgr)"
    using Cons.prems by (simp add: restore_group_inv)
  then show ?case
    using Cons ListGroupMembers_keys [OF assms] fold_inv
    by (simp add: Let_def split: sum.split)
qed simp

lemma LoadFromStore_inv:
  assumes "db_inv d" "manager_inv mgr"
  shows "manager_inv (snd (LoadFromStore drv d mgr))"
proof -
  have k: "key_ok g \<and> key_ok (gr_name r)" if "map_of (db_groups d) g = Some r" for g r
    using assms(1) that unfolding db_inv_def by blast
  have "distinct (map fst (db_groups d))" using assms(1) by (simp add: db_inv_def)
  then have "key_ok g \<and> key_ok (gr_name r)" if "(g, r) \<in> set (db_groups d)" for g r
    using k map_of_is_SomeI that by fast
  then have "manager_inv (load_groups drv 1 d (map scan_group (sort_key fst (db_groups d))) mgr)"
    by (intro load_groups_inv [OF assms(1) _ assms(2)]) (auto simp: scan_group_def)
  then show ?thesis
    using assms(2) by (simp add: LoadFromStore_def store_ListGroups_def query_def split: option.split)
qed

lemma LoadFromStore_groups:
  assumes "db_ready d"
  shows "\<exists>m' new. LoadFromStore (\<lambda>_. no_faults) d mgr = (None, m')
    \<and> map_of (groups m') = new ++ map_of (groups mgr)
    \<and> dom new = dom (map_of (db_groups d)) - dom (map_of (groups mgr)) \<and> (\<forall>g grp. new g = Some grp \<longrightarrow> loaded d g grp)"
proof -
  have "distinct (map fst (db_groups d))" using assms by (simp add: db_ready_def db_inv_def)
  then have "\<forall>(g, r) \<in> set (sort_key fst (db_groups d)). map_of (db_groups d) g = Some r" by auto
  from load_groups_spec [OF assms this, of 1 mgr] on_table_ready(2) [OF assms] show ?thesis
    by (simp add: LoadFromStore_def store_ListGroups_def query_clean dom_map_of_conv_image_fst)
qed

lemma loaded_dir: "loaded d g grp \<Longrightarrow> db_dir d g = Some (fst ` set (g_Members grp))"
proof -
  assume l: "loaded d g grp"
  have "p \<in> fst ` set (g_Members grp) \<longleftrightarrow> (\<exists>r. map_of (db_memberships d) (g, p) = Some r \<and> mr_active r = 1)" for p
    using l member_iff [of grp p] by (auto simp: loaded_def split: option.splits if_splits)
  then show ?thesis using l by (auto simp: db_dir_def loaded_def)
qed

lemma restored_dir:
  assumes "db_ready d"
  shows "\<exists>m'. LoadFromStore (\<lambda>_. no_faults) d NewManager = (None, m') \<and> mgr_dir m' = db_dir d
    \<and> (\<forall>g grp. map_of (groups m') g = Some grp \<longrightarrow> loaded d g grp)"
proof -
  obtain m' new where m': "LoadFromStore (\<lambda>_. no_faults) d NewManager = (None, m')"
    "map_of (groups m') = new ++ map_of (groups NewManager)"
    "dom new = dom (map_of (db_groups d)) - dom (map_of (groups NewManager))" "\<forall>g grp. new g = Some grp \<longrightarrow> loaded d g grp"
    using LoadFromStore_groups [OF assms, of NewManager] by (elim exE conjE)
  have gs: "map_of (groups m') = new" "dom new = dom (map_of (db_groups d))"
    using m'(2,3) by (simp_all add: NewManager_def)
  have "mgr_dir m' g = db_dir d g" for g
  proof (cases "new g")
    case None
    then have "map_of (db_groups d) g = None" using gs(2) by (metis domIff)
    with None show ?thesis by (simp add: mgr_dir_def gs(1) db_dir_def)
  next
    case (Some grp)
    with m'(4) have "loaded d g grp" by blast
    with Some show ?thesis by (simp add: mgr_dir_def gs(1) loaded_dir)
  qed
  with m'(1,4) gs(1) show ?thesis by auto
qed

section \<open>Properties\<close>

text \<open>C8: A restart restores the groups: loading a fresh manager from the tables gives exactly the groups of
  the tables, with their names and times, and in each exactly the active members, with their
  join and last-seen times; members that left do not come back.\<close>

theorem LoadFromStore_restores:
  assumes "db_ready d"
  shows "\<exists>m'. LoadFromStore (\<lambda>_. no_faults) d NewManager = (None, m') \<and> mgr_dir m' = db_dir d
    \<and> (\<forall>g grp. map_of (groups m') g = Some grp \<longrightarrow> loaded d g grp)"
  by (rule restored_dir [OF assms])

theorem LoadFromStore_restores_witness:
  "\<exists>m'. LoadFromStore (\<lambda>_. no_faults) (store_join (\<lambda>_. 5, 5) ''g'' ''ann'' (store_create (\<lambda>_. 5, 5) ''g'' ''G'' fresh_db)) NewManager = (None, m')
     \<and> mgr_dir m' ''g'' = Some {''ann''}"
proof -
  let ?d = "store_join (\<lambda>_. 5, 5) ''g'' ''ann'' (store_create (\<lambda>_. 5, 5) ''g'' ''G'' fresh_db)"
  have t: "TrimSpace ''g'' = ''g''" "TrimSpace ''G'' = ''G''" by code_simp+
  have r: "db_ready ?d" using store_ops_ready fresh_db_ready by blast
  have "db_dir ?d ''g'' = Some {''ann''}"
    using fresh_db_ready store_ops_ready(1) [OF fresh_db_ready]
    by (simp add: store_join_dir store_create_dir t demo_trim db_dir_def fresh_db_messages)
  then show ?thesis using LoadFromStore_restores [OF r] by auto
qed

text \<open>Loading is idempotent and never overwrites: groups that the manager already has keep their record,
  and a second load changes no group.\<close>

theorem LoadFromStore_idempotent:
  assumes "db_ready d" "LoadFromStore (\<lambda>_. no_faults) d mgr = (r, m1)" "LoadFromStore (\<lambda>_. no_faults) d m1 = (r', m2)"
  shows "map_of (groups m2) = map_of (groups m1) \<and> map_of (groups mgr) \<subseteq>\<^sub>m map_of (groups m1)"
proof -
  obtain new where a: "map_of (groups m1) = new ++ map_of (groups mgr)"
    "dom new = dom (map_of (db_groups d)) - dom (map_of (groups mgr))"
    using LoadFromStore_groups [OF assms(1), of mgr] assms(2) by auto
  obtain new' where b: "map_of (groups m2) = new' ++ map_of (groups m1)"
    "dom new' = dom (map_of (db_groups d)) - dom (map_of (groups m1))"
    using LoadFromStore_groups [OF assms(1), of m1] assms(3) by auto
  have "dom new' = {}" using a b(2) by auto
  then have "new' = Map.empty" by simp
  with a b(1) show ?thesis by simp
qed

theorem LoadFromStore_idempotent_witness:
  "map_of (groups (snd (LoadFromStore (\<lambda>_. no_faults) fresh_db (snd (LoadFromStore (\<lambda>_. no_faults) fresh_db demo_manager)))))
     = map_of (groups (snd (LoadFromStore (\<lambda>_. no_faults) fresh_db demo_manager)))"
  using LoadFromStore_idempotent [OF fresh_db_ready prod.collapse [symmetric] prod.collapse [symmetric]] by blast

end
