(* ===== verification/Chat_Service.thy ===== *)
theory Chat_Service
  imports Group_Directory
begin

text \<open>
  The chat service of \<^verbatim>\<open>internal/chat\<close> (\<^verbatim>\<open>types.go\<close>, \<^verbatim>\<open>events.go\<close>, \<^verbatim>\<open>p2p_service.go\<close>): the
  implementation \<open>P2PService\<close> of \<open>ChatService\<close> over the store, the group manager and a p2p host.

  The state holds the database and the manager the service shares with the rest of the program,
  the cache of peer names, the status, and the subscribers. Channels have an identity (a caller
  keeps the channel after it was unsubscribed), so they live in a list \<open>svc_chans\<close> in the order of
  their creation and \<open>svc_subs\<close> is the fan-out list of their indices.

  The p2p host is the interface \<open>p2p.Host\<close>; what a call observes of it is an argument \<open>h\<close>: the text
  of peer ids, their decoding, the id of the local key, the connected peers and the outcome of a
  send. \<open>drv i\<close> are the faults of the \<open>i\<close>-th store call, \<open>clk\<close> the clock readings. Each locked section
  is atomic; the calls of the monitor goroutine and of the inbound handler are steps of their own.
\<close>

section \<open>Data\<close>

datatype ConversationType = ConversationDirect | ConversationGroup

record Conversation =
  cv_ID :: string
  cv_Name :: string
  cv_Type :: ConversationType
  cv_LastMessage :: string
  cv_LastAt :: time
  cv_Unread :: int

record DisplayMessage =
  dm_ID :: string
  dm_SenderID :: string
  dm_SenderName :: string
  dm_Body :: string
  dm_Timestamp :: time
  dm_IsOutbound :: bool

record ChatPeer =
  cp_PeerID :: string
  cp_DisplayName :: string
  cp_Connected :: bool
  cp_LastSeen :: time

record ChatGroup =
  cg_GroupID :: string
  cg_Name :: string
  cg_MemberCount :: int
  cg_CreatedAt :: time

datatype ConnectionStatus = StatusDisconnected | StatusConnecting | StatusConnected

fun status_String :: "ConnectionStatus \<Rightarrow> string" where
  "status_String StatusConnecting = ''Connecting''"
| "status_String StatusConnected = ''Connected''"
| "status_String StatusDisconnected = ''Disconnected''"

datatype EventKind = EventNewMessage | EventPeerConnected | EventPeerDisconnected | EventStatusChanged | EventError

record Event =
  ev_Kind :: EventKind
  ev_ConversationID :: string
  ev_Message :: DisplayMessage
  ev_Peer :: ChatPeer
  ev_Status :: ConnectionStatus
  ev_Err :: "string option"

definition no_message :: DisplayMessage where
  "no_message = \<lparr>dm_ID = [], dm_SenderID = [], dm_SenderName = [], dm_Body = [], dm_Timestamp = zero_time, dm_IsOutbound = False\<rparr>"

definition no_peer :: ChatPeer where
  "no_peer = \<lparr>cp_PeerID = [], cp_DisplayName = [], cp_Connected = False, cp_LastSeen = zero_time\<rparr>"

definition event :: "EventKind \<Rightarrow> Event" where
  "event k = \<lparr>ev_Kind = k, ev_ConversationID = [], ev_Message = no_message, ev_Peer = no_peer,
     ev_Status = StatusDisconnected, ev_Err = None\<rparr>"

definition new_message_event :: "string \<Rightarrow> DisplayMessage \<Rightarrow> Event" where
  "new_message_event conv dm = (event EventNewMessage)\<lparr>ev_ConversationID := conv, ev_Message := dm\<rparr>"

definition subscriberBuf :: nat where "subscriberBuf = 64"
definition maxSubs :: nat where "maxSubs = 16"
definition maxPeerIDLen :: int where "maxPeerIDLen = 512"

text \<open>The p2p host as the service sees it during a call.\<close>

record 'p host =
  h_String :: "'p \<Rightarrow> string"
  h_Decode :: "string \<Rightarrow> 'p option"
  h_Self :: "Identity \<Rightarrow> 'p option"
  h_Connected :: "'p list"
  h_Send :: "'p \<Rightarrow> Message \<Rightarrow> string option"

record P2PService =
  svc_local :: Identity
  svc_db :: Db
  svc_mgr :: Manager
  svc_peerNames :: "(string \<times> string) list"
  svc_chans :: "Event chan list"
  svc_subs :: "nat list"
  svc_status :: ConnectionStatus
  svc_lastCount :: int
  svc_cancelled :: bool

datatype chat_error =
    ErrResolvePeer string
  | ErrSendMessage string
  | ErrGroups group_error
  | ErrPersist string store_error
  | ErrTooManySubscribers

definition NewP2PService :: "Identity \<Rightarrow> Db \<Rightarrow> Manager \<Rightarrow> P2PService" where
  "NewP2PService loc d mgr = \<lparr>svc_local = loc, svc_db = d, svc_mgr = mgr, svc_peerNames = [], svc_chans = [],
     svc_subs = [], svc_status = StatusConnecting, svc_lastCount = 0, svc_cancelled = False\<rparr>"

section \<open>Helpers\<close>

definition shortID :: "string \<Rightarrow> string" where
  "shortID i = (if length i \<le> 8 then i else take 8 i @ [CHR 0xE2, CHR 0x80, CHR 0xA6])"

definition displayName :: "string \<Rightarrow> string \<Rightarrow> string" where
  "displayName peerID storedName = (if storedName \<noteq> [] \<and> storedName \<noteq> peerID then storedName else shortID peerID)"

definition getPeerName :: "P2PService \<Rightarrow> string \<Rightarrow> string" where
  "getPeerName s peerID =
     (case map_of (svc_peerNames s) peerID of
        Some name \<Rightarrow> if name \<noteq> [] then name else shortID peerID
      | None \<Rightarrow> shortID peerID)"

definition setPeerName :: "string \<Rightarrow> string \<Rightarrow> P2PService \<Rightarrow> P2PService" where
  "setPeerName peerID name s = s\<lparr>svc_peerNames := AList.update peerID name (svc_peerNames s)\<rparr>"

definition self_id :: "'p host \<Rightarrow> P2PService \<Rightarrow> string option" where
  "self_id h s = map_option (h_String h) (h_Self h (svc_local s))"

definition storedToDisplay :: "'p host \<Rightarrow> P2PService \<Rightarrow> StoredMessage \<Rightarrow> DisplayMessage" where
  "storedToDisplay h s sm =
     (let m = st_Message sm;
          mine = (SenderID m = i_PeerID (svc_local s) \<or> self_id h s = Some (SenderID m));
          name = (if mine then ''You'' else getPeerName s (SenderID m))
      in \<lparr>dm_ID = ID m, dm_SenderID = SenderID m, dm_SenderName = name, dm_Body = Body m,
          dm_Timestamp = Timestamp m, dm_IsOutbound = (st_Direction sm = DirectionOutbound)\<rparr>)"

definition toDisplayMessages :: "'p host \<Rightarrow> P2PService \<Rightarrow> StoredMessage list \<Rightarrow> DisplayMessage list" where
  "toDisplayMessages h s msgs = map (storedToDisplay h s) msgs"

definition connectedSet :: "'p host \<Rightarrow> string list" where
  "connectedSet h = map (h_String h) (h_Connected h)"

definition skallToLibP2P :: "'p host \<Rightarrow> string \<Rightarrow> chat_error + 'p" where
  "skallToLibP2P h peerID = (case h_Decode h peerID of Some p \<Rightarrow> Inr p | None \<Rightarrow> Inl (ErrResolvePeer peerID))"

definition isErrMemberAlreadyAdded :: "group_error \<Rightarrow> bool" where
  "isErrMemberAlreadyAdded e = (case e of ErrMemberAlreadyAdded _ \<Rightarrow> True | _ \<Rightarrow> False)"

definition isErrMemberNotFound :: "group_error \<Rightarrow> bool" where
  "isErrMemberNotFound e = (case e of ErrMemberNotFound _ \<Rightarrow> True | _ \<Rightarrow> False)"

definition isErrGroupNotFound :: "group_error \<Rightarrow> bool" where
  "isErrGroupNotFound e = (case e of ErrGroupNotFound _ \<Rightarrow> True | _ \<Rightarrow> False)"

section \<open>Subscribers\<close>

text \<open>
  \<open>publish\<close> offers the event to every subscriber and drops it where the buffer is full. A send on a
  closed channel would panic: the result tells whether one did.
\<close>

fun publish_to :: "Event \<Rightarrow> nat list \<Rightarrow> Event chan list \<Rightarrow> bool \<times> Event chan list" where
  "publish_to ev [] chs = (True, chs)"
| "publish_to ev (i # subs) chs =
     (case try_send ev (chs ! i) of
        (SendPanic, _) \<Rightarrow> (False, chs)
      | (_, ch) \<Rightarrow> publish_to ev subs (chs[i := ch]))"

definition publish :: "Event \<Rightarrow> P2PService \<Rightarrow> P2PService" where
  "publish ev s = s\<lparr>svc_chans := snd (publish_to ev (svc_subs s) (svc_chans s))\<rparr>"

definition publish_panics :: "Event \<Rightarrow> P2PService \<Rightarrow> bool" where
  "publish_panics ev s = (\<not> fst (publish_to ev (svc_subs s) (svc_chans s)))"

text \<open>\<open>Subscribe\<close> returns the index of the new channel; at the limit that channel is closed.\<close>

definition Subscribe :: "P2PService \<Rightarrow> nat \<times> P2PService" where
  "Subscribe s =
     (let n = length (svc_chans s); ch = make_chan subscriberBuf in
      if maxSubs \<le> length (svc_subs s) then (n, s\<lparr>svc_chans := svc_chans s @ [close_chan ch]\<rparr>)
      else (n, s\<lparr>svc_chans := svc_chans s @ [ch], svc_subs := svc_subs s @ [n]\<rparr>))"

definition SubscribeE :: "P2PService \<Rightarrow> (chat_error + nat) \<times> P2PService" where
  "SubscribeE s =
     (let n = length (svc_chans s); ch = make_chan subscriberBuf in
      if maxSubs \<le> length (svc_subs s) then (Inl ErrTooManySubscribers, s)
      else (Inr n, s\<lparr>svc_chans := svc_chans s @ [ch], svc_subs := svc_subs s @ [n]\<rparr>))"

definition Unsubscribe :: "nat \<Rightarrow> P2PService \<Rightarrow> P2PService" where
  "Unsubscribe i s =
     (if i \<in> set (svc_subs s)
      then s\<lparr>svc_subs := remove1 i (svc_subs s), svc_chans := (svc_chans s)[i := close_chan (svc_chans s ! i)]\<rparr>
      else s)"

text \<open>A receive by the owner of channel \<open>i\<close>.\<close>

definition receive :: "nat \<Rightarrow> P2PService \<Rightarrow> Event recv_outcome \<times> P2PService" where
  "receive i s = (let (r, ch) = recv (svc_chans s ! i) in (r, s\<lparr>svc_chans := (svc_chans s)[i := ch]\<rparr>))"

definition svc_Close :: "P2PService \<Rightarrow> P2PService" where
  "svc_Close s = s\<lparr>svc_cancelled := True, svc_subs := [],
     svc_chans := fold (\<lambda>i chs. chs[i := close_chan (chs ! i)]) (svc_subs s) (svc_chans s)\<rparr>"

section \<open>Queries\<close>

definition ConnectedPeerCount :: "'p host \<Rightarrow> int" where
  "ConnectedPeerCount h = len (h_Connected h)"

definition peer_conversation :: "'p host \<Rightarrow> faults \<Rightarrow> faults \<Rightarrow> P2PService \<Rightarrow> StorePeer \<Rightarrow> Conversation" where
  "peer_conversation h f1 f2 s p =
     (let myLibPID = (case self_id h s of Some i \<Rightarrow> i | None \<Rightarrow> []);
          first = ListDirectConversation f1 myLibPID (sp_PeerID p) 1 (svc_db s);
          msgs = (if (case first of Inl _ \<Rightarrow> True | Inr ms \<Rightarrow> ms = []) \<and> myLibPID \<noteq> i_PeerID (svc_local s)
                  then (case ListDirectConversation f2 (i_PeerID (svc_local s)) (sp_PeerID p) 1 (svc_db s) of
                          Inl _ \<Rightarrow> [] | Inr ms \<Rightarrow> ms)
                  else (case first of Inl _ \<Rightarrow> [] | Inr ms \<Rightarrow> ms))
      in \<lparr>cv_ID = sp_PeerID p, cv_Name = displayName (sp_PeerID p) (sp_DisplayName p), cv_Type = ConversationDirect,
          cv_LastMessage = (case msgs of [] \<Rightarrow> [] | m # _ \<Rightarrow> Body (st_Message m)),
          cv_LastAt = (case msgs of [] \<Rightarrow> sp_LastSeen p | m # _ \<Rightarrow> Timestamp (st_Message m)), cv_Unread = 0\<rparr>)"

definition group_conversation :: "faults \<Rightarrow> P2PService \<Rightarrow> string \<Rightarrow> Conversation option" where
  "group_conversation f s gID =
     (case GetGroup (svc_mgr s) gID of
        None \<Rightarrow> None
      | Some g \<Rightarrow>
          let msgs = (case ListGroupConversation f gID 1 (svc_db s) of Inl _ \<Rightarrow> [] | Inr ms \<Rightarrow> ms)
          in Some \<lparr>cv_ID = gID, cv_Name = g_Name g, cv_Type = ConversationGroup,
               cv_LastMessage = (case msgs of [] \<Rightarrow> [] | m # _ \<Rightarrow> Body (st_Message m)),
               cv_LastAt = (case msgs of [] \<Rightarrow> g_CreatedAt g | m # _ \<Rightarrow> Timestamp (st_Message m)), cv_Unread = 0\<rparr>)"

definition svc_ListConversations :: "'p host \<Rightarrow> faults tape \<Rightarrow> faults tape \<Rightarrow> P2PService \<Rightarrow> chat_error + Conversation list" where
  "svc_ListConversations h drv gdrv s =
     (case ListPeers (drv 0) (svc_db s) of
        Inl e \<Rightarrow> Inl (ErrPersist ''list peers'' e)
      | Inr peers \<Rightarrow>
          let me = self_id h s;
              others = filter (\<lambda>p. \<not> (sp_PeerID p = i_PeerID (svc_local s)
                 \<or> (me \<noteq> None \<and> me \<noteq> Some [] \<and> me = Some (sp_PeerID p)))) peers;
              direct = map (\<lambda>(k, p). peer_conversation h (drv (2 * k + 1)) (drv (2 * k + 2)) s p) (zip [0..<length others] others);
              gids = ListGroups (svc_mgr s);
              grps = List.map_filter (\<lambda>(k, g). group_conversation (gdrv k) s g) (zip [0..<length gids] gids)
          in Inr (direct @ grps))"

definition svc_ListGroups :: "P2PService \<Rightarrow> ChatGroup list" where
  "svc_ListGroups s =
     List.map_filter (\<lambda>i. map_option (\<lambda>g. \<lparr>cg_GroupID = g_ID g, cg_Name = g_Name g,
         cg_MemberCount = len (g_Members g), cg_CreatedAt = g_CreatedAt g\<rparr>) (GetGroup (svc_mgr s) i))
       (ListGroups (svc_mgr s))"

definition svc_ListPeers :: "'p host \<Rightarrow> faults \<Rightarrow> P2PService \<Rightarrow> store_error + ChatPeer list" where
  "svc_ListPeers h drv s =
     (case ListPeers drv (svc_db s) of
        Inl e \<Rightarrow> Inl e
      | Inr stored \<Rightarrow>
          Inr (map (\<lambda>p. \<lparr>cp_PeerID = sp_PeerID p, cp_DisplayName = displayName (sp_PeerID p) (sp_DisplayName p),
                cp_Connected = (sp_PeerID p \<in> set (connectedSet h)), cp_LastSeen = sp_LastSeen p\<rparr>)
             (filter (\<lambda>p. sp_PeerID p \<noteq> i_PeerID (svc_local s)) stored)))"

definition GetMessages :: "'p host \<Rightarrow> faults tape \<Rightarrow> string \<Rightarrow> int \<Rightarrow> P2PService \<Rightarrow> store_error + DisplayMessage list" where
  "GetMessages h drv conversationID limit0 s =
     (let limit = (if limit0 \<le> 0 then 100 else limit0) in
      if GetGroup (svc_mgr s) conversationID \<noteq> None
      then (case ListGroupConversation (drv 0) conversationID limit (svc_db s) of
              Inl e \<Rightarrow> Inl e
            | Inr ms \<Rightarrow> Inr (toDisplayMessages h s ms))
      else
        let myID = (case self_id h s of Some i \<Rightarrow> i | None \<Rightarrow> i_PeerID (svc_local s));
            first = ListDirectConversation (drv 0) myID conversationID limit (svc_db s);
            again = ((case first of Inl _ \<Rightarrow> True | Inr ms \<Rightarrow> ms = []) \<and> myID \<noteq> i_PeerID (svc_local s));
            msgs2 = (if again then (case ListDirectConversation (drv 1) (i_PeerID (svc_local s)) conversationID limit (svc_db s) of
                       Inl _ \<Rightarrow> [] | Inr ms \<Rightarrow> ms) else [])
        in if msgs2 \<noteq> [] then Inr (toDisplayMessages h s msgs2)
           else (case first of Inl e \<Rightarrow> Inl e | Inr ms \<Rightarrow> Inr (toDisplayMessages h s ms)))"

section \<open>Sending\<close>

definition sender_id :: "'p host \<Rightarrow> P2PService \<Rightarrow> string" where
  "sender_id h s = (case self_id h s of Some i \<Rightarrow> i | None \<Rightarrow> i_PeerID (svc_local s))"

definition set_status :: "faults \<Rightarrow> time \<Rightarrow> string \<Rightarrow> string \<Rightarrow> P2PService \<Rightarrow> P2PService" where
  "set_status drv now mid status s = s\<lparr>svc_db := snd (UpdateMessageStatus drv (\<lambda>_. now) mid status (svc_db s))\<rparr>"

definition outbound :: "Message \<Rightarrow> StoredMessage" where
  "outbound m = \<lparr>st_Message = m, st_Direction = DirectionOutbound, st_Status = StatusSent,
     st_CreatedAt = zero_time, st_UpdatedAt = zero_time\<rparr>"

text \<open>\<open>clk 0\<close> is the time of the message, \<open>clk 1\<close> that of the insert and \<open>clk 2\<close> that of the status update.\<close>

definition SendDirect :: "'p host \<Rightarrow> faults tape \<Rightarrow> time tape \<Rightarrow> string \<Rightarrow> string \<Rightarrow> P2PService
    \<Rightarrow> chat_error option \<times> P2PService" where
  "SendDirect h drv clk peerID body s =
     (let msg = NewChatMessage (clk 0) (sender_id h s) peerID [] body;
          s1 = s\<lparr>svc_db := snd (InsertMessage (drv 0) (\<lambda>_. clk 1) msg DirectionOutbound StatusPending (svc_db s))\<rparr>;
          s2 = setPeerName peerID peerID s1
      in case skallToLibP2P h peerID of
           Inl e \<Rightarrow> (Some e, set_status (drv 1) (clk 2) (ID msg) StatusFailed s2)
         | Inr libID \<Rightarrow>
             (case h_Send h libID msg of
                Some e \<Rightarrow> (Some (ErrSendMessage e), set_status (drv 1) (clk 2) (ID msg) StatusFailed s2)
              | None \<Rightarrow>
                  let s3 = set_status (drv 1) (clk 2) (ID msg) StatusSent s2
                  in (None, publish (new_message_event peerID (storedToDisplay h s3 (outbound msg))) s3)))"

text \<open>The members that the fan-out of \<open>SendGroup\<close> sends to, in order, with the decoded ids.\<close>

definition fanout :: "'p host \<Rightarrow> P2PService \<Rightarrow> string list \<Rightarrow> 'p list" where
  "fanout h s members =
     List.map_filter (\<lambda>memberID.
        if memberID = i_PeerID (svc_local s) then None
        else case skallToLibP2P h memberID of
               Inl _ \<Rightarrow> None
             | Inr libID \<Rightarrow> if memberID \<in> set (connectedSet h) then Some libID else None) members"

text \<open>The second component lists the peers the message was handed to, whatever \<open>SendMessage\<close> returned.\<close>

definition SendGroup :: "'p host \<Rightarrow> faults tape \<Rightarrow> time tape \<Rightarrow> string \<Rightarrow> string \<Rightarrow> P2PService
    \<Rightarrow> (chat_error option \<times> 'p list) \<times> P2PService" where
  "SendGroup h drv clk groupID body s =
     (case SendGroupMessage (clk 0) groupID (i_PeerID (svc_local s)) body (svc_mgr s) of
        Inl e \<Rightarrow> ((Some (ErrGroups e), []), s)
      | Inr msg \<Rightarrow>
          let s1 = s\<lparr>svc_db := snd (InsertMessage (drv 0) (\<lambda>_. clk 1) msg DirectionOutbound StatusPending (svc_db s))\<rparr>;
              members = (case ViewMembers (svc_mgr s1) groupID of Inl _ \<Rightarrow> [] | Inr ms \<Rightarrow> ms);
              sent = fanout h s1 members;
              s2 = set_status (drv 1) (clk 2) (ID msg) StatusSent s1
          in ((None, sent), publish (new_message_event groupID (storedToDisplay h s2 (outbound msg))) s2))"

section \<open>Groups\<close>

definition svc_CreateGroup :: "faults \<Rightarrow> time tape \<Rightarrow> string \<Rightarrow> string \<Rightarrow> P2PService \<Rightarrow> chat_error option \<times> P2PService" where
  "svc_CreateGroup drv clk groupID name s =
     (case CreateGroup (clk 0) groupID name (svc_mgr s) of
        (Inl e, m) \<Rightarrow> (Some (ErrGroups e), s\<lparr>svc_mgr := m\<rparr>)
      | (Inr g, m) \<Rightarrow>
          (case UpsertGroup drv (\<lambda>k. clk (k + 1)) (g_ID g) (g_Name g) (g_CreatedAt g) (svc_db s) of
             (Some e, d) \<Rightarrow> (Some (ErrPersist ''chat: persist group'' e), s\<lparr>svc_mgr := m, svc_db := d\<rparr>)
           | (None, d) \<Rightarrow> (None, s\<lparr>svc_mgr := m, svc_db := d\<rparr>)))"

definition svc_JoinGroup :: "faults \<Rightarrow> time tape \<Rightarrow> string \<Rightarrow> string \<Rightarrow> P2PService \<Rightarrow> chat_error option \<times> P2PService" where
  "svc_JoinGroup drv clk groupID peerID s =
     (let now = clk 0 in
      case AddMember (clk 1) groupID peerID (svc_mgr s) of
        (err, m) \<Rightarrow>
          if (case err of Some e \<Rightarrow> \<not> isErrMemberAlreadyAdded e | None \<Rightarrow> False)
          then (Some (ErrGroups (the err)), s\<lparr>svc_mgr := m\<rparr>)
          else (case SetGroupMembership drv (\<lambda>k. clk (k + 2)) groupID peerID now True now (svc_db s) of
                  (Some e, d) \<Rightarrow> (Some (ErrPersist ''chat: persist membership'' e), s\<lparr>svc_mgr := m, svc_db := d\<rparr>)
                | (None, d) \<Rightarrow> (None, s\<lparr>svc_mgr := m, svc_db := d\<rparr>)))"

definition svc_LeaveGroup :: "faults \<Rightarrow> time tape \<Rightarrow> string \<Rightarrow> string \<Rightarrow> P2PService \<Rightarrow> chat_error option \<times> P2PService" where
  "svc_LeaveGroup drv clk groupID peerID s =
     (case LeaveGroup (clk 0) groupID peerID (svc_mgr s) of
        (err, m) \<Rightarrow>
          if (case err of Some e \<Rightarrow> \<not> isErrMemberNotFound e | None \<Rightarrow> False)
          then (Some (ErrGroups (the err)), s\<lparr>svc_mgr := m\<rparr>)
          else
            let now = clk 1
            in case SetGroupMembership drv (\<lambda>k. clk (k + 2)) groupID peerID now False now (svc_db s) of
                 (Some e, d) \<Rightarrow> (Some (ErrPersist ''chat: persist leave membership'' e), s\<lparr>svc_mgr := m, svc_db := d\<rparr>)
               | (None, d) \<Rightarrow> (None, s\<lparr>svc_mgr := m, svc_db := d\<rparr>))"

definition svc_DeleteGroup :: "faults \<Rightarrow> string \<Rightarrow> P2PService \<Rightarrow> chat_error option \<times> P2PService" where
  "svc_DeleteGroup drv groupID s =
     (case DeleteGroup groupID (svc_mgr s) of
        (err, m) \<Rightarrow>
          if (case err of Some e \<Rightarrow> \<not> isErrGroupNotFound e | None \<Rightarrow> False)
          then (Some (ErrGroups (the err)), s\<lparr>svc_mgr := m\<rparr>)
          else (case store_DeleteGroup drv groupID (svc_db s) of
                  (Some e, d) \<Rightarrow> (Some (ErrPersist ''chat: delete group from store'' e), s\<lparr>svc_mgr := m, svc_db := d\<rparr>)
                | (None, d) \<Rightarrow> (None, s\<lparr>svc_mgr := m, svc_db := d\<rparr>)))"

section \<open>Inbound messages and the monitor\<close>

definition handleInbound :: "'p host \<Rightarrow> faults tape \<Rightarrow> time tape \<Rightarrow> Message \<Rightarrow> 'p \<Rightarrow> P2PService \<Rightarrow> P2PService" where
  "handleInbound h drv clk msg from_id s =
     (let senderID = h_String h from_id in
      if maxPeerIDLen < len senderID then s
      else
        let d1 = snd (UpsertPeer (drv 0) (\<lambda>k. clk (k + 1)) senderID senderID (clk 0) (svc_db s));
            d2 = snd (InsertMessage (drv 1) (\<lambda>_. clk 3) msg DirectionInbound StatusReceived d1);
            s1 = s\<lparr>svc_db := d2\<rparr>;
            convID = (if GroupID msg \<noteq> [] then GroupID msg else senderID);
            dm = \<lparr>dm_ID = ID msg, dm_SenderID = senderID, dm_SenderName = getPeerName s1 senderID, dm_Body = Body msg,
                  dm_Timestamp = Timestamp msg, dm_IsOutbound = False\<rparr>
        in publish (new_message_event convID dm) s1)"

text \<open>One tick of \<open>monitorPeers\<close>.\<close>

definition monitor_tick :: "'p host \<Rightarrow> faults tape \<Rightarrow> time tape \<Rightarrow> P2PService \<Rightarrow> P2PService" where
  "monitor_tick h drv clk s =
     (let count = len (h_Connected h);
          d = fold (\<lambda>(k, p) d. snd (UpsertPeer (drv k) (\<lambda>j. clk (j + 1)) (h_String h p) (h_String h p) (clk 0) d))
                (zip [0..<length (h_Connected h)] (h_Connected h)) (svc_db s);
          newStatus = (if 0 < count then StatusConnected else StatusConnecting);
          changed = (svc_status s \<noteq> newStatus);
          s1 = s\<lparr>svc_db := d, svc_status := newStatus\<rparr>;
          s2 = (if changed then publish ((event EventStatusChanged)\<lparr>ev_Status := newStatus\<rparr>) s1 else s1)
      in if count \<noteq> svc_lastCount s2 then publish (event EventPeerConnected) (s2\<lparr>svc_lastCount := count\<rparr>)
         else s2)"

end
