(* ===== verification/Chat_Laws.thy ===== *)
theory Chat_Laws
  imports Chat_Service
begin

text \<open>
  What the chat service guarantees: its invariant under every interleaving of calls, inbound
  messages, monitor ticks, subscriptions and receives, with any driver faults; the agreement of
  the in-memory groups with the tables; the fan-out of events; and the outcome of sends.
\<close>

section \<open>Fan-out\<close>

definition subs_ok :: "P2PService \<Rightarrow> bool" where
  "subs_ok s \<longleftrightarrow> distinct (svc_subs s) \<and> length (svc_subs s) \<le> maxSubs
     \<and> (\<forall>i \<in> set (svc_subs s). i < length (svc_chans s) \<and> \<not> chan_closed (svc_chans s ! i))
     \<and> (\<forall>ch \<in> set (svc_chans s). chan_ok ch \<and> chan_cap ch = subscriberBuf)"

lemma publish_to_spec:
  assumes "distinct subs" "\<forall>i \<in> set subs. i < length chs \<and> \<not> chan_closed (chs ! i)"
  shows "fst (publish_to ev subs chs) \<and> length (snd (publish_to ev subs chs)) = length chs
    \<and> (\<forall>j < length chs. snd (publish_to ev subs chs) ! j = (if j \<in> set subs then snd (try_send ev (chs ! j)) else chs ! j))"
  using assms
proof (induction subs arbitrary: chs)
  case (Cons i subs)
  define o1 ch where "o1 = fst (try_send ev (chs ! i))" and "ch = snd (try_send ev (chs ! i))"
  then have t: "try_send ev (chs ! i) = (o1, ch)" "o1 \<noteq> SendPanic"
    using Cons.prems by (simp_all add: try_send_def)
  have "\<forall>j \<in> set subs. j < length (chs[i := ch]) \<and> \<not> chan_closed (chs[i := ch] ! j)"
    using Cons.prems by (auto simp: nth_list_update)
  with Cons.IH [of "chs[i := ch]"] Cons.prems(1)
  have IH: "fst (publish_to ev subs (chs[i := ch])) \<and> length (snd (publish_to ev subs (chs[i := ch]))) = length chs
    \<and> (\<forall>j < length chs. snd (publish_to ev subs (chs[i := ch])) ! j
        = (if j \<in> set subs then snd (try_send ev (chs[i := ch] ! j)) else chs[i := ch] ! j))" by simp
  have "publish_to ev (i # subs) chs = publish_to ev subs (chs[i := ch])"
    using t by (cases o1) simp_all
  moreover have "(if j \<in> set subs then snd (try_send ev (chs[i := ch] ! j)) else chs[i := ch] ! j)
      = (if j \<in> set (i # subs) then snd (try_send ev (chs ! j)) else chs ! j)" if "j < length chs" for j
    using t(1) Cons.prems that by (cases "j = i") simp_all
  ultimately show ?case using IH by simp
qed simp

lemma publish_chans:
  assumes "subs_ok s"
  shows "\<not> publish_panics ev s" "length (svc_chans (publish ev s)) = length (svc_chans s)"
    "j < length (svc_chans s) \<Longrightarrow> svc_chans (publish ev s) ! j =
       (if j \<in> set (svc_subs s) then snd (try_send ev (svc_chans s ! j)) else svc_chans s ! j)"
  using publish_to_spec [of "svc_subs s" "svc_chans s" ev] assms
  by (simp_all add: subs_ok_def publish_panics_def publish_def)

lemma publish_sel [simp]:
  "svc_subs (publish ev s) = svc_subs s" "svc_db (publish ev s) = svc_db s" "svc_mgr (publish ev s) = svc_mgr s"
  "svc_local (publish ev s) = svc_local s" "svc_lastCount (publish ev s) = svc_lastCount s"
  by (simp_all add: publish_def)

lemma subs_ok_publish:
  assumes "subs_ok s"
  shows "subs_ok (publish ev s)"
proof -
  have "chan_ok ch \<and> chan_cap ch = subscriberBuf" if mem: "ch \<in> set (svc_chans (publish ev s))" for ch
  proof -
    obtain j where j: "j < length (svc_chans s)" "ch = svc_chans (publish ev s) ! j"
      using mem unfolding in_set_conv_nth publish_chans(2) [OF assms] by blast
    have "ch = snd (try_send ev (svc_chans s ! j)) \<or> ch = svc_chans s ! j"
      unfolding j(2) publish_chans(3) [OF assms j(1)] by simp
    moreover have "chan_ok (svc_chans s ! j) \<and> chan_cap (svc_chans s ! j) = subscriberBuf"
      using assms nth_mem [OF j(1)] by (simp add: subs_ok_def)
    ultimately show ?thesis by auto
  qed
  moreover have "i < length (svc_chans (publish ev s)) \<and> \<not> chan_closed (svc_chans (publish ev s) ! i)"
    if "i \<in> set (svc_subs s)" for i
    using that assms publish_chans(2) [OF assms, of ev] publish_chans(3) [OF assms, of i ev] by (simp add: subs_ok_def)
  ultimately show ?thesis
    using assms by (simp add: subs_ok_def)
qed

lemma subs_ok_cong:
  "svc_subs t = svc_subs s \<Longrightarrow> svc_chans t = svc_chans s \<Longrightarrow> subs_ok t = subs_ok s"
  by (simp add: subs_ok_def)

lemma subs_ok_update [simp]:
  "subs_ok (s\<lparr>svc_db := d\<rparr>) = subs_ok s" "subs_ok (s\<lparr>svc_mgr := m\<rparr>) = subs_ok s"
  "subs_ok (s\<lparr>svc_status := x\<rparr>) = subs_ok s" "subs_ok (s\<lparr>svc_lastCount := c\<rparr>) = subs_ok s"
  "subs_ok (s\<lparr>svc_peerNames := n\<rparr>) = subs_ok s"
  by (simp_all add: subs_ok_def)

lemma subs_ok_add:
  assumes "subs_ok s" "length (svc_subs s) < maxSubs"
  shows "subs_ok (s\<lparr>svc_chans := svc_chans s @ [make_chan subscriberBuf], svc_subs := svc_subs s @ [length (svc_chans s)]\<rparr>)"
proof -
  have "length (svc_chans s) \<notin> set (svc_subs s)" using assms(1) by (auto simp: subs_ok_def)
  then show ?thesis using assms by (simp add: subs_ok_def nth_append less_SucI)
qed

lemma subs_ok_add_closed:
  "subs_ok s \<Longrightarrow> subs_ok (s\<lparr>svc_chans := svc_chans s @ [close_chan (make_chan subscriberBuf)]\<rparr>)"
  by (simp add: subs_ok_def nth_append less_SucI)

lemma subs_ok_Subscribe: "subs_ok s \<Longrightarrow> subs_ok (snd (Subscribe s))"
  by (simp add: Subscribe_def Let_def subs_ok_add subs_ok_add_closed)

lemma subs_ok_SubscribeE: "subs_ok s \<Longrightarrow> subs_ok (snd (SubscribeE s))"
  by (simp add: SubscribeE_def Let_def subs_ok_add)

text \<open>Changing one channel, which keeps its capacity.\<close>

definition put_chan :: "nat \<Rightarrow> Event chan \<Rightarrow> P2PService \<Rightarrow> P2PService" where
  "put_chan i ch s = s\<lparr>svc_chans := (svc_chans s)[i := ch]\<rparr>"

lemma subs_ok_put_chan:
  assumes "subs_ok s" "chan_ok ch" "chan_cap ch = subscriberBuf" "i \<in> set (svc_subs s) \<Longrightarrow> \<not> chan_closed ch"
  shows "subs_ok (put_chan i ch s)"
proof -
  have "set ((svc_chans s)[i := ch]) \<subseteq> insert ch (set (svc_chans s))" by (rule set_update_subset_insert)
  then have "\<forall>c \<in> set ((svc_chans s)[i := ch]). chan_ok c \<and> chan_cap c = subscriberBuf"
    using assms(1-3) unfolding subs_ok_def by blast
  moreover have "\<not> chan_closed ((svc_chans s)[i := ch] ! j)" if "j \<in> set (svc_subs s)" for j
    using assms(1,4) that by (cases "i = j") (simp_all add: subs_ok_def)
  ultimately show ?thesis
    using assms(1) by (simp add: subs_ok_def put_chan_def)
qed

lemma subs_ok_receive:
  assumes "subs_ok s" "i < length (svc_chans s)"
  shows "subs_ok (snd (receive i s))"
proof -
  have "chan_ok (svc_chans s ! i) \<and> chan_cap (svc_chans s ! i) = subscriberBuf"
    using assms nth_mem [OF assms(2)] by (simp add: subs_ok_def)
  then have "subs_ok (put_chan i (snd (recv (svc_chans s ! i))) s)"
    using assms(1) by (intro subs_ok_put_chan) (simp_all add: subs_ok_def)
  then show ?thesis by (simp add: receive_def put_chan_def split_def Let_def)
qed

lemma subs_ok_Unsubscribe:
  assumes "subs_ok s"
  shows "subs_ok (Unsubscribe i s)"
proof (cases "i \<in> set (svc_subs s)")
  case True
  let ?s = "s\<lparr>svc_subs := remove1 i (svc_subs s)\<rparr>"
  have ok: "subs_ok ?s" "i \<notin> set (svc_subs ?s)"
    using assms by (auto simp: subs_ok_def length_remove1 dest: notin_set_remove1)
  have "chan_ok (svc_chans s ! i) \<and> chan_cap (svc_chans s ! i) = subscriberBuf"
    using assms True nth_mem [of i "svc_chans s"] by (simp add: subs_ok_def)
  then have "subs_ok (put_chan i (close_chan (svc_chans s ! i)) ?s)"
    using ok by (intro subs_ok_put_chan) simp_all
  then show ?thesis using True by (simp add: Unsubscribe_def put_chan_def)
qed (use assms in \<open>simp add: Unsubscribe_def\<close>)

lemma close_all_chans:
  assumes "\<forall>i \<in> set subs. i < length chs" "list_all (\<lambda>ch. chan_ok ch \<and> chan_cap ch = n) chs"
  shows "list_all (\<lambda>ch. chan_ok ch \<and> chan_cap ch = n) (fold (\<lambda>i chs. chs[i := close_chan (chs ! i)]) subs chs)"
  using assms
proof (induction subs arbitrary: chs)
  case (Cons i subs)
  have "list_all (\<lambda>ch. chan_ok ch \<and> chan_cap ch = n) (chs[i := close_chan (chs ! i)])"
    using Cons.prems by (simp add: list_all_length nth_list_update)
  then show ?case using Cons.IH [of "chs[i := close_chan (chs ! i)]"] Cons.prems(1) by simp
qed simp

lemma subs_ok_Close:
  assumes "subs_ok s"
  shows "subs_ok (svc_Close s)"
proof -
  have "list_all (\<lambda>ch. chan_ok ch \<and> chan_cap ch = subscriberBuf) (svc_chans (svc_Close s))"
    unfolding svc_Close_def
    using assms close_all_chans [of "svc_subs s" "svc_chans s" subscriberBuf] by (simp add: subs_ok_def list_all_iff)
  then show ?thesis unfolding subs_ok_def list_all_iff by (simp add: svc_Close_def)
qed

section \<open>The database and the directory under the operations\<close>

text \<open>Statements on peers and messages leave the groups alone and the schema in place.\<close>

definition groups_kept :: "Db \<Rightarrow> Db \<Rightarrow> bool" where
  "groups_kept d d' \<longleftrightarrow> db_groups d' = db_groups d \<and> db_memberships d' = db_memberships d
     \<and> schema_version d' = schema_version d"

lemma groups_kept_trans: "groups_kept a b \<Longrightarrow> groups_kept b c \<Longrightarrow> groups_kept a c"
  by (simp add: groups_kept_def)

lemma groups_kept_dir: "groups_kept d d' \<Longrightarrow> db_dir d' = db_dir d"
  by (simp add: groups_kept_def db_dir_def fun_eq_iff)

lemma UpsertPeer_kept: "groups_kept d (snd (UpsertPeer drv clk p n t d))"
  by (simp add: groups_kept_def UpsertPeer_def Let_def split: option.split)

lemma InsertMessage_kept: "groups_kept d (snd (InsertMessage drv clk m dr st d))"
  by (simp add: groups_kept_def InsertMessage_def Let_def split: option.split)

lemma UpdateMessageStatus_kept: "groups_kept d (snd (UpdateMessageStatus drv clk k st d))"
  by (simp add: groups_kept_def UpdateMessageStatus_def Let_def split: option.split)

lemma fold_UpsertPeer_kept:
  "db_inv d \<Longrightarrow> groups_kept d (fold (\<lambda>(k, p) d. snd (UpsertPeer (f k) c (g p) (g p) t d)) ps d)
     \<and> db_inv (fold (\<lambda>(k, p) d. snd (UpsertPeer (f k) c (g p) (g p) t d)) ps d)"
proof (induction ps arbitrary: d)
  case (Cons x ps)
  obtain k p where x: "x = (k, p)" by (cases x)
  let ?d = "snd (UpsertPeer (f k) c (g p) (g p) t d)"
  have "groups_kept d ?d" by (rule UpsertPeer_kept)
  with Cons.IH [of ?d, OF UpsertPeer_inv [OF Cons.prems]] show ?case
    by (simp add: x groups_kept_trans [of d ?d])
qed (simp add: groups_kept_def)

definition svc_inv :: "P2PService \<Rightarrow> bool" where
  "svc_inv s \<longleftrightarrow> subs_ok s \<and> db_ready (svc_db s) \<and> manager_inv (svc_mgr s)"

definition in_sync :: "P2PService \<Rightarrow> bool" where
  "in_sync s \<longleftrightarrow> mgr_dir (svc_mgr s) = db_dir (svc_db s)"

text \<open>A step that only touches peers, messages and subscribers.\<close>

lemma quiet_step:
  assumes "svc_inv s" "subs_ok t" "svc_mgr t = svc_mgr s" "db_inv (svc_db t)" "groups_kept (svc_db s) (svc_db t)"
  shows "svc_inv t \<and> (in_sync s \<longrightarrow> in_sync t)"
  using assms groups_kept_dir [OF assms(5)] by (simp add: svc_inv_def in_sync_def db_ready_def groups_kept_def)

lemma svc_invD:
  assumes "svc_inv s"
  shows "subs_ok s" "db_ready (svc_db s)" "db_inv (svc_db s)" "manager_inv (svc_mgr s)"
  using assms by (simp_all add: svc_inv_def db_ready_def)

text \<open>The status a direct send ends with.\<close>

definition send_status :: "'p host \<Rightarrow> string \<Rightarrow> Message \<Rightarrow> string" where
  "send_status h p m =
     (case skallToLibP2P h p of Inl _ \<Rightarrow> StatusFailed
      | Inr l \<Rightarrow> (case h_Send h l m of Some _ \<Rightarrow> StatusFailed | None \<Rightarrow> StatusSent))"

lemma SendDirect_db:
  fixes h s p b clk
  defines "m \<equiv> NewChatMessage (clk 0) (sender_id h s) p [] b"
  shows "svc_db (snd (SendDirect h drv clk p b s)) =
    snd (UpdateMessageStatus (drv 1) (\<lambda>_. clk 2) (ID m) (send_status h p m)
      (snd (InsertMessage (drv 0) (\<lambda>_. clk 1) m DirectionOutbound StatusPending (svc_db s))))"
  by (simp add: SendDirect_def m_def Let_def set_status_def setPeerName_def send_status_def split: sum.split option.split)

lemma SendDirect_quiet:
  assumes "svc_inv s"
  shows "svc_inv (snd (SendDirect h drv clk p b s)) \<and> (in_sync s \<longrightarrow> in_sync (snd (SendDirect h drv clk p b s)))"
proof (rule quiet_step [OF assms])
  show "subs_ok (snd (SendDirect h drv clk p b s))"
    using svc_invD(1) [OF assms]
    by (simp add: SendDirect_def Let_def set_status_def setPeerName_def subs_ok_publish split: sum.split option.split)
  show "svc_mgr (snd (SendDirect h drv clk p b s)) = svc_mgr s"
    by (simp add: SendDirect_def Let_def set_status_def setPeerName_def split: sum.split option.split)
  note db = SendDirect_db [of h drv clk p b s]
  show "db_inv (svc_db (snd (SendDirect h drv clk p b s)))"
    unfolding db by (intro UpdateMessageStatus_inv InsertMessage_inv svc_invD(3) [OF assms])
  show "groups_kept (svc_db s) (svc_db (snd (SendDirect h drv clk p b s)))"
    unfolding db by (rule groups_kept_trans [OF InsertMessage_kept UpdateMessageStatus_kept])
qed

lemma SendGroup_quiet:
  assumes "svc_inv s"
  shows "svc_inv (snd (SendGroup h drv clk g b s)) \<and> (in_sync s \<longrightarrow> in_sync (snd (SendGroup h drv clk g b s)))"
proof (cases "SendGroupMessage (clk 0) g (i_PeerID (svc_local s)) b (svc_mgr s)")
  case (Inl e)
  then show ?thesis using assms by (simp add: SendGroup_def)
next
  case (Inr msg)
  have db: "svc_db (snd (SendGroup h drv clk g b s)) = snd (UpdateMessageStatus (drv 1) (\<lambda>_. clk 2) (ID msg) StatusSent
      (snd (InsertMessage (drv 0) (\<lambda>_. clk 1) msg DirectionOutbound StatusPending (svc_db s))))"
    by (simp add: SendGroup_def Inr Let_def set_status_def)
  show ?thesis
  proof (rule quiet_step [OF assms])
    show "subs_ok (snd (SendGroup h drv clk g b s))"
      using svc_invD(1) [OF assms] by (simp add: SendGroup_def Inr Let_def set_status_def subs_ok_publish)
    show "svc_mgr (snd (SendGroup h drv clk g b s)) = svc_mgr s"
      by (simp add: SendGroup_def Inr Let_def set_status_def)
    show "db_inv (svc_db (snd (SendGroup h drv clk g b s)))"
      unfolding db by (intro UpdateMessageStatus_inv InsertMessage_inv svc_invD(3) [OF assms])
    show "groups_kept (svc_db s) (svc_db (snd (SendGroup h drv clk g b s)))"
      unfolding db by (rule groups_kept_trans [OF InsertMessage_kept UpdateMessageStatus_kept])
  qed
qed

lemma handleInbound_quiet:
  assumes "svc_inv s"
  shows "svc_inv (handleInbound h drv clk m p s) \<and> (in_sync s \<longrightarrow> in_sync (handleInbound h drv clk m p s))"
proof (cases "maxPeerIDLen < len (h_String h p)")
  case False
  have db: "svc_db (handleInbound h drv clk m p s) = snd (InsertMessage (drv 1) (\<lambda>_. clk 3) m DirectionInbound StatusReceived
      (snd (UpsertPeer (drv 0) (\<lambda>k. clk (k + 1)) (h_String h p) (h_String h p) (clk 0) (svc_db s))))"
    using False by (simp add: handleInbound_def Let_def)
  show ?thesis
  proof (rule quiet_step [OF assms])
    show "subs_ok (handleInbound h drv clk m p s)"
      using False svc_invD(1) [OF assms] by (simp add: handleInbound_def Let_def subs_ok_publish)
    show "svc_mgr (handleInbound h drv clk m p s) = svc_mgr s"
      using False by (simp add: handleInbound_def Let_def)
    show "db_inv (svc_db (handleInbound h drv clk m p s))"
      unfolding db by (intro InsertMessage_inv UpsertPeer_inv svc_invD(3) [OF assms])
    show "groups_kept (svc_db s) (svc_db (handleInbound h drv clk m p s))"
      unfolding db by (rule groups_kept_trans [OF UpsertPeer_kept InsertMessage_kept])
  qed
qed (use assms in \<open>simp add: handleInbound_def\<close>)

lemma monitor_quiet:
  assumes "svc_inv s"
  shows "svc_inv (monitor_tick h drv clk s) \<and> (in_sync s \<longrightarrow> in_sync (monitor_tick h drv clk s))"
proof (rule quiet_step [OF assms])
  have db: "svc_db (monitor_tick h drv clk s) =
      fold (\<lambda>(k, p) d. snd (UpsertPeer (drv k) (\<lambda>j. clk (j + 1)) (h_String h p) (h_String h p) (clk 0) d))
        (zip [0..<length (h_Connected h)] (h_Connected h)) (svc_db s)"
    by (simp add: monitor_tick_def Let_def)
  show "subs_ok (monitor_tick h drv clk s)"
    using svc_invD(1) [OF assms] by (simp add: monitor_tick_def Let_def subs_ok_publish)
  show "svc_mgr (monitor_tick h drv clk s) = svc_mgr s" by (simp add: monitor_tick_def Let_def)
  show "db_inv (svc_db (monitor_tick h drv clk s))" "groups_kept (svc_db s) (svc_db (monitor_tick h drv clk s))"
    unfolding db using fold_UpsertPeer_kept [OF svc_invD(3) [OF assms]] by blast+
qed

section \<open>Group commands\<close>

text \<open>
  Each command has the shape: the manager's method, then, unless it failed in an unexpected way,
  the store's method with the same arguments.
\<close>

definition both :: "P2PService \<Rightarrow> Manager \<Rightarrow> Db \<Rightarrow> P2PService" where
  "both s m d = s\<lparr>svc_mgr := m, svc_db := d\<rparr>"

lemma both_inv: "svc_inv s \<Longrightarrow> manager_inv m \<Longrightarrow> db_ready d \<Longrightarrow> svc_inv (both s m d)"
  by (simp add: svc_inv_def both_def)

lemma both_same: "both s m (svc_db s) = s\<lparr>svc_mgr := m\<rparr>"
  by (simp add: both_def)

lemma db_ready_step:
  assumes "db_ready d" "db_inv d'" "schema_version d' = schema_version d"
  shows "db_ready d'"
  using assms by (simp add: db_ready_def)

lemma group_ops_ready:
  assumes "db_ready d"
  shows "db_ready (snd (UpsertGroup drv clk g n t d))" "db_ready (snd (SetGroupMembership drv clk g p j a l d))"
    "db_ready (snd (store_DeleteGroup drv g d))"
proof -
  have inv: "db_inv d" using assms by (simp add: db_ready_def)
  have v: "schema_version d' = schema_version d" if "UpsertPeer drv clk' p' n' t' d = (e, d')" for clk' p' n' t' e d'
    using that UpsertPeer_kept [of d drv clk' p' n' t'] by (simp add: groups_kept_def)
  show "db_ready (snd (UpsertGroup drv clk g n t d))"
    by (rule db_ready_step [OF assms UpsertGroup_inv [OF inv]]) (simp add: UpsertGroup_def Let_def split: option.split)
  show "db_ready (snd (SetGroupMembership drv clk g p j a l d))"
    by (rule db_ready_step [OF assms SetGroupMembership_inv [OF inv]])
      (simp add: SetGroupMembership_def Let_def v split: option.split prod.split)
  show "db_ready (snd (store_DeleteGroup drv g d))"
    by (rule db_ready_step [OF assms store_DeleteGroup_inv [OF inv]]) (simp add: store_DeleteGroup_def Let_def split: option.split)
qed

lemma svc_CreateGroup_both:
  "snd (svc_CreateGroup drv clk g n s) =
     (case CreateGroup (clk 0) g n (svc_mgr s) of
        (Inl e, m) \<Rightarrow> both s m (svc_db s)
      | (Inr grp, m) \<Rightarrow> both s m (snd (UpsertGroup drv (\<lambda>k. clk (k + 1)) (g_ID grp) (g_Name grp) (g_CreatedAt grp) (svc_db s))))"
  by (auto simp: svc_CreateGroup_def both_def split: prod.split sum.split option.split)

lemma svc_JoinGroup_both:
  "snd (svc_JoinGroup drv clk g p s) =
     both s (snd (AddMember (clk 1) g p (svc_mgr s)))
       (case fst (AddMember (clk 1) g p (svc_mgr s)) of
          Some e \<Rightarrow> if isErrMemberAlreadyAdded e then snd (SetGroupMembership drv (\<lambda>k. clk (k + 2)) g p (clk 0) True (clk 0) (svc_db s)) else svc_db s
        | None \<Rightarrow> snd (SetGroupMembership drv (\<lambda>k. clk (k + 2)) g p (clk 0) True (clk 0) (svc_db s)))"
  by (cases "AddMember (clk 1) g p (svc_mgr s)";
      cases "SetGroupMembership drv (\<lambda>k. clk (k + 2)) g p (clk 0) True (clk 0) (svc_db s)")
    (simp add: svc_JoinGroup_def both_def Let_def split: option.split)

lemma svc_LeaveGroup_both:
  "snd (svc_LeaveGroup drv clk g p s) =
     both s (snd (LeaveGroup (clk 0) g p (svc_mgr s)))
       (case fst (LeaveGroup (clk 0) g p (svc_mgr s)) of
          Some e \<Rightarrow> if isErrMemberNotFound e then snd (SetGroupMembership drv (\<lambda>k. clk (k + 2)) g p (clk 1) False (clk 1) (svc_db s)) else svc_db s
        | None \<Rightarrow> snd (SetGroupMembership drv (\<lambda>k. clk (k + 2)) g p (clk 1) False (clk 1) (svc_db s)))"
  by (cases "LeaveGroup (clk 0) g p (svc_mgr s)";
      cases "SetGroupMembership drv (\<lambda>k. clk (k + 2)) g p (clk 1) False (clk 1) (svc_db s)")
    (simp add: svc_LeaveGroup_def both_def Let_def split: option.split)

lemma svc_DeleteGroup_both:
  "snd (svc_DeleteGroup drv g s) =
     both s (snd (DeleteGroup g (svc_mgr s)))
       (case fst (DeleteGroup g (svc_mgr s)) of
          Some e \<Rightarrow> if isErrGroupNotFound e then snd (store_DeleteGroup drv g (svc_db s)) else svc_db s
        | None \<Rightarrow> snd (store_DeleteGroup drv g (svc_db s)))"
  by (cases "DeleteGroup g (svc_mgr s)"; cases "store_DeleteGroup drv g (svc_db s)")
    (simp add: svc_DeleteGroup_def both_def Let_def split: option.split)

lemma group_commands_inv:
  assumes "svc_inv s"
  shows "svc_inv (snd (svc_CreateGroup drv clk g n s))" "svc_inv (snd (svc_JoinGroup drv clk g p s))"
    "svc_inv (snd (svc_LeaveGroup drv clk g p s))" "svc_inv (snd (svc_DeleteGroup drv g s))"
proof -
  note i = svc_invD [OF assms]
  have c: "manager_inv m" if "CreateGroup (clk 0) g n (svc_mgr s) = (r, m)" for r m
    using CreateGroup_inv [OF i(4), of "clk 0" g n] that by simp
  show "svc_inv (snd (svc_CreateGroup drv clk g n s))"
    unfolding svc_CreateGroup_both using assms c i(2)
    by (auto intro!: both_inv group_ops_ready split: prod.split sum.split)
  show "svc_inv (snd (svc_JoinGroup drv clk g p s))"
    unfolding svc_JoinGroup_both using assms i
    by (auto intro!: both_inv AddMember_inv group_ops_ready split: option.split)
  show "svc_inv (snd (svc_LeaveGroup drv clk g p s))"
    unfolding svc_LeaveGroup_both using assms i
    by (auto intro!: both_inv LeaveGroup_inv group_ops_ready split: option.split)
  show "svc_inv (snd (svc_DeleteGroup drv g s))"
    unfolding svc_DeleteGroup_both using assms i
    by (auto intro!: both_inv DeleteGroup_inv group_ops_ready split: option.split)
qed

text \<open>An error that stops a command before the store leaves the directory of the manager alone.\<close>

lemma manager_errors:
  "CreateGroup now g n m = (Inl e, m') \<Longrightarrow> m' = m"
  "AddMember now g p m = (Some e, m') \<Longrightarrow> m' = m"
  "LeaveGroup now g p m = (Some e, m') \<Longrightarrow> m' = m"
  "DeleteGroup g m = (Some e, m') \<Longrightarrow> m' = m"
  by (auto simp: CreateGroup_def AddMember_def LeaveGroup_def removeMember_def DeleteGroup_def Let_def
      split: if_splits option.splits)

lemma CreateGroup_result:
  "CreateGroup now g n m = (Inr grp, m') \<Longrightarrow> g_ID grp = TrimSpace g \<and> g_Name grp = TrimSpace n \<and> g_CreatedAt grp = now"
  by (auto simp: CreateGroup_def Let_def split: if_splits)

lemma sync_both:
  assumes "in_sync s" "mgr_dir m' = spec_step c (mgr_dir (svc_mgr s))" "db_dir d' = spec_step c (db_dir (svc_db s))"
  shows "in_sync (both s m' d')"
  using assms by (simp add: in_sync_def both_def)

lemma sync_CreateGroup:
  assumes "svc_inv s" "in_sync s"
  shows "in_sync (snd (svc_CreateGroup no_faults clk g n s))"
proof (cases "CreateGroup (clk 0) g n (svc_mgr s)")
  case (Pair r m)
  note i = svc_invD [OF assms(1)]
  have dir: "mgr_dir m = spec_step (DirCreate g n) (mgr_dir (svc_mgr s))"
    using mdir.dir_create [OF i(4), of "clk 0" g n] Pair by simp
  show ?thesis
  proof (cases r)
    case (Inl e)
    then show ?thesis
      using manager_errors(1) [of "clk 0" g n "svc_mgr s" e m] Pair assms(2)
      by (simp add: svc_CreateGroup_both both_def in_sync_def)
  next
    case (Inr grp)
    note r = CreateGroup_result [OF Pair [unfolded Inr]]
    have "db_dir (snd (UpsertGroup no_faults (\<lambda>k. clk (k + 1)) (TrimSpace g) (TrimSpace n) (clk 0) (svc_db s)))
        = spec_step (DirCreate g n) (db_dir (svc_db s))"
      using sdir.dir_create [OF i(2), of "(\<lambda>k. clk (k + 1), clk 0)" "TrimSpace g" "TrimSpace n"] by (simp add: store_create_def)
    then have "db_dir (snd (UpsertGroup no_faults (\<lambda>k. clk (k + 1)) (g_ID grp) (g_Name grp) (g_CreatedAt grp) (svc_db s)))
        = spec_step (DirCreate g n) (db_dir (svc_db s))" by (simp only: r)
    from sync_both [OF assms(2) dir this] show ?thesis
      by (simp only: svc_CreateGroup_both Pair Inr prod.case sum.case)
  qed
qed

lemma sync_JoinGroup:
  assumes "svc_inv s" "in_sync s"
  shows "in_sync (snd (svc_JoinGroup no_faults clk g p s))"
proof -
  note i = svc_invD [OF assms(1)]
  let ?d = "snd (SetGroupMembership no_faults (\<lambda>k. clk (k + 2)) g p (clk 0) True (clk 0) (svc_db s))"
  have "in_sync (both s (snd (AddMember (clk 1) g p (svc_mgr s))) ?d)"
    using sdir.dir_join [OF i(2), of "(\<lambda>k. clk (k + 2), clk 0)" g p] mdir.dir_join [OF i(4), of "clk 1" g p]
    by (intro sync_both [OF assms(2), of _ "DirJoin g p"]) (simp_all only: store_join_def fst_conv snd_conv)
  moreover have "snd (AddMember (clk 1) g p (svc_mgr s)) = svc_mgr s" if "fst (AddMember (clk 1) g p (svc_mgr s)) = Some e" for e
    using manager_errors(2) that by (metis prod.collapse)
  ultimately show ?thesis
    unfolding svc_JoinGroup_both using assms(2) by (auto simp: in_sync_def both_def split: option.split)
qed

lemma sync_LeaveGroup:
  assumes "svc_inv s" "in_sync s"
  shows "in_sync (snd (svc_LeaveGroup no_faults clk g p s))"
proof -
  note i = svc_invD [OF assms(1)]
  let ?d = "snd (SetGroupMembership no_faults (\<lambda>k. clk (k + 2)) g p (clk 1) False (clk 1) (svc_db s))"
  have "in_sync (both s (snd (LeaveGroup (clk 0) g p (svc_mgr s))) ?d)"
    using sdir.dir_leave [OF i(2), of "(\<lambda>k. clk (k + 2), clk 1)" g p] mdir.dir_leave [OF i(4), of "clk 0" g p]
    by (intro sync_both [OF assms(2), of _ "DirLeave g p"]) (simp_all only: store_leave_def fst_conv snd_conv)
  moreover have "snd (LeaveGroup (clk 0) g p (svc_mgr s)) = svc_mgr s" if "fst (LeaveGroup (clk 0) g p (svc_mgr s)) = Some e" for e
    using manager_errors(3) that by (metis prod.collapse)
  ultimately show ?thesis
    unfolding svc_LeaveGroup_both using assms(2) by (auto simp: in_sync_def both_def split: option.split)
qed

lemma sync_DeleteGroup:
  assumes "svc_inv s" "in_sync s"
  shows "in_sync (snd (svc_DeleteGroup no_faults g s))"
proof -
  note i = svc_invD [OF assms(1)]
  have "in_sync (both s (snd (DeleteGroup g (svc_mgr s))) (snd (store_DeleteGroup no_faults g (svc_db s))))"
    using sdir.dir_drp [OF i(2), of _ g] mdir.dir_drp [OF i(4), of g]
    by (intro sync_both [OF assms(2), of _ "DirDrop g"]) (simp_all only: store_drop_def)
  moreover have "snd (DeleteGroup g (svc_mgr s)) = svc_mgr s" if "fst (DeleteGroup g (svc_mgr s)) = Some e" for e
    using manager_errors(4) that by (metis prod.collapse)
  ultimately show ?thesis
    unfolding svc_DeleteGroup_both using assms(2) by (auto simp: in_sync_def both_def split: option.split)
qed

section \<open>Reachable states\<close>

text \<open>
  A step is any call of the service, an inbound message, a tick of the monitor or a receive by a
  subscriber. \<open>H\<close> says which hosts occur and \<open>F\<close> which faults: \<open>\<lambda>_. True\<close> for any, \<open>fault_free\<close> for none.
\<close>

definition fault_free :: "faults tape \<Rightarrow> bool" where
  "fault_free drv \<longleftrightarrow> drv = (\<lambda>_. no_faults)"

inductive svc_step :: "('p host \<Rightarrow> bool) \<Rightarrow> (faults tape \<Rightarrow> bool) \<Rightarrow> P2PService \<Rightarrow> P2PService \<Rightarrow> bool"
  for H F where
  step_send: "H h \<Longrightarrow> F drv \<Longrightarrow> svc_step H F s (snd (SendDirect h drv clk p b s))"
| step_send_group: "H h \<Longrightarrow> F drv \<Longrightarrow> svc_step H F s (snd (SendGroup h drv clk g b s))"
| step_create: "F drv \<Longrightarrow> svc_step H F s (snd (svc_CreateGroup (drv 0) clk g n s))"
| step_join: "F drv \<Longrightarrow> svc_step H F s (snd (svc_JoinGroup (drv 0) clk g p s))"
| step_leave: "F drv \<Longrightarrow> svc_step H F s (snd (svc_LeaveGroup (drv 0) clk g p s))"
| step_drop: "F drv \<Longrightarrow> svc_step H F s (snd (svc_DeleteGroup (drv 0) g s))"
| step_inbound: "H h \<Longrightarrow> F drv \<Longrightarrow> svc_step H F s (handleInbound h drv clk m q s)"
| step_monitor: "H h \<Longrightarrow> F drv \<Longrightarrow> svc_step H F s (monitor_tick h drv clk s)"
| step_subscribe: "svc_step H F s (snd (Subscribe s))"
| step_subscribeE: "svc_step H F s (snd (SubscribeE s))"
| step_unsubscribe: "svc_step H F s (Unsubscribe i s)"
| step_receive: "i < length (svc_chans s) \<Longrightarrow> svc_step H F s (snd (receive i s))"
| step_close: "svc_step H F s (svc_Close s)"

inductive_simps svc_step_simps: "svc_step H F s t"

text \<open>Start-up: the store was opened, and the manager is loaded from it.\<close>

definition svc_init :: "P2PService \<Rightarrow> bool" where
  "svc_init s \<longleftrightarrow> (\<exists>loc d. db_reachable d \<and> db_ready d
     \<and> s = NewP2PService loc d (snd (LoadFromStore (\<lambda>_. no_faults) d NewManager)))"

lemma NewManager_inv: "manager_inv NewManager"
  by (simp add: NewManager_def manager_inv_def)

lemma svc_init_ok: "svc_init s \<Longrightarrow> svc_inv s \<and> in_sync s"
proof -
  assume "svc_init s"
  then obtain loc d where d: "db_ready d" "s = NewP2PService loc d (snd (LoadFromStore (\<lambda>_. no_faults) d NewManager))"
    by (auto simp: svc_init_def)
  obtain m' where "LoadFromStore (\<lambda>_. no_faults) d NewManager = (None, m')" "mgr_dir m' = db_dir d"
    using restored_dir [OF d(1)] by blast
  moreover have "manager_inv (snd (LoadFromStore (\<lambda>_. no_faults) d NewManager))"
    using d(1) NewManager_inv by (simp add: LoadFromStore_inv db_ready_def)
  ultimately show ?thesis
    using d by (simp add: svc_inv_def in_sync_def NewP2PService_def subs_ok_def)
qed

lemma subscriber_quiet:
  assumes "svc_inv s"
  shows "svc_inv (snd (Subscribe s))" "in_sync (snd (Subscribe s)) = in_sync s"
    "svc_inv (snd (SubscribeE s))" "in_sync (snd (SubscribeE s)) = in_sync s"
    "svc_inv (Unsubscribe i s)" "in_sync (Unsubscribe i s) = in_sync s"
    "i < length (svc_chans s) \<Longrightarrow> svc_inv (snd (receive i s))" "in_sync (snd (receive i s)) = in_sync s"
    "svc_inv (svc_Close s)" "in_sync (svc_Close s) = in_sync s"
  using assms subs_ok_Subscribe [of s] subs_ok_SubscribeE [of s] subs_ok_Unsubscribe [of s i] subs_ok_receive [of s i]
    subs_ok_Close [of s]
  by (simp_all add: svc_inv_def in_sync_def Subscribe_def SubscribeE_def Unsubscribe_def receive_def svc_Close_def
      Let_def split_def)

lemma svc_step_inv: "svc_step H F s t \<Longrightarrow> svc_inv s \<Longrightarrow> svc_inv t"
  by (induction rule: svc_step.induct)
    (simp_all add: SendDirect_quiet SendGroup_quiet group_commands_inv handleInbound_quiet monitor_quiet subscriber_quiet)

lemma svc_step_sync: "svc_step H fault_free s t \<Longrightarrow> svc_inv s \<Longrightarrow> in_sync s \<Longrightarrow> in_sync t"
  by (induction rule: svc_step.induct)
    (simp_all add: SendDirect_quiet SendGroup_quiet handleInbound_quiet monitor_quiet subscriber_quiet fault_free_def
      sync_CreateGroup sync_JoinGroup sync_LeaveGroup sync_DeleteGroup)

interpretation svc: invariant_system svc_init "svc_step H F" svc_inv for H F
  by unfold_locales (auto dest: svc_init_ok intro: svc_step_inv)

interpretation svc_sync: invariant_system svc_init "svc_step H fault_free" "\<lambda>s. svc_inv s \<and> in_sync s" for H
  by unfold_locales (auto dest: svc_init_ok intro: svc_step_inv svc_step_sync)

abbreviation svc_reachable :: "('p host \<Rightarrow> bool) \<Rightarrow> (faults tape \<Rightarrow> bool) \<Rightarrow> P2PService \<Rightarrow> bool" where
  "svc_reachable H F \<equiv> reach svc_init (svc_step H F)"

text \<open>A service on a fresh database and a small network, for the witnesses.\<close>

definition demo_svc :: P2PService where
  "demo_svc = NewP2PService demo_identity fresh_db (snd (LoadFromStore (\<lambda>_. no_faults) fresh_db NewManager))"

definition demo_host :: "string host" where
  "demo_host = \<lparr>h_String = (\<lambda>p. p), h_Decode = Some, h_Self = (\<lambda>_. Some ''me''), h_Connected = [''bob'', ''eve''],
     h_Send = (\<lambda>p m. if p = ''bob'' then None else Some ''unreachable'')\<rparr>"

lemma demo_svc_reachable: "svc_reachable H F demo_svc"
  unfolding demo_svc_def
  by (rule reach_init) (use fresh_db_reachable fresh_db_ready in \<open>auto simp: svc_init_def\<close>)

lemma demo_svc_groups: "groups (svc_mgr demo_svc) = []" "svc_subs demo_svc = []" "svc_chans demo_svc = []"
  "svc_db demo_svc = fresh_db"
proof -
  have "store_ListGroups no_faults fresh_db = Inr []"
    using on_table_ready(2) [OF fresh_db_ready] by (simp add: store_ListGroups_def query_clean fresh_db_messages)
  then show "groups (svc_mgr demo_svc) = []" "svc_subs demo_svc = []" "svc_chans demo_svc = []" "svc_db demo_svc = fresh_db"
    by (simp_all add: demo_svc_def NewP2PService_def LoadFromStore_def NewManager_def)
qed

section \<open>Properties\<close>



text \<open>C9: Publishing never panics and never blocks: in every reachable state, also with driver faults, each
  subscriber whose buffer has room gets the event appended exactly once, a subscriber whose
  buffer is full loses it, and no other channel changes.\<close>

theorem publish_delivers:
  assumes "svc_reachable H F s" "j < length (svc_chans s)"
  shows "\<not> publish_panics ev s \<and> chan_buf (svc_chans (publish ev s) ! j) =
    (if j \<in> set (svc_subs s) \<and> length (chan_buf (svc_chans s ! j)) < 64
     then chan_buf (svc_chans s ! j) @ [ev] else chan_buf (svc_chans s ! j))"
proof -
  have ok: "subs_ok s" using svc.reach_inv [OF assms(1)] by (simp add: svc_inv_def)
  then have cap: "chan_cap (svc_chans s ! j) = 64" using nth_mem [OF assms(2)] by (simp add: subs_ok_def subscriberBuf_def)
  have "\<not> chan_closed (svc_chans s ! j)" if "j \<in> set (svc_subs s)" using ok that by (simp add: subs_ok_def)
  then show ?thesis
    using publish_chans(1,3) [OF ok] assms(2) by (simp add: try_send_def cap)
qed

theorem publish_delivers_witness:
  "chan_buf (svc_chans (publish (event EventError) (snd (Subscribe demo_svc))) ! 0) = [event EventError]"
  using publish_delivers [OF reach_step [OF demo_svc_reachable step_subscribe], of 0 "event EventError"]
  by (simp add: Subscribe_def demo_svc_groups Let_def maxSubs_def make_chan_def)

text \<open>There are never more than 16 subscribers. The 17th \<open>Subscribe\<close> does not fail: it returns a channel
  that is already closed and that no event will ever reach, so a caller that keeps subscribing
  without unsubscribing, as the event loop of the user interface does, goes deaf.\<close>

theorem subscription_limit:
  assumes "svc_reachable H F s"
  shows "length (svc_subs s) \<le> 16
    \<and> (length (svc_subs s) = 16 \<longrightarrow>
         fst (SubscribeE s) = Inl ErrTooManySubscribers
         \<and> fst (receive (fst (Subscribe s)) (publish ev (snd (Subscribe s)))) = RecvClosed)"
proof -
  have ok: "subs_ok s" using svc.reach_inv [OF assms] by (simp add: svc_inv_def)
  have "fst (receive (fst (Subscribe s)) (publish ev (snd (Subscribe s)))) = RecvClosed" if full: "length (svc_subs s) = 16"
  proof -
    let ?s = "snd (Subscribe s)" and ?n = "length (svc_chans s)"
    have s: "?s = s\<lparr>svc_chans := svc_chans s @ [close_chan (make_chan subscriberBuf)]\<rparr>" "fst (Subscribe s) = ?n"
      using full by (simp_all add: Subscribe_def Let_def maxSubs_def)
    have "?n \<notin> set (svc_subs ?s)" using ok by (auto simp: s subs_ok_def)
    then have "svc_chans (publish ev ?s) ! ?n = close_chan (make_chan subscriberBuf)"
      using publish_chans(3) [OF subs_ok_Subscribe [OF ok], of ?n ev] by (simp add: s)
    then show ?thesis by (simp add: s(2) receive_def Let_def split_def recv_def make_chan_def close_chan_def)
  qed
  then show ?thesis
    using ok by (simp add: subs_ok_def maxSubs_def SubscribeE_def Let_def)
qed

lemma many_subscribers:
  "svc_reachable H F (((\<lambda>s. snd (Subscribe s)) ^^ n) demo_svc)
   \<and> length (svc_subs (((\<lambda>s. snd (Subscribe s)) ^^ n) demo_svc)) = min n 16"
proof (induction n)
  case (Suc n)
  let ?s = "((\<lambda>s. snd (Subscribe s)) ^^ n) demo_svc"
  have "svc_reachable H F (snd (Subscribe ?s))"
    by (rule reach_step [OF conjunct1 [OF Suc.IH] step_subscribe])
  moreover have "length (svc_subs (snd (Subscribe ?s))) = min (Suc n) 16"
    using Suc.IH by (simp add: Subscribe_def Let_def maxSubs_def)
  ultimately show ?case by simp
qed (simp add: demo_svc_reachable demo_svc_groups)

theorem subscription_limit_witness:
  "\<exists>s. length (svc_subs s) = 16 \<and> fst (receive (fst (Subscribe s)) (publish (event EventError) (snd (Subscribe s)))) = RecvClosed"
  using subscription_limit [OF many_subscribers [of _ _ 16, THEN conjunct1], of "event EventError"]
    many_subscribers [of _ _ 16, THEN conjunct2] by fastforce

text \<open>C10: A direct send leaves its outcome in the store: the message is there, outbound, with the local peer as
  sender, with status sent when \<open>SendDirect\<close> returned no error and failed when it returned one
  (the recipient id cannot be decoded, or the host refuses the message).\<close>

theorem SendDirect_records_outcome:
  fixes h :: "'p host"
  assumes "svc_reachable H F s" "printable_time (clk 0)"
    and "Validate (NewChatMessage (clk 0) (sender_id h s) p [] b) = None"
    and "map_of (db_messages (svc_db s)) (FormatInt (UnixNano (clk 0))) = None"
  shows "\<exists>x. GetMessage no_faults (FormatInt (UnixNano (clk 0))) (svc_db (snd (SendDirect h (\<lambda>_. no_faults) clk p b s))) = Inr x
    \<and> st_Message x = (NewChatMessage (clk 0) (sender_id h s) p [] b)\<lparr>RecipientID := TrimSpace p\<rparr>
    \<and> st_Direction x = ''outbound''
    \<and> st_Status x = (if fst (SendDirect h (\<lambda>_. no_faults) clk p b s) = None then ''sent'' else ''failed'')"
proof -
  let ?m = "NewChatMessage (clk 0) (sender_id h s) p [] b" and ?id = "FormatInt (UnixNano (clk 0))"
  let ?d1 = "snd (InsertMessage no_faults (\<lambda>_. clk 1) ?m DirectionOutbound StatusPending (svc_db s))"
  let ?r = "message_row_of ?m DirectionOutbound StatusPending (nowUTC (clk 1))"
  let ?d2 = "svc_db (snd (SendDirect h (\<lambda>_. no_faults) clk p b s))"
  have ready: "db_ready (svc_db s)" using svc.reach_inv [OF assms(1)] by (simp add: svc_inv_def)
  have ins: "map_of (db_messages ?d1) ?id = Some ?r"
    using InsertMessage_ready [OF ready assms(3)] assms(4) by (simp add: skall_maps DirectionOutbound_def StatusPending_def)
  have t1: "on_table None ''messages'' ?d1 = None"
    by (rule on_table_ready(4) [OF InsertMessage_keeps_ready [OF ready]])
  have st: "send_status h p ?m = (if fst (SendDirect h (\<lambda>_. no_faults) clk p b s) = None then ''sent'' else ''failed'')"
    by (simp add: send_status_def SendDirect_def Let_def StatusSent_def StatusFailed_def split: sum.split option.split)
  then have ne: "send_status h p ?m \<noteq> []" by simp
  have d2: "?d2 = ?d1\<lparr>db_messages := AList.update ?id (?r\<lparr>row_status := send_status h p ?m, row_updated_at := nowUTC (clk 2)\<rparr>) (db_messages ?d1)\<rparr>"
    unfolding SendDirect_db using ne t1 ins by (simp add: UpdateMessageStatus_def Let_def)
  have "on_table None ''messages'' ?d2 = None" using t1 by (simp add: d2 on_table_def)
  then have "GetMessage no_faults ?id ?d2 =
      Inr (scanStoredMessage (?id, ?r\<lparr>row_status := send_status h p ?m, row_updated_at := nowUTC (clk 2)\<rparr>))"
    by (simp add: GetMessage_def Let_def d2 skall_maps)
  then show ?thesis
    using assms(2) st
    by (simp add: scanStoredMessage_def message_row_of_def DirectionOutbound_def NewChatMessage_def)
qed

lemma demo_now: "printable_time 5" "Validate (NewChatMessage 5 ''me'' ''bob'' [] ''hi'') = None"
  by code_simp+

theorem SendDirect_records_outcome_witness:
  "\<exists>x. GetMessage no_faults (FormatInt (UnixNano 5)) (svc_db (snd (SendDirect demo_host (\<lambda>_. no_faults) (\<lambda>_. 5) ''bob'' ''hi'' demo_svc))) = Inr x
     \<and> st_Direction x = ''outbound'' \<and> st_Status x = ''sent''"
proof -
  have snd: "sender_id demo_host demo_svc = ''me''" "fst (SendDirect demo_host (\<lambda>_. no_faults) (\<lambda>_. 5) ''bob'' ''hi'' demo_svc) = None"
    by (simp_all add: sender_id_def self_id_def demo_host_def SendDirect_def Let_def skallToLibP2P_def)
  show ?thesis
    using SendDirect_records_outcome [OF demo_svc_reachable, of "\<lambda>_. 5" demo_host "''bob''" "''hi''"] demo_now
    by (auto simp: snd demo_svc_groups fresh_db_messages)
qed

text \<open>C22: A group message goes to exactly the members of the group that are connected under their member id and
  whose id decodes, other than the local peer, each once, and to nobody when the local peer is
  not a member.\<close>

theorem SendGroup_fanout:
  assumes "svc_reachable H F s" "map_of (groups (svc_mgr s)) g = Some grp" "TrimSpace b \<noteq> []"
    and "TrimSpace (i_PeerID (svc_local s)) = i_PeerID (svc_local s)"
  shows "snd (fst (SendGroup h drv clk g b s)) =
    (if map_of (g_Members grp) (i_PeerID (svc_local s)) = None \<or> i_PeerID (svc_local s) = [] then []
     else map (the \<circ> h_Decode h)
       (filter (\<lambda>p. p \<noteq> i_PeerID (svc_local s) \<and> p \<in> h_String h ` set (h_Connected h) \<and> h_Decode h p \<noteq> None)
         (sort (map fst (g_Members grp)))))"
proof -
  have inv: "manager_inv (svc_mgr s)" using svc.reach_inv [OF assms(1)] by (simp add: svc_inv_def)
  have k: "TrimSpace g = g" "g \<noteq> []" using manager_invD(4) [OF inv assms(2)] by (auto simp: group_ok_def)
  have fan: "fanout h t ms = map (the \<circ> h_Decode h)
      (filter (\<lambda>p. p \<noteq> i_PeerID (svc_local t) \<and> p \<in> h_String h ` set (h_Connected h) \<and> h_Decode h p \<noteq> None) ms)" for t ms
    by (induction ms) (auto simp: fanout_def List.map_filter_simps skallToLibP2P_def connectedSet_def split: option.split)
  show ?thesis
    using assms(2-4) k
    by (auto simp: SendGroup_def SendGroupMessage_def ViewMembers_def Let_def fan set_status_def)
qed

abbreviation demo_id :: string where
  "demo_id \<equiv> i_PeerID demo_identity"

lemma demo_id_props: "TrimSpace demo_id = demo_id" "demo_id \<noteq> []" "demo_id \<noteq> ''bob''"
proof -
  have id: "demo_id = hex (sha256 (i_PublicKey demo_identity))"
    by (simp add: demo_identity_def PeerIDFromPublicKey_def)
  then have "length demo_id = 64" by simp
  then show "demo_id \<noteq> []" "demo_id \<noteq> ''bob''" by auto
  show "TrimSpace demo_id = demo_id" unfolding id using visible_trimmed [OF hex_visible] by blast
qed

definition demo_group_svc :: P2PService where
  "demo_group_svc = snd (svc_JoinGroup no_faults (\<lambda>_. 5) ''g'' ''bob'' (snd (svc_JoinGroup no_faults (\<lambda>_. 5) ''g'' demo_id
     (snd (svc_CreateGroup no_faults (\<lambda>_. 5) ''g'' ''G'' demo_svc)))))"

lemma demo_group_reachable: "svc_reachable H (\<lambda>_. True) demo_group_svc"
proof -
  note create = step_create [where F = "\<lambda>_. True" and drv = "\<lambda>_. no_faults", OF TrueI]
    and join = step_join [where F = "\<lambda>_. True" and drv = "\<lambda>_. no_faults", OF TrueI]
  show ?thesis
    unfolding demo_group_svc_def by (rule reach_step [OF reach_step [OF reach_step [OF demo_svc_reachable create] join] join])
qed

lemma demo_group_members:
  "\<exists>grp. map_of (groups (svc_mgr demo_group_svc)) ''g'' = Some grp \<and> map fst (g_Members grp) = [demo_id, ''bob'']"
  "svc_local demo_group_svc = demo_identity"
proof -
  have t: "TrimSpace ''g'' = ''g''" "TrimSpace ''G'' = ''G''" by code_simp+
  have m: "svc_mgr (snd (svc_CreateGroup no_faults clk g n s)) = snd (CreateGroup (clk 0) g n (svc_mgr s))"
    "svc_local (snd (svc_CreateGroup no_faults clk g n s)) = svc_local s"
    "svc_local (snd (svc_JoinGroup no_faults clk g p s)) = svc_local s" for clk g n p s
    by (simp_all add: svc_CreateGroup_both svc_JoinGroup_both both_def split: prod.split sum.split)
  have j: "svc_mgr (snd (svc_JoinGroup no_faults clk g p s)) = snd (AddMember (clk 1) g p (svc_mgr s))" for clk g p s
    by (simp add: svc_JoinGroup_both both_def)
  show "\<exists>grp. map_of (groups (svc_mgr demo_group_svc)) ''g'' = Some grp \<and> map fst (g_Members grp) = [demo_id, ''bob'']"
    unfolding demo_group_svc_def m j
    using demo_id_props by (simp add: CreateGroup_def AddMember_def t demo_trim demo_svc_groups Let_def)
  show "svc_local demo_group_svc = demo_identity"
    by (simp add: demo_group_svc_def m demo_svc_def NewP2PService_def)
qed

theorem SendGroup_fanout_witness:
  "snd (fst (SendGroup demo_host (\<lambda>_. no_faults) (\<lambda>_. 5) ''g'' ''hi'' demo_group_svc)) = [''bob'']"
proof -
  obtain grp where grp: "map_of (groups (svc_mgr demo_group_svc)) ''g'' = Some grp" "map fst (g_Members grp) = [demo_id, ''bob'']"
    using demo_group_members(1) by (elim exE conjE)
  have mem: "map_of (g_Members grp) demo_id \<noteq> None" using grp(2) unfolding member_iff set_map [symmetric] by simp
  have hi: "TrimSpace ''hi'' \<noteq> []" by code_simp
  have loc: "TrimSpace (i_PeerID (svc_local demo_group_svc)) = i_PeerID (svc_local demo_group_svc)"
    by (simp add: demo_group_members(2) demo_id_props)
  have "filter (\<lambda>p. p \<noteq> demo_id \<and> p \<in> h_String demo_host ` set (h_Connected demo_host) \<and> h_Decode demo_host p \<noteq> None)
      (sort [demo_id, ''bob'']) = [''bob'']"
    unfolding filter_sort using demo_id_props(3) by (simp add: demo_host_def)
  then show ?thesis
    using SendGroup_fanout [OF demo_group_reachable grp(1) hi loc, of demo_host "\<lambda>_. no_faults" "\<lambda>_. 5"] mem demo_id_props(2)
    unfolding demo_group_members(2) grp(2) by (simp only: if_False simp_thms) (simp add: demo_host_def)
qed

lemma page_all: "len rows \<le> limit \<Longrightarrow> r \<in> set rows \<Longrightarrow> scanStoredMessage r \<in> set (page limit rows)"
  by (simp add: page_def)

lemma length_update_le: "length (AList.update k v xs) \<le> Suc (length xs)"
  by (induction xs) auto

lemma handleInbound_messages:
  assumes "db_ready (svc_db s)" "Validate m = None" "map_of (db_messages (svc_db s)) (ID m) = None" "length (h_String h q) \<le> 512"
  shows "db_messages (svc_db (handleInbound h (\<lambda>_. no_faults) clk m q s)) = AList.update (ID m)
      (message_row_of m DirectionInbound StatusReceived (nowUTC (clk 3))) (db_messages (svc_db s))"
    "db_ready (svc_db (handleInbound h (\<lambda>_. no_faults) clk m q s))"
proof -
  let ?d1 = "snd (UpsertPeer no_faults (\<lambda>k. clk (k + 1)) (h_String h q) (h_String h q) (clk 0) (svc_db s))"
  have r: "db_ready ?d1"
    by (rule db_ready_step [OF assms(1) UpsertPeer_inv])
      (use assms(1) UpsertPeer_kept [of "svc_db s" no_faults] in \<open>auto simp: db_ready_def groups_kept_def\<close>)
  have ms: "db_messages ?d1 = db_messages (svc_db s)" by (simp add: UpsertPeer_def Let_def split: option.split)
  have db: "svc_db (handleInbound h (\<lambda>_. no_faults) clk m q s) =
      snd (InsertMessage no_faults (\<lambda>_. clk 3) m DirectionInbound StatusReceived ?d1)"
    using assms(4) by (simp add: handleInbound_def Let_def maxPeerIDLen_def)
  show "db_messages (svc_db (handleInbound h (\<lambda>_. no_faults) clk m q s)) = AList.update (ID m)
      (message_row_of m DirectionInbound StatusReceived (nowUTC (clk 3))) (db_messages (svc_db s))"
    unfolding db using InsertMessage_ready [OF r assms(2)] assms(3) ms by (simp add: DirectionInbound_def StatusReceived_def)
  show "db_ready (svc_db (handleInbound h (\<lambda>_. no_faults) clk m q s))"
    unfolding db by (rule InsertMessage_keeps_ready [OF r])
qed

lemma handleInbound_sel [simp]:
  "svc_mgr (handleInbound h drv clk m q s) = svc_mgr s" "svc_local (handleInbound h drv clk m q s) = svc_local s"
  "svc_peerNames (handleInbound h drv clk m q s) = svc_peerNames s"
  by (simp_all add: handleInbound_def Let_def publish_def)

text \<open>C26: The comment in \<open>handleInbound\<close> promises that the authenticated peer id overrides the claimed sender.
  The event does carry the authenticated id, but the row is written from the message as it came:
  a connected peer that names another peer as sender makes its text appear in the history of the
  conversation with that other peer, under that peer's name.\<close>

theorem inbound_sender_spoofed:
  assumes "svc_reachable H F s" "Validate m = None" "map_of (db_messages (svc_db s)) (ID m) = None"
    and "length (h_String h q) \<le> 512" "h_String h q \<noteq> SenderID m"
    and "self_id h s = Some (RecipientID m)" "TrimSpace (RecipientID m) = RecipientID m" "RecipientID m \<noteq> []"
    and "TrimSpace (SenderID m) = SenderID m" "SenderID m \<noteq> RecipientID m" "SenderID m \<noteq> i_PeerID (svc_local s)"
    and "GroupID m = []" "GetGroup (svc_mgr s) (SenderID m) = None" "len (db_messages (svc_db s)) < limit"
  shows "\<exists>xs x. GetMessages h (\<lambda>_. no_faults) (SenderID m) limit (handleInbound h (\<lambda>_. no_faults) clk m q s) = Inr xs
    \<and> x \<in> set xs \<and> dm_ID x = ID m \<and> dm_Body x = Body m \<and> dm_SenderID x = SenderID m
    \<and> dm_SenderName x = getPeerName s (SenderID m)"
proof -
  let ?t = "handleInbound h (\<lambda>_. no_faults) clk m q s"
  let ?row = "(ID m, message_row_of m DirectionInbound StatusReceived (nowUTC (clk 3)))"
  let ?sel = "filter (direct_between (RecipientID m) (SenderID m)) (db_messages (svc_db ?t))"
  let ?x = "storedToDisplay h ?t (scanStoredMessage ?row)"
  have ready: "db_ready (svc_db s)" using svc.reach_inv [OF assms(1)] by (simp add: svc_inv_def)
  note hi = handleInbound_messages [OF ready assms(2-4), of clk]
  have "?row \<in> set ?sel"
    using map_of_SomeD [of "db_messages (svc_db ?t)" "fst ?row" "snd ?row"] assms(7,8,12)
    by (simp add: hi(1) skall_maps direct_between_def message_row_of_def nullIfEmpty_def Let_def)
  moreover have "len ?sel \<le> limit"
    using length_filter_le [of "direct_between (RecipientID m) (SenderID m)" "db_messages (svc_db ?t)"]
      length_update_le [of "fst ?row" "snd ?row" "db_messages (svc_db s)"] assms(14)
    unfolding hi(1) fst_conv snd_conv by linarith
  ultimately have row: "scanStoredMessage ?row \<in> set (page limit ?sel)" by (rule page_all [rotated])
  have self: "self_id h ?t = Some (RecipientID m)" using assms(6) by (simp add: self_id_def)
  have lim: "0 < limit" using assms(14) by linarith
  have ne: "SenderID m \<noteq> []" using valid_ids(2) [OF assms(2)] .
  have "ListDirectConversation no_faults (RecipientID m) (SenderID m) limit (svc_db ?t) = Inr (page limit ?sel)"
    using assms(7-9) ne lim on_table_ready(4) [OF hi(2)] by (simp add: ListDirectConversation_def Let_def query_clean)
  then have "GetMessages h (\<lambda>_. no_faults) (SenderID m) limit ?t = Inr (map (storedToDisplay h ?t) (page limit ?sel))"
    using assms(13) lim row by (simp add: GetMessages_def Let_def self toDisplayMessages_def) force
  moreover have "?x \<in> set (map (storedToDisplay h ?t) (page limit ?sel))" using row by simp
  moreover have "dm_ID ?x = ID m \<and> dm_Body ?x = Body m \<and> dm_SenderID ?x = SenderID m \<and> dm_SenderName ?x = getPeerName s (SenderID m)"
    using assms(10,11) by (simp add: storedToDisplay_def Let_def scanStoredMessage_def message_row_of_def self getPeerName_def)
  ultimately show ?thesis by blast
qed

definition spoofed :: Message where
  "spoofed = \<lparr>Version = 1, ID = ''m1'', Type = ''chat'', SenderID = ''bob'', RecipientID = ''me'', GroupID = [],
     Timestamp = 7, Body = ''pay eve''\<rparr>"

lemma spoofed_ok: "Validate spoofed = None" "TrimSpace ''me'' = ''me''" "TrimSpace ''bob'' = ''bob''"
  by code_simp+

lemma spoofed_sel: "ID spoofed = ''m1''" "SenderID spoofed = ''bob''" "RecipientID spoofed = ''me''" "GroupID spoofed = []"
  "Body spoofed = ''pay eve''"
  by (simp_all add: spoofed_def)

lemma demo_host_sel: "h_String demo_host p = p" "h_Self demo_host i = Some ''me''"
  by (simp_all add: demo_host_def)

lemma demo_name: "getPeerName demo_svc ''bob'' = ''bob''"
  by (simp add: demo_svc_def NewP2PService_def getPeerName_def shortID_def)

theorem inbound_sender_spoofed_witness:
  "\<exists>xs x. GetMessages demo_host (\<lambda>_. no_faults) ''bob'' 100 (handleInbound demo_host (\<lambda>_. no_faults) (\<lambda>_. 5) spoofed ''eve'' demo_svc) = Inr xs
     \<and> x \<in> set xs \<and> dm_Body x = ''pay eve'' \<and> dm_SenderID x = ''bob'' \<and> dm_SenderName x = ''bob''"
proof -
  have "svc_local demo_svc = demo_identity" by (simp add: demo_svc_def NewP2PService_def)
  then show ?thesis
    using inbound_sender_spoofed [OF demo_svc_reachable spoofed_ok(1), of demo_host "''eve''" 100 "\<lambda>_. 5"] spoofed_ok demo_id_props(3)
    by (fastforce simp: spoofed_sel demo_svc_groups fresh_db_messages self_id_def demo_host_sel GetGroup_def
        demo_name)
qed

end
