(* ===== verification/Go_Net.thy ===== *)
theory Go_Net
  imports Protocol
begin

text \<open>
  What the program uses of packages \<open>net\<close>, \<open>strings\<close> and \<open>path/filepath\<close>: \<open>net.SplitHostPort\<close> and
  \<open>net.JoinHostPort\<close>, \<open>strings.SplitN\<close>, \<open>strings.EqualFold\<close> against ASCII
  texts, and \<open>filepath.Clean\<close> and \<open>filepath.Join\<close> on Unix paths.
\<close>

section \<open>Searching bytes\<close>

fun index_of :: "char \<Rightarrow> string \<Rightarrow> nat option" where
  "index_of c [] = None"
| "index_of c (x # xs) = (if x = c then Some 0 else map_option Suc (index_of c xs))"

definition last_index_of :: "char \<Rightarrow> string \<Rightarrow> nat option" where
  "last_index_of c s = map_option (\<lambda>i. length s - 1 - i) (index_of c (rev s))"

lemma index_of_None: "index_of c s = None \<longleftrightarrow> c \<notin> set s"
  by (induction s) auto

lemma index_of_append: "c \<notin> set a \<Longrightarrow> index_of c (a @ c # b) = Some (length a)"
  by (induction a) auto

lemma index_of_Some: "index_of c s = Some i \<Longrightarrow> i < length s \<and> s ! i = c \<and> c \<notin> set (take i s)"
  by (induction s arbitrary: i) (auto simp: nth_Cons split: if_splits nat.split)

lemma last_index_of_append: "c \<notin> set b \<Longrightarrow> last_index_of c (a @ c # b) = Some (length a)"
  using index_of_append [of c "rev b" "rev a"] by (simp add: last_index_of_def)

section \<open>Host and port\<close>

datatype addr_error = MissingPort | TooManyColons | MissingBracket | UnexpectedOpen | UnexpectedClose

definition split_tail :: "string \<Rightarrow> string \<Rightarrow> nat \<Rightarrow> nat \<Rightarrow> nat \<Rightarrow> addr_error + (string \<times> string)" where
  "split_tail hp host i j k =
     (if CHR ''['' \<in> set (drop j hp) then Inl UnexpectedOpen
      else if CHR '']'' \<in> set (drop k hp) then Inl UnexpectedClose
      else Inr (host, drop (i + 1) hp))"

definition SplitHostPort :: "string \<Rightarrow> addr_error + (string \<times> string)" where
  "SplitHostPort hp =
     (case last_index_of (CHR '':'') hp of
        None \<Rightarrow> Inl MissingPort
      | Some i \<Rightarrow>
          if hd hp = CHR ''[''
          then (case index_of (CHR '']'') hp of
                  None \<Rightarrow> Inl MissingBracket
                | Some e \<Rightarrow>
                    if e + 1 = length hp then Inl MissingPort
                    else if e + 1 = i then split_tail hp (drop 1 (take e hp)) i 1 (e + 1)
                    else if hp ! (e + 1) = CHR '':'' then Inl TooManyColons
                    else Inl MissingPort)
          else if CHR '':'' \<in> set (take i hp) then Inl TooManyColons
          else split_tail hp (take i hp) i 0 0)"

definition JoinHostPort :: "string \<Rightarrow> string \<Rightarrow> string" where
  "JoinHostPort host port =
     (if CHR '':'' \<in> set host then ''['' @ host @ '']:'' @ port else host @ '':'' @ port)"

definition plain_part :: "string \<Rightarrow> bool" where
  "plain_part s \<longleftrightarrow> CHR ''['' \<notin> set s \<and> CHR '']'' \<notin> set s"

lemma Split_JoinHostPort:
  assumes "plain_part host" "plain_part port" "CHR '':'' \<notin> set port"
  shows "SplitHostPort (JoinHostPort host port) = Inr (host, port)"
proof (cases "CHR '':'' \<in> set host")
  case True
  let ?hp = "CHR ''['' # host @ CHR '']'' # CHR '':'' # port"
  have j: "JoinHostPort host port = ?hp" using True by (simp add: JoinHostPort_def)
  have l: "last_index_of (CHR '':'') ?hp = Some (length host + 2)"
    using last_index_of_append [OF assms(3), of "CHR ''['' # host @ [CHR '']'']"] by simp
  have r: "index_of (CHR '']'') (host @ CHR '']'' # CHR '':'' # port) = Some (length host)"
    using index_of_append [of "CHR '']''" host "CHR '':'' # port"] assms(1) by (simp add: plain_part_def)
  show ?thesis
    unfolding j using assms(1,2) by (simp add: SplitHostPort_def l r split_tail_def plain_part_def)
next
  case False
  let ?hp = "host @ CHR '':'' # port"
  have j: "JoinHostPort host port = ?hp" using False by (simp add: JoinHostPort_def)
  have l: "last_index_of (CHR '':'') ?hp = Some (length host)" by (rule last_index_of_append [OF assms(3)])
  have "hd ?hp \<noteq> CHR ''[''" using assms(1) by (cases host) (auto simp: plain_part_def)
  then show ?thesis
    unfolding j using assms(1,2) False by (simp add: SplitHostPort_def l split_tail_def plain_part_def)
qed

section \<open>Splitting\<close>

text \<open>\<open>strings.SplitN(s, sep, 2)\<close> for a separator of one byte, and \<open>strings.Split\<close>.\<close>

definition SplitN2 :: "char \<Rightarrow> string \<Rightarrow> string list" where
  "SplitN2 c s = (case index_of c s of None \<Rightarrow> [s] | Some i \<Rightarrow> [take i s, drop (Suc i) s])"

fun Split :: "char \<Rightarrow> string \<Rightarrow> string list" where
  "Split c [] = [[]]"
| "Split c (x # xs) =
     (if x = c then [] # Split c xs
      else case Split c xs of [] \<Rightarrow> [[x]] | w # ws \<Rightarrow> (x # w) # ws)"

lemma Split_nonempty [simp]: "Split c s \<noteq> []"
  by (induction s) (auto split: list.split)

lemma Split_parts: "w \<in> set (Split c s) \<Longrightarrow> c \<notin> set w"
  by (induction s arbitrary: w) (auto split: list.splits if_splits)

text \<open>
  \<open>strings.EqualFold(s, t)\<close> for an ASCII text \<open>t\<close>: besides the letters of the other case only
  U+212A folds to k and U+017F to s. The decoder of \<open>encoding/json\<close> folds object keys in the same way.
\<close>

fun fold_ascii :: "string \<Rightarrow> string" where
  "fold_ascii [] = []"
| "fold_ascii (c # s) =
     (if c = CHR 0xC5 \<and> has_prefix s [CHR 0xBF] then CHR ''s'' # fold_ascii (drop 1 s)
      else if c = CHR 0xE2 \<and> has_prefix s [CHR 0x84, CHR 0xAA] then CHR ''k'' # fold_ascii (drop 2 s)
      else lower_ascii c # fold_ascii s)"

definition EqualFold :: "string \<Rightarrow> string \<Rightarrow> bool" where
  "EqualFold s t \<longleftrightarrow> fold_ascii s = fold_ascii t"

section \<open>Paths\<close>

text \<open>
  \<open>filepath.Clean\<close> on Unix, on the elements of the path: empty elements and \<open>.\<close> vanish, \<open>..\<close> removes
  the element before it and stays only at the front of a relative path. The accumulator is
  the cleaned path in reverse.
\<close>

definition clean_step :: "bool \<Rightarrow> string \<Rightarrow> string list \<Rightarrow> string list" where
  "clean_step rooted w acc =
     (if w = [] \<or> w = ''.'' then acc
      else if w = ''..'' then
        (case acc of
           [] \<Rightarrow> if rooted then [] else [''..'']
         | x # xs \<Rightarrow> if x = ''..'' then ''..'' # acc else xs)
      else w # acc)"

definition join_with :: "char \<Rightarrow> string list \<Rightarrow> string" where
  "join_with c ws = (case ws of [] \<Rightarrow> [] | w # rest \<Rightarrow> w @ concat (map (\<lambda>v. c # v) rest))"

definition Clean :: "string \<Rightarrow> string" where
  "Clean p =
     (let rooted = (p \<noteq> [] \<and> hd p = CHR ''/'');
          ws = rev (fold (clean_step rooted) (Split (CHR ''/'') p) [])
      in if rooted then CHR ''/'' # join_with (CHR ''/'') ws
         else if ws = [] then ''.'' else join_with (CHR ''/'') ws)"

text \<open>\<open>filepath.Join\<close>: empty elements are ignored and the rest is joined and cleaned.\<close>

definition JoinPath :: "string list \<Rightarrow> string" where
  "JoinPath ps =
     (let qs = filter (\<lambda>p. p \<noteq> []) ps
      in if qs = [] then [] else Clean (join_with (CHR ''/'') qs))"

end
