(* ===== verification/Connection_Manager.thy ===== *)
theory Connection_Manager
  imports Go_Net
begin

text \<open>
  The connection manager of \<^verbatim>\<open>internal/network/connection/manager.go\<close>. \<open>Connect\<close> records the peer and
  spawns the goroutine \<open>run\<close>, which dials and then writes the outcome with \<open>markState\<close>. The map holds
  pointers: a \<open>peerState\<close> is identified by the number of the \<open>Connect\<close> that made it. The goroutines
  that have not finished their dial are the list \<open>cm_runs\<close>; a step \<open>run_done\<close> lets one of them finish
  with either outcome (a cancelled dial usually fails, but may already have succeeded).
\<close>

datatype ConnState = StateDisconnected | StateConnecting | StateConnected | StateFailed

fun ConnState_String :: "ConnState \<Rightarrow> string" where
  "ConnState_String StateDisconnected = ''disconnected''"
| "ConnState_String StateConnecting = ''connecting''"
| "ConnState_String StateConnected = ''connected''"
| "ConnState_String StateFailed = ''failed''"

record PeerStatus =
  ps_PeerID :: string
  ps_Endpoint :: string
  ps_State :: ConnState
  ps_UpdatedAt :: time

record peerState =
  pst_status :: PeerStatus
  pst_id :: nat

record conn_run =
  run_id :: nat
  run_peerID :: string
  run_endpoint :: string
  run_cancelled :: bool

record ConnManager =
  cm_peers :: "(string \<times> peerState) list"
  cm_runs :: "conn_run list"
  cm_next :: nat

definition NewConnManager :: ConnManager where
  "NewConnManager = \<lparr>cm_peers = [], cm_runs = [], cm_next = 0\<rparr>"

section \<open>Operations\<close>

definition is_blank :: "char \<Rightarrow> bool" where
  "is_blank c \<longleftrightarrow> c = CHR '' '' \<or> c = CHR 0x09 \<or> c = CHR 0x0A \<or> c = CHR 0x0D"

text \<open>The two loops of \<open>trim\<close>.\<close>

fun trim_front :: "string \<Rightarrow> string" where
  "trim_front [] = []"
| "trim_front (c # s) = (if is_blank c then trim_front s else c # s)"

function trim_back :: "string \<Rightarrow> string" where
  "trim_back s = (if s \<noteq> [] \<and> is_blank (last s) then trim_back (butlast s) else s)"
  by pat_completeness auto
termination
  by (relation "measure length") auto

declare trim_back.simps [simp del]

definition trim :: "string \<Rightarrow> string" where
  "trim v = trim_back (trim_front v)"

definition ValidateEndpoint :: "string \<Rightarrow> string option" where
  "ValidateEndpoint endpoint =
     (if trim endpoint = [] then Some ''endpoint is required''
      else case SplitHostPort endpoint of
        Inl e \<Rightarrow> Some ''invalid endpoint''
      | Inr (host, port) \<Rightarrow>
          if trim host = [] then Some ''endpoint host is required''
          else if trim port = [] then Some ''endpoint port is required''
          else None)"

definition cm_Connect :: "time \<Rightarrow> string \<Rightarrow> string \<Rightarrow> ConnManager \<Rightarrow> string option \<times> ConnManager" where
  "cm_Connect now peerID0 endpoint0 m =
     (let peerID = trim peerID0; endpoint = trim endpoint0 in
      if peerID = [] then (Some ''peer id is required'', m)
      else if endpoint = [] then (Some ''endpoint is required'', m)
      else if (case map_of (cm_peers m) peerID of
                 Some ps \<Rightarrow> ps_State (pst_status ps) = StateConnected \<or> ps_State (pst_status ps) = StateConnecting
               | None \<Rightarrow> False)
      then (None, m)
      else
        let n = cm_next m;
            st = \<lparr>pst_status = \<lparr>ps_PeerID = peerID, ps_Endpoint = endpoint, ps_State = StateConnecting, ps_UpdatedAt = now\<rparr>,
                  pst_id = n\<rparr>
        in (None, m\<lparr>cm_peers := AList.update peerID st (cm_peers m), cm_next := Suc n,
              cm_runs := cm_runs m @ [\<lparr>run_id = n, run_peerID = peerID, run_endpoint = endpoint, run_cancelled = False\<rparr>]\<rparr>))"

definition markState :: "time \<Rightarrow> string \<Rightarrow> ConnState \<Rightarrow> ConnManager \<Rightarrow> ConnManager" where
  "markState now peerID next m =
     (case map_of (cm_peers m) peerID of
        None \<Rightarrow> m
      | Some ps \<Rightarrow> m\<lparr>cm_peers := AList.update peerID
          (ps\<lparr>pst_status := (pst_status ps)\<lparr>ps_State := next, ps_UpdatedAt := now\<rparr>\<rparr>) (cm_peers m)\<rparr>)"

text \<open>The rest of \<open>run\<close> once the dial of goroutine \<open>n\<close> has returned.\<close>

definition run_done :: "time \<Rightarrow> nat \<Rightarrow> bool \<Rightarrow> ConnManager \<Rightarrow> ConnManager" where
  "run_done now n ok m =
     (case find (\<lambda>r. run_id r = n) (cm_runs m) of
        None \<Rightarrow> m
      | Some r \<Rightarrow>
          markState now (run_peerID r) (if ok then StateConnected else StateFailed)
            (m\<lparr>cm_runs := filter (\<lambda>r. run_id r \<noteq> n) (cm_runs m)\<rparr>))"

definition cm_Disconnect :: "string \<Rightarrow> ConnManager \<Rightarrow> string option \<times> ConnManager" where
  "cm_Disconnect peerID0 m =
     (let peerID = trim peerID0 in
      if peerID = [] then (Some ''peer id is required'', m)
      else case map_of (cm_peers m) peerID of
        None \<Rightarrow> (None, m)
      | Some ps \<Rightarrow>
          (None, m\<lparr>cm_peers := AList.delete peerID (cm_peers m),
             cm_runs := map (\<lambda>r. if run_id r = pst_id ps then r\<lparr>run_cancelled := True\<rparr> else r) (cm_runs m)\<rparr>))"

definition cm_Status :: "ConnManager \<Rightarrow> string \<Rightarrow> PeerStatus option" where
  "cm_Status m peerID = map_option pst_status (map_of (cm_peers m) peerID)"

definition cm_Snapshot :: "((string \<times> peerState) list \<Rightarrow> (string \<times> peerState) list) \<Rightarrow> ConnManager \<Rightarrow> PeerStatus list" where
  "cm_Snapshot shuf m = map (\<lambda>(k, ps). pst_status ps) (shuf (cm_peers m))"

definition cm_Forget :: "string \<Rightarrow> ConnManager \<Rightarrow> ConnManager" where
  "cm_Forget peerID m = m\<lparr>cm_peers := AList.delete peerID (cm_peers m)\<rparr>"

section \<open>Trimming\<close>

lemma trim_front_dropWhile: "trim_front s = dropWhile is_blank s"
  by (induction s) auto

lemma trim_back_dropWhile: "trim_back s = rev (dropWhile is_blank (rev s))"
proof (induction s rule: trim_back.induct)
  case (1 s)
  show ?case
  proof (cases "s = []")
    case False
    then obtain t c where s: "s = t @ [c]" by (metis append_butlast_last_id)
    show ?thesis using 1 by (subst trim_back.simps) (simp add: s)
  qed (subst trim_back.simps, simp)
qed

lemma dropWhile_idem: "dropWhile P (dropWhile P s) = dropWhile P s"
  by (induction s) auto

lemma dropWhile_clean: "s = [] \<or> \<not> P (hd s) \<Longrightarrow> dropWhile P s = s"
  by (cases s) auto

lemma hd_dropWhile_blank: "dropWhile P s = [] \<or> \<not> P (hd (dropWhile P s))"
  by (induction s) auto

lemma prefix_hd: "prefix r s \<Longrightarrow> r = [] \<or> hd r = hd s"
  by (cases r) (auto simp: prefix_def)

lemma trim_idem [simp]: "trim (trim s) = trim s"
proof -
  let ?f = "dropWhile is_blank s"
  have "prefix (trim s) ?f"
    using suffix_dropWhile [of is_blank "rev ?f"]
    by (simp add: trim_def trim_front_dropWhile trim_back_dropWhile suffix_to_prefix)
  then have "trim s = [] \<or> \<not> is_blank (hd (trim s))"
    using hd_dropWhile_blank [of is_blank s] prefix_hd by fastforce
  then have "trim_front (trim s) = trim s" by (simp add: trim_front_dropWhile dropWhile_clean)
  moreover have "trim_back (trim s) = trim s" by (simp add: trim_def trim_back_dropWhile dropWhile_idem)
  ultimately show ?thesis by (simp add: trim_def)
qed

text \<open>On a text that \<open>strings.TrimSpace\<close> left alone, \<open>trim\<close> does nothing.\<close>

lemma blank_rune: "is_blank c \<Longrightarrow> [c] \<in> set space_runes"
  by (auto simp: is_blank_def space_runes_def)

lemma clean_hd:
  assumes "starts_clean ws s" "s \<noteq> []"
  shows "[hd s] \<notin> set ws"
proof
  assume "[hd s] \<in> set ws"
  with assms(1) have "\<not> has_prefix s [hd s]" unfolding starts_clean_def by blast
  with assms(2) show False by (cases s) (auto simp: has_prefix_def)
qed

lemma trimmed_trim:
  assumes "trimmed s"
  shows "trim s = s"
proof -
  have "\<not> is_blank (hd s)" if "s \<noteq> []"
    using clean_hd [of space_runes s] TrimSpace_starts_clean [of s] assms that blank_rune [of "hd s"]
    by (auto simp: trimmed_def)
  moreover have "starts_clean (map rev space_runes) (rev s)"
    using starts_clean_strip [of "map rev space_runes" "rev (TrimLeft s)"] assms
    by (simp add: trimmed_def TrimSpace_def TrimRight_def) (metis rev_rev_ident)
  then have "\<not> is_blank (hd (rev s))" if "rev s \<noteq> []"
    using that clean_hd [of "map rev space_runes" "rev s"] blank_rune [of "hd (rev s)"] by force
  ultimately show ?thesis
    by (cases "s = []") (simp_all add: trim_def trim_front_dropWhile trim_back_dropWhile dropWhile_clean)
qed

section \<open>Invariant\<close>

text \<open>
  Entries are stored under their trimmed peer id; numbers are fresh; and an entry that says
  connecting has its own dial in flight, so that it cannot stay so for ever.
\<close>

definition entry_ok :: "ConnManager \<Rightarrow> string \<Rightarrow> peerState \<Rightarrow> bool" where
  "entry_ok m p ps \<longleftrightarrow> ps_PeerID (pst_status ps) = p \<and> trim p = p \<and> p \<noteq> []
     \<and> trim (ps_Endpoint (pst_status ps)) \<noteq> [] \<and> pst_id ps < cm_next m
     \<and> ps_State (pst_status ps) \<noteq> StateDisconnected
     \<and> (ps_State (pst_status ps) = StateConnecting \<longrightarrow>
          (\<exists>r \<in> set (cm_runs m). run_id r = pst_id ps \<and> run_peerID r = p))"

definition cm_inv :: "ConnManager \<Rightarrow> bool" where
  "cm_inv m \<longleftrightarrow> distinct (map fst (cm_peers m)) \<and> distinct (map run_id (cm_runs m))
     \<and> (\<forall>r \<in> set (cm_runs m). run_id r < cm_next m)
     \<and> (\<forall>p ps. map_of (cm_peers m) p = Some ps \<longrightarrow> entry_ok m p ps)"

inductive cm_step :: "ConnManager \<Rightarrow> ConnManager \<Rightarrow> bool" where
  cm_connect: "cm_step m (snd (cm_Connect now p e m))"
| cm_run_done: "cm_step m (run_done now n ok m)"
| cm_disconnect: "cm_step m (snd (cm_Disconnect p m))"
| cm_forget: "cm_step m (cm_Forget p m)"

abbreviation cm_reachable :: "ConnManager \<Rightarrow> bool" where
  "cm_reachable \<equiv> reach (\<lambda>m. m = NewConnManager) cm_step"

lemma cm_invD:
  assumes "cm_inv m"
  shows "distinct (map fst (cm_peers m))" "distinct (map run_id (cm_runs m))"
    and "\<And>r. r \<in> set (cm_runs m) \<Longrightarrow> run_id r < cm_next m"
    and "\<And>p ps. map_of (cm_peers m) p = Some ps \<Longrightarrow> entry_ok m p ps"
  using assms by (auto simp: cm_inv_def)

lemma cm_Connect_inv:
  assumes "cm_inv m"
  shows "cm_inv (snd (cm_Connect now p e m))"
proof -
  note i = cm_invD [OF assms]
  have fresh: "cm_next m \<notin> run_id ` set (cm_runs m)" using i(3) by force
  have old: "entry_ok m q ps \<Longrightarrow> entry_ok (m\<lparr>cm_peers := xs, cm_next := Suc (cm_next m), cm_runs := cm_runs m @ ys\<rparr>) q ps"
    for q ps xs ys by (auto simp: entry_ok_def)
  show ?thesis
    using assms fresh i(3) i(4) [THEN old]
    by (auto simp: cm_Connect_def Let_def cm_inv_def skall_maps AList.distinct_update less_SucI)
      (auto simp: entry_ok_def)
qed

lemma markState_inv:
  assumes "cm_inv (m\<lparr>cm_peers := []\<rparr>)" "distinct (map fst (cm_peers m))" "next \<in> {StateConnected, StateFailed}"
    and "\<And>q ps. map_of (cm_peers m) q = Some ps \<Longrightarrow> q \<noteq> p \<Longrightarrow> entry_ok m q ps"
    and "\<And>ps. map_of (cm_peers m) p = Some ps \<Longrightarrow>
      ps_PeerID (pst_status ps) = p \<and> trim p = p \<and> p \<noteq> [] \<and> trim (ps_Endpoint (pst_status ps)) \<noteq> [] \<and> pst_id ps < cm_next m"
  shows "cm_inv (markState now p next m)"
proof (cases "map_of (cm_peers m) p")
  case None
  then have "\<forall>q ps. map_of (cm_peers m) q = Some ps \<longrightarrow> entry_ok m q ps" using assms(4) by (metis option.distinct(1))
  with None assms(1,2) show ?thesis by (simp add: markState_def cm_inv_def)
next
  case (Some ps)
  with assms show ?thesis
    by (auto simp: markState_def cm_inv_def skall_maps AList.distinct_update entry_ok_def)
qed

lemma run_done_inv:
  assumes "cm_inv m"
  shows "cm_inv (run_done now n ok m)"
proof (cases "find (\<lambda>r. run_id r = n) (cm_runs m)")
  case None
  then show ?thesis using assms by (simp add: run_done_def)
next
  case (Some r)
  note i = cm_invD [OF assms]
  from Some have r: "r \<in> set (cm_runs m)" "run_id r = n" by (auto simp: find_Some_iff)
  have same: "run_peerID x = run_peerID r" if "x \<in> set (cm_runs m)" "run_id x = n" for x
    using i(2) r that by (auto simp: distinct_map inj_on_def)
  let ?m = "m\<lparr>cm_runs := filter (\<lambda>r. run_id r \<noteq> n) (cm_runs m)\<rparr>"
  have "cm_inv (markState now (run_peerID r) (if ok then StateConnected else StateFailed) ?m)"
  proof (rule markState_inv)
    show "cm_inv (?m\<lparr>cm_peers := []\<rparr>)" using i(2,3) by (simp add: cm_inv_def distinct_map_filter)
    fix q ps assume "map_of (cm_peers ?m) q = Some ps" "q \<noteq> run_peerID r"
    then show "entry_ok ?m q ps"
      using i(4) [of q ps] same by (auto simp: entry_ok_def)
  next
    fix ps assume "map_of (cm_peers ?m) (run_peerID r) = Some ps"
    then show "ps_PeerID (pst_status ps) = run_peerID r \<and> trim (run_peerID r) = run_peerID r \<and> run_peerID r \<noteq> []
      \<and> trim (ps_Endpoint (pst_status ps)) \<noteq> [] \<and> pst_id ps < cm_next ?m"
      using i(4) [of "run_peerID r" ps] by (simp add: entry_ok_def)
  qed (use i(1) in auto)
  with Some show ?thesis by (simp add: run_done_def)
qed

lemma remove_entry_inv:
  assumes "cm_inv m" "map run_id rs = map run_id (cm_runs m)" "map run_peerID rs = map run_peerID (cm_runs m)"
  shows "cm_inv (m\<lparr>cm_peers := AList.delete k (cm_peers m), cm_runs := rs\<rparr>)"
proof -
  note i = cm_invD [OF assms(1)]
  have len: "length rs = length (cm_runs m)" using assms(2) map_eq_imp_length_eq by blast
  have sub: "\<exists>r \<in> set rs. run_id r = run_id x \<and> run_peerID r = run_peerID x" if "x \<in> set (cm_runs m)" for x
  proof -
    obtain j where "j < length (cm_runs m)" "x = cm_runs m ! j" using \<open>x \<in> set (cm_runs m)\<close> by (metis in_set_conv_nth)
    then show ?thesis using len assms(2,3) by (metis nth_map nth_mem)
  qed
  have "run_id ` set rs = run_id ` set (cm_runs m)" using assms(2) by (metis set_map)
  then have "\<forall>r \<in> set rs. run_id r < cm_next m" using i(3) by (metis imageE imageI)
  moreover have "entry_ok (m\<lparr>cm_peers := AList.delete k (cm_peers m), cm_runs := rs\<rparr>) p ps" if "entry_ok m p ps" for p ps
    using that sub unfolding entry_ok_def by (auto, metis)
  ultimately show ?thesis
    using i(1,2,4) assms(2) by (auto simp: cm_inv_def skall_maps AList.distinct_delete split: if_splits)
qed

lemma cm_Disconnect_inv: "cm_inv m \<Longrightarrow> cm_inv (snd (cm_Disconnect p m))"
  by (auto simp: cm_Disconnect_def Let_def intro!: remove_entry_inv split: option.split)

lemma cm_Forget_inv: "cm_inv m \<Longrightarrow> cm_inv (cm_Forget p m)"
  using remove_entry_inv [of m "cm_runs m" p] by (simp add: cm_Forget_def)

lemma cm_step_inv: "cm_step m m' \<Longrightarrow> cm_inv m \<Longrightarrow> cm_inv m'"
  by (induction rule: cm_step.induct) (simp_all add: cm_Connect_inv run_done_inv cm_Disconnect_inv cm_Forget_inv)

interpretation cm: invariant_system "\<lambda>m. m = NewConnManager" cm_step cm_inv
proof unfold_locales
  fix s :: ConnManager
  assume "s = NewConnManager"
  then show "cm_inv s" by (simp add: cm_inv_def NewConnManager_def)
qed (rule cm_step_inv)

lemma cm_new_reachable: "cm_reachable NewConnManager"
  by (rule reach_init) simp

section \<open>Properties\<close>

text \<open>The hand-written loops of \<open>trim\<close> terminate and compute what dropping the blanks of both ends does,
  and trimming twice is trimming once.\<close>

theorem trim_reference:
  "trim s = rev (dropWhile is_blank (rev (dropWhile is_blank s))) \<and> trim (trim s) = trim s"
  using trim_idem [of s] by (simp add: trim_def trim_front_dropWhile trim_back_dropWhile)

text \<open>C28: No peer is left in the state connecting: such an entry always has its own dial in flight, so once
  every dial has returned each tracked peer is either connected or failed.\<close>

theorem connecting_resolves:
  assumes "cm_reachable m" "cm_Status m p = Some st"
  shows "ps_PeerID st = p
    \<and> (ps_State st = StateConnecting \<longrightarrow> (\<exists>r \<in> set (cm_runs m). run_peerID r = p))
    \<and> (cm_runs m = [] \<longrightarrow> ps_State st = StateConnected \<or> ps_State st = StateFailed)"
proof -
  obtain ps where "map_of (cm_peers m) p = Some ps" "st = pst_status ps"
    using assms(2) by (auto simp: cm_Status_def)
  with cm_invD(4) [OF cm.reach_inv [OF assms(1)]] have "entry_ok m p ps" "st = pst_status ps" by auto
  then show ?thesis by (cases "ps_State st") (auto simp: entry_ok_def)
qed

definition demo_conn :: ConnManager where
  "demo_conn = snd (cm_Connect 5 ''bob'' ''h:1'' NewConnManager)"

lemma demo_conn_reachable: "cm_reachable demo_conn"
  unfolding demo_conn_def by (rule reach_step [OF cm_new_reachable cm_connect])

lemma demo_conn_status: "cm_Status demo_conn ''bob'' =
    Some \<lparr>ps_PeerID = ''bob'', ps_Endpoint = ''h:1'', ps_State = StateConnecting, ps_UpdatedAt = 5\<rparr>"
  by code_simp

theorem connecting_resolves_witness: "\<exists>r \<in> set (cm_runs demo_conn). run_peerID r = ''bob''"
  using connecting_resolves [OF demo_conn_reachable demo_conn_status] by simp

text \<open>A peer that is connecting or connected is not dialled again: \<open>Connect\<close> reports success and changes
  nothing.\<close>

theorem Connect_no_double_dial:
  assumes "cm_Status m (trim p) = Some st" "ps_State st = StateConnecting \<or> ps_State st = StateConnected"
    and "trim p \<noteq> []" "trim e \<noteq> []"
  shows "cm_Connect now p e m = (None, m)"
  using assms by (auto simp: cm_Connect_def cm_Status_def Let_def)

lemma demo_trim_bob: "trim ''bob'' = ''bob''" "trim ''x:2'' = ''x:2''" "trim ''h:1'' = ''h:1''"
  by code_simp+

theorem Connect_no_double_dial_witness: "cm_Connect 6 ''bob'' ''x:2'' demo_conn = (None, demo_conn)"
  using Connect_no_double_dial [of demo_conn "''bob''" _ "''x:2''" 6] demo_conn_status by (simp add: demo_trim_bob)

text \<open>C34: The outcome of a dial is written under the peer id, not to the entry that started it: after
  disconnecting and connecting again to another endpoint, the return of the first, cancelled dial
  marks the new entry failed while its own dial is still running.\<close>

theorem stale_dial_marks_new_entry:
  assumes "trim p = p" "p \<noteq> []" "trim e1 = e1" "e1 \<noteq> []" "trim e2 = e2" "e2 \<noteq> []"
  shows "\<exists>m st. cm_reachable m \<and> cm_Status m p = Some st \<and> ps_Endpoint st = e2 \<and> ps_State st = StateFailed
    \<and> (\<exists>r \<in> set (cm_runs m). run_peerID r = p \<and> run_endpoint r = e2 \<and> \<not> run_cancelled r)"
proof -
  let ?m1 = "snd (cm_Connect 1 p e1 NewConnManager)"
  let ?m2 = "snd (cm_Disconnect p ?m1)"
  let ?m3 = "snd (cm_Connect 2 p e2 ?m2)"
  let ?m = "run_done 3 0 False ?m3"
  have "cm_reachable ?m"
    by (rule reach_step [OF reach_step [OF reach_step [OF reach_step [OF cm_new_reachable cm_connect] cm_disconnect] cm_connect] cm_run_done])
  moreover have "cm_Status ?m p = Some \<lparr>ps_PeerID = p, ps_Endpoint = e2, ps_State = StateFailed, ps_UpdatedAt = 3\<rparr>"
    "cm_runs ?m = [\<lparr>run_id = 1, run_peerID = p, run_endpoint = e2, run_cancelled = False\<rparr>]"
    using assms by (simp_all add: cm_Connect_def cm_Disconnect_def run_done_def markState_def cm_Status_def NewConnManager_def Let_def)
  ultimately show ?thesis by (intro exI [of _ ?m]) simp
qed

theorem stale_dial_marks_new_entry_witness:
  "\<exists>m st. cm_reachable m \<and> cm_Status m ''bob'' = Some st \<and> ps_Endpoint st = ''x:2'' \<and> ps_State st = StateFailed"
  using stale_dial_marks_new_entry [of "''bob''" "''h:1''" "''x:2''"] by (auto simp: demo_trim_bob)

end
