(* ===== verification/Discovery.thy ===== *)
theory Discovery
  imports Connection_Manager
begin

text \<open>
  LAN discovery: \<^verbatim>\<open>internal/network/discovery\<close> (\<^verbatim>\<open>types.go\<close>, \<^verbatim>\<open>mdns.go\<close>, \<^verbatim>\<open>connector.go\<close>). A scan collects
  the service entries that the resolver (package \<open>zeroconf\<close>, an argument) sends before it closes the
  channel or the time is up, \<open>applyDiff\<close> compares them with the known entries and publishes events on
  a buffered channel, and the \<open>Connector\<close> turns the events into calls of a connection manager. The
  interface \<open>ConnectionManager\<close> of \<^verbatim>\<open>connector.go\<close> is the locale \<open>connection_tracker\<close>, interpreted on
  \<open>Connection_Manager\<close>.
\<close>

section \<open>Data\<close>

datatype EventType = EventPeerAdded | EventPeerRemoved

record PeerInfo =
  pi_PeerID :: string
  pi_DisplayName :: string
  pi_Host :: string
  pi_Port :: int

record DiscEvent =
  de_Type :: EventType
  de_Peer :: PeerInfo

definition pi_IsValid :: "PeerInfo \<Rightarrow> bool" where
  "pi_IsValid p =
     (if TrimSpace (pi_PeerID p) = [] then False
      else if TrimSpace (pi_Host p) = [] then False
      else if pi_Port p \<le> 0 \<or> 65535 < pi_Port p then False
      else True)"

definition pi_Endpoint :: "PeerInfo \<Rightarrow> string" where
  "pi_Endpoint p = JoinHostPort (TrimSpace (pi_Host p)) (FormatInt (pi_Port p))"

definition pi_Key :: "PeerInfo \<Rightarrow> string" where
  "pi_Key p = (let peerID = TrimSpace (pi_PeerID p) in if peerID \<noteq> [] then peerID else pi_Endpoint p)"

text \<open>The fields of a \<open>zeroconf.ServiceEntry\<close> that the program reads; addresses as their texts.\<close>

record ServiceEntry =
  se_HostName :: string
  se_AddrIPv4 :: "string list"
  se_AddrIPv6 :: "string list"
  se_Port :: int
  se_Text :: "string list"

record MDNSConfig =
  mc_ServiceName :: string
  mc_Domain :: string
  mc_Interval :: duration

record MDNSDiscovery =
  md_local :: PeerInfo
  md_config :: MDNSConfig
  md_started :: bool
  md_closed :: bool
  md_resolver :: bool
  md_events :: "DiscEvent chan"
  md_entries :: "(string \<times> PeerInfo) list"

definition defaultServiceName :: string where "defaultServiceName = ''_skall._tcp''"
definition defaultDomain :: string where "defaultDomain = ''local.''"
definition defaultPollInterval :: duration where "defaultPollInterval = 5 * second"

definition DefaultMDNSConfig :: MDNSConfig where
  "DefaultMDNSConfig = \<lparr>mc_ServiceName = defaultServiceName, mc_Domain = defaultDomain, mc_Interval = defaultPollInterval\<rparr>"

definition NewMDNSDiscovery :: "PeerInfo \<Rightarrow> MDNSConfig \<Rightarrow> MDNSDiscovery" where
  "NewMDNSDiscovery loc cfg =
     \<lparr>md_local = loc,
      md_config =
        \<lparr>mc_ServiceName = (if TrimSpace (mc_ServiceName cfg) = [] then defaultServiceName else mc_ServiceName cfg),
         mc_Domain = (if TrimSpace (mc_Domain cfg) = [] then defaultDomain else mc_Domain cfg),
         mc_Interval = (if mc_Interval cfg \<le> 0 then defaultPollInterval else mc_Interval cfg)\<rparr>,
      md_started = False, md_closed = False, md_resolver = False, md_events = make_chan 32, md_entries = []\<rparr>"

section \<open>Entries\<close>

definition text_field :: "string \<Rightarrow> string \<times> string \<Rightarrow> string \<times> string" where
  "text_field field acc =
     (case SplitN2 (CHR ''='') field of
        [k, v] \<Rightarrow>
          if TrimSpace k = ''peer_id'' then (TrimSpace v, snd acc)
          else if TrimSpace k = ''display_name'' then (fst acc, TrimSpace v)
          else acc
      | _ \<Rightarrow> acc)"

definition entryToPeerInfo :: "ServiceEntry \<Rightarrow> PeerInfo option" where
  "entryToPeerInfo entry =
     (let host0 = TrimSpace (se_HostName entry);
          host = (if host0 \<noteq> [] then host0
                  else case se_AddrIPv4 entry of
                         a # _ \<Rightarrow> a
                       | [] \<Rightarrow> (case se_AddrIPv6 entry of a # _ \<Rightarrow> a | [] \<Rightarrow> []))
      in if se_Port entry = 0 then None
         else
           let (peerID, displayName) = fold text_field (se_Text entry) ([], [])
           in if peerID = [] then None
              else Some \<lparr>pi_PeerID = peerID, pi_DisplayName = displayName, pi_Host = host, pi_Port = se_Port entry\<rparr>)"

text \<open>The map \<open>seen\<close> of a scan that received \<open>results\<close> (nil pointers as \<open>None\<close>) before its end.\<close>

definition scan_seen :: "ServiceEntry option list \<Rightarrow> (string \<times> PeerInfo) list" where
  "scan_seen results =
     fold (\<lambda>r m. case r of None \<Rightarrow> m
                 | Some e \<Rightarrow> (case entryToPeerInfo e of None \<Rightarrow> m | Some info \<Rightarrow> AList.update (pi_Key info) info m))
       results []"

section \<open>applyDiff\<close>

definition seen_set :: "PeerInfo \<Rightarrow> PeerInfo list \<Rightarrow> (string \<times> PeerInfo) list" where
  "seen_set loc seen =
     fold (\<lambda>info m. if \<not> pi_IsValid info then m
                    else if pi_PeerID info = pi_PeerID loc then m
                    else AList.update (pi_Key info) info m) seen []"

definition send_event :: "EventType \<Rightarrow> PeerInfo \<Rightarrow> DiscEvent chan \<Rightarrow> DiscEvent chan" where
  "send_event t p ch = snd (try_send \<lparr>de_Type = t, de_Peer = p\<rparr> ch)"

definition add_seen :: "string \<times> PeerInfo \<Rightarrow> MDNSDiscovery \<Rightarrow> MDNSDiscovery" where
  "add_seen kv d =
     (if map_of (md_entries d) (fst kv) \<noteq> None then d
      else d\<lparr>md_entries := AList.update (fst kv) (snd kv) (md_entries d),
             md_events := send_event EventPeerAdded (snd kv) (md_events d)\<rparr>)"

definition drop_unseen :: "(string \<times> PeerInfo) list \<Rightarrow> string \<times> PeerInfo \<Rightarrow> MDNSDiscovery \<Rightarrow> MDNSDiscovery" where
  "drop_unseen seenSet kv d =
     (if map_of seenSet (fst kv) \<noteq> None then d
      else d\<lparr>md_entries := AList.delete (fst kv) (md_entries d),
             md_events := send_event EventPeerRemoved (snd kv) (md_events d)\<rparr>)"

text \<open>The orders in which the loops of a scan range over their maps: \<open>shuf 0\<close>, \<open>shuf 1\<close> for the two loops of
  \<open>applyDiff\<close> and \<open>shuf 2\<close> for \<open>seenValues\<close>.\<close>

type_synonym orders = "nat \<Rightarrow> (string \<times> PeerInfo) list \<Rightarrow> (string \<times> PeerInfo) list"

definition applyDiff :: "orders \<Rightarrow> PeerInfo list \<Rightarrow> MDNSDiscovery \<Rightarrow> MDNSDiscovery" where
  "applyDiff shuf seen d =
     (let seenSet = seen_set (md_local d) seen;
          d1 = fold add_seen (shuf 0 seenSet) d
      in fold (drop_unseen seenSet) (shuf 1 (md_entries d1)) d1)"

text \<open>\<open>browse\<close> is the error of the resolver, or the entries it delivered.\<close>

definition scan :: "orders \<Rightarrow> string + ServiceEntry option list
    \<Rightarrow> MDNSDiscovery \<Rightarrow> string option \<times> MDNSDiscovery" where
  "scan shuf browse d =
     (if \<not> md_resolver d then (Some ''resolver not initialized'', d)
      else case browse of
        Inl e \<Rightarrow> (Some (''browse mDNS: '' @ e), d)
      | Inr results \<Rightarrow> (None, applyDiff shuf (map snd (shuf 2 (scan_seen results))) d))"

text \<open>\<open>Start\<close>: the check and the creation of the resolver, then the section that records it and scans.\<close>

definition start_check :: "MDNSDiscovery \<Rightarrow> string option" where
  "start_check d =
     (if md_started d then Some ''discovery already started''
      else if md_closed d then Some ''discovery is closed'' else None)"

definition md_Start :: "orders \<Rightarrow> string option \<Rightarrow> string + ServiceEntry option list
    \<Rightarrow> MDNSDiscovery \<Rightarrow> string option \<times> MDNSDiscovery" where
  "md_Start shuf factory browse d =
     (case start_check d of
        Some e \<Rightarrow> (Some e, d)
      | None \<Rightarrow> (case factory of
          Some e \<Rightarrow> (Some (''create mDNS resolver: '' @ e), d)
        | None \<Rightarrow>
            (case scan shuf browse (d\<lparr>md_resolver := True, md_started := True\<rparr>) of
               (Some e, d') \<Rightarrow> (Some (''initial mDNS scan: '' @ e), d')
             | (None, d') \<Rightarrow> (None, d'))))"

text \<open>What wakes the \<open>select\<close> of \<open>loop\<close>; a tick scans, with the outcome \<open>browse\<close> of the resolver, and ignores the error.\<close>

datatype loop_signal = CtxDone | Shutdown | TimerTick "string + ServiceEntry option list"

fun md_loop :: "orders \<Rightarrow> loop_signal list \<Rightarrow> MDNSDiscovery \<Rightarrow> MDNSDiscovery" where
  "md_loop shuf [] d = d"
| "md_loop shuf (CtxDone # sigs) d = d"
| "md_loop shuf (Shutdown # sigs) d = d"
| "md_loop shuf (TimerTick browse # sigs) d = md_loop shuf sigs (snd (scan shuf browse d))"

definition md_Close :: "MDNSDiscovery \<Rightarrow> MDNSDiscovery" where
  "md_Close d = (if md_closed d then d else d\<lparr>md_closed := True\<rparr>)"

text \<open>\<open>Announce\<close>: the texts it registers, or its error; \<open>reg\<close> is the error of \<open>zeroconf.Register\<close>.\<close>

definition Announce :: "string option \<Rightarrow> int \<Rightarrow> MDNSDiscovery \<Rightarrow> string + string list" where
  "Announce reg port d =
     (if port \<le> 0 then Inl ''invalid port for announcement''
      else if TrimSpace (pi_PeerID (md_local d)) = [] then Inl ''local peer id is required for announcement''
      else
        let txts = [''peer_id='' @ pi_PeerID (md_local d), ''display_name='' @ TrimSpace (pi_DisplayName (md_local d))]
        in case reg of Some e \<Rightarrow> Inl (''register mDNS service: '' @ e) | None \<Rightarrow> Inr txts)"

definition ParsePort :: "string \<Rightarrow> string + int" where
  "ParsePort v =
     (let t = TrimSpace v in
      if t = [] then Inl ''port is required''
      else case Atoi t of
        None \<Rightarrow> Inl ''parse port''
      | Some port \<Rightarrow> if port \<le> 0 \<or> 65535 < port then Inl ''port out of range'' else Inr port)"

section \<open>Connector\<close>

text \<open>\<open>Connector.handle\<close> over any connection manager.\<close>

definition connector_handle ::
  "(string \<Rightarrow> string \<Rightarrow> 's \<Rightarrow> 's) \<Rightarrow> (string \<Rightarrow> 's \<Rightarrow> 's) \<Rightarrow> DiscEvent \<Rightarrow> 's \<Rightarrow> 's" where
  "connector_handle connect disconnect ev s =
     (if \<not> pi_IsValid (de_Peer ev) then s
      else case de_Type ev of
        EventPeerAdded \<Rightarrow> connect (pi_PeerID (de_Peer ev)) (pi_Endpoint (de_Peer ev)) s
      | EventPeerRemoved \<Rightarrow> disconnect (pi_PeerID (de_Peer ev)) s)"

text \<open>\<open>Run\<close> until the channel is empty: the events in the order of the channel.\<close>

definition connector_run ::
  "(string \<Rightarrow> string \<Rightarrow> 's \<Rightarrow> 's) \<Rightarrow> (string \<Rightarrow> 's \<Rightarrow> 's) \<Rightarrow> DiscEvent list \<Rightarrow> 's \<Rightarrow> 's" where
  "connector_run connect disconnect evs s = fold (connector_handle connect disconnect) evs s"

text \<open>
  What the connector relies on: the peers the manager tracks grow with a connect and shrink with
  a disconnect. Peer ids without surrounding white space are their own keys.
\<close>

locale connection_tracker =
  fixes connect :: "string \<Rightarrow> string \<Rightarrow> 's \<Rightarrow> 's"
    and disconnect :: "string \<Rightarrow> 's \<Rightarrow> 's"
    and tracked :: "'s \<Rightarrow> string set"
  assumes tracked_connect:
      "trimmed p \<Longrightarrow> p \<noteq> [] \<Longrightarrow> trim e \<noteq> [] \<Longrightarrow> tracked (connect p e s) = insert p (tracked s)"
    and tracked_disconnect: "trimmed p \<Longrightarrow> p \<noteq> [] \<Longrightarrow> tracked (disconnect p s) = tracked s - {p}"
begin

definition track :: "DiscEvent \<Rightarrow> string set \<Rightarrow> string set" where
  "track ev T = (case de_Type ev of EventPeerAdded \<Rightarrow> insert (pi_PeerID (de_Peer ev)) T
     | EventPeerRemoved \<Rightarrow> T - {pi_PeerID (de_Peer ev)})"

definition event_ok :: "DiscEvent \<Rightarrow> bool" where
  "event_ok ev \<longleftrightarrow> pi_IsValid (de_Peer ev) \<and> trimmed (pi_PeerID (de_Peer ev)) \<and> trim (pi_Endpoint (de_Peer ev)) \<noteq> []"

lemma run_tracks:
  "list_all event_ok evs \<Longrightarrow> tracked (connector_run connect disconnect evs s) = fold track evs (tracked s)"
proof (induction evs arbitrary: s)
  case (Cons ev evs)
  then have "pi_IsValid (de_Peer ev)" "trimmed (pi_PeerID (de_Peer ev))" "trim (pi_Endpoint (de_Peer ev)) \<noteq> []"
    by (simp_all add: event_ok_def)
  moreover from this have "pi_PeerID (de_Peer ev) \<noteq> []" by (auto simp: pi_IsValid_def split: if_splits)
  ultimately have "tracked (connector_handle connect disconnect ev s) = track ev (tracked s)"
    by (cases "de_Type ev") (simp_all add: connector_handle_def track_def tracked_connect tracked_disconnect)
  with Cons show ?case by (simp add: connector_run_def)
qed (simp add: connector_run_def)

lemma track_changes:
  "fold track (map (\<lambda>i. \<lparr>de_Type = EventPeerAdded, de_Peer = i\<rparr>) add @ map (\<lambda>i. \<lparr>de_Type = EventPeerRemoved, de_Peer = i\<rparr>) rem) T
     = (T \<union> pi_PeerID ` set add) - pi_PeerID ` set rem"
proof -
  have "fold track (map (\<lambda>i. \<lparr>de_Type = EventPeerAdded, de_Peer = i\<rparr>) add) T = T \<union> pi_PeerID ` set add" for T
    by (induction add arbitrary: T) (auto simp: track_def)
  moreover have "fold track (map (\<lambda>i. \<lparr>de_Type = EventPeerRemoved, de_Peer = i\<rparr>) rem) T = T - pi_PeerID ` set rem" for T
    by (induction rem arbitrary: T) (auto simp: track_def)
  ultimately show ?thesis by simp
qed

end

text \<open>The connection manager provides that interface.\<close>

definition cm_connect_op :: "time \<Rightarrow> string \<Rightarrow> string \<Rightarrow> ConnManager \<Rightarrow> ConnManager" where
  "cm_connect_op now p e m = snd (cm_Connect now p e m)"

definition cm_disconnect_op :: "string \<Rightarrow> ConnManager \<Rightarrow> ConnManager" where
  "cm_disconnect_op p m = snd (cm_Disconnect p m)"

definition cm_tracked :: "ConnManager \<Rightarrow> string set" where
  "cm_tracked m = dom (map_of (cm_peers m))"

interpretation tracker: connection_tracker "cm_connect_op now" cm_disconnect_op cm_tracked for now
proof unfold_locales
  fix p e :: string and s
  assume p: "trimmed p" "p \<noteq> []"
  show "cm_tracked (cm_disconnect_op p s) = cm_tracked s - {p}"
    using p by (auto simp: cm_disconnect_op_def cm_Disconnect_def cm_tracked_def trimmed_trim Let_def skall_maps
        split: option.splits if_splits)
  assume "trim e \<noteq> []"
  with p show "cm_tracked (cm_connect_op now p e s) = insert p (cm_tracked s)"
    by (auto simp: cm_connect_op_def cm_Connect_def cm_tracked_def trimmed_trim Let_def skall_maps split: option.splits if_splits)
qed

section \<open>What a scan does\<close>

definition info_ok :: "PeerInfo \<Rightarrow> bool" where
  "info_ok i \<longleftrightarrow> pi_IsValid i \<and> trimmed (pi_PeerID i)"

lemma info_ok_key: "info_ok i \<Longrightarrow> pi_Key i = pi_PeerID i"
  by (auto simp: info_ok_def pi_Key_def pi_IsValid_def Let_def split: if_splits)

lemma fold_text_field_trimmed: "trimmed (fst acc) \<Longrightarrow> trimmed (fst (fold text_field fs acc))"
proof (induction fs arbitrary: acc)
  case (Cons f fs)
  have "trimmed (fst (text_field f acc))" using Cons.prems by (simp add: text_field_def split: list.split)
  with Cons.IH show ?case by simp
qed simp

lemma entry_info:
  assumes "entryToPeerInfo e = Some i"
  shows "trimmed (pi_PeerID i)" "pi_PeerID i \<noteq> []"
  using assms fold_text_field_trimmed [of "([], [])" "se_Text e"]
  by (auto simp: entryToPeerInfo_def Let_def trimmed_def split: if_splits prod.splits)

lemma trim_Nil_blank: "trim s = [] \<Longrightarrow> c \<in> set s \<Longrightarrow> is_blank c"
proof -
  assume "trim s = []" and c: "c \<in> set s"
  then have b: "\<forall>x \<in> set (dropWhile is_blank s). is_blank x"
    by (simp add: trim_def trim_front_dropWhile trim_back_dropWhile dropWhile_eq_Nil_conv)
  have "dropWhile is_blank s = []"
  proof (rule ccontr)
    assume ne: "dropWhile is_blank s \<noteq> []"
    then have "\<not> is_blank (hd (dropWhile is_blank s))" by (rule hd_dropWhile)
    with b ne show False by simp
  qed
  with c show "is_blank c" by (simp add: dropWhile_eq_Nil_conv)
qed

lemma endpoint_nonblank: "trim (pi_Endpoint i) \<noteq> []"
proof
  assume "trim (pi_Endpoint i) = []"
  moreover have "CHR '':'' \<in> set (pi_Endpoint i)" by (simp add: pi_Endpoint_def JoinHostPort_def)
  ultimately have "is_blank (CHR '':'')" by (rule trim_Nil_blank)
  then show False by (simp add: is_blank_def)
qed

lemma set_alist_update: "set (AList.update k v m) \<subseteq> insert (k, v) (set m)"
  by (induction m) auto

lemma seen_set_props:
  "(\<And>i. i \<in> set seen \<Longrightarrow> trimmed (pi_PeerID i)) \<Longrightarrow>
     distinct (map fst (seen_set loc seen))
     \<and> (\<forall>(k, i) \<in> set (seen_set loc seen). k = pi_PeerID i \<and> info_ok i \<and> i \<in> set seen \<and> pi_PeerID i \<noteq> pi_PeerID loc)
     \<and> fst ` set (seen_set loc seen) = pi_PeerID ` {i \<in> set seen. pi_IsValid i \<and> pi_PeerID i \<noteq> pi_PeerID loc}"
proof (induction seen rule: rev_induct)
  case (snoc i seen)
  let ?S = "seen_set loc seen"
  have IH: "distinct (map fst ?S)"
    "\<forall>(k, i) \<in> set ?S. k = pi_PeerID i \<and> info_ok i \<and> i \<in> set seen \<and> pi_PeerID i \<noteq> pi_PeerID loc"
    "fst ` set ?S = pi_PeerID ` {i \<in> set seen. pi_IsValid i \<and> pi_PeerID i \<noteq> pi_PeerID loc}"
    using snoc.IH snoc.prems by auto
  show ?case
  proof (cases "pi_IsValid i \<and> pi_PeerID i \<noteq> pi_PeerID loc")
    case True
    then have ok: "info_ok i" using snoc.prems by (simp add: info_ok_def)
    then have S: "seen_set loc (seen @ [i]) = AList.update (pi_PeerID i) i ?S"
      using True by (simp add: seen_set_def info_ok_key)
    have "set (AList.update (pi_PeerID i) i ?S) \<subseteq> insert (pi_PeerID i, i) (set ?S)" by (rule set_alist_update)
    with IH(2) ok True have "\<forall>(k, j) \<in> set (seen_set loc (seen @ [i])). k = pi_PeerID j \<and> info_ok j \<and> j \<in> set (seen @ [i]) \<and> pi_PeerID j \<noteq> pi_PeerID loc"
      unfolding S by auto
    moreover have "fst ` set (seen_set loc (seen @ [i])) = insert (pi_PeerID i) (fst ` set ?S)"
      using alist.set_keys_put [of "pi_PeerID i" i ?S] by (simp add: S)
    ultimately show ?thesis
      using IH(1,3) True by (auto simp: S AList.distinct_update)
  next
    case False
    then have "seen_set loc (seen @ [i]) = ?S" by (auto simp: seen_set_def)
    then show ?thesis using IH False by auto
  qed
qed (simp add: seen_set_def)

text \<open>The two loops of \<open>applyDiff\<close>, for every order: the entries that are new or gone, and their events
  as far as the buffer takes them.\<close>

abbreviation added :: "string \<times> PeerInfo \<Rightarrow> DiscEvent" where
  "added kv \<equiv> \<lparr>de_Type = EventPeerAdded, de_Peer = snd kv\<rparr>"

abbreviation removed :: "string \<times> PeerInfo \<Rightarrow> DiscEvent" where
  "removed kv \<equiv> \<lparr>de_Type = EventPeerRemoved, de_Peer = snd kv\<rparr>"

definition chan_open :: "'a chan \<Rightarrow> bool" where
  "chan_open ch \<longleftrightarrow> \<not> chan_closed ch \<and> chan_ok ch"

definition send_all :: "'a list \<Rightarrow> 'a chan \<Rightarrow> 'a chan" where
  "send_all evs ch = ch\<lparr>chan_buf := take (chan_cap ch) (chan_buf ch @ evs)\<rparr>"

definition absent :: "('k \<times> 'v) list \<Rightarrow> ('k \<times> 'w) list \<Rightarrow> ('k \<times> 'w) list" where
  "absent m xs = filter (\<lambda>kv. map_of m (fst kv) = None) xs"

lemma chan_open_send_all: "chan_open ch \<Longrightarrow> chan_open (send_all evs ch)"
  by (auto simp: chan_open_def send_all_def chan_ok_def)

lemma chan_cap_send_all [simp]: "chan_cap (send_all evs ch) = chan_cap ch"
  by (simp add: send_all_def)

lemma send_all_Nil: "chan_open ch \<Longrightarrow> send_all [] ch = ch"
  by (simp add: chan_open_def send_all_def chan_ok_def)

lemma send_all_append: "chan_open ch \<Longrightarrow> send_all es (send_all ds ch) = send_all (ds @ es) ch"
  by (simp add: send_all_def chan_open_def chan_ok_def) (simp add: min_def take_all)

lemma send_event_send_all: "chan_open ch \<Longrightarrow> send_event t p ch = send_all [\<lparr>de_Type = t, de_Peer = p\<rparr>] ch"
  by (auto simp: send_event_def try_send_def send_all_def chan_open_def chan_ok_def take_Cons')

lemma update_absent: "map_of m k = None \<Longrightarrow> AList.update k v m = m @ [(k, v)]"
  by (induction m) (auto split: if_splits)

lemma absent_simps [simp]:
  "absent m [] = []"
  "absent m (kv # xs) = (if map_of m (fst kv) = None then kv # absent m xs else absent m xs)"
  by (simp_all add: absent_def)

lemma add_seen_new: "map_of (md_entries d) (fst kv) = None \<Longrightarrow> chan_open (md_events d) \<Longrightarrow>
    add_seen kv d = d\<lparr>md_entries := md_entries d @ [kv], md_events := send_all [added kv] (md_events d)\<rparr>"
  by (simp add: add_seen_def update_absent send_event_send_all)

lemma add_seen_old: "map_of (md_entries d) (fst kv) \<noteq> None \<Longrightarrow> add_seen kv d = d"
  by (simp add: add_seen_def)

lemma drop_unseen_gone: "map_of S (fst kv) = None \<Longrightarrow> chan_open (md_events d) \<Longrightarrow>
    drop_unseen S kv d = d\<lparr>md_entries := filter (\<lambda>x. fst x \<noteq> fst kv) (md_entries d),
      md_events := send_all [removed kv] (md_events d)\<rparr>"
proof -
  have "AList.delete (fst kv) m = filter (\<lambda>x. fst x \<noteq> fst kv) m" for m :: "(string \<times> PeerInfo) list"
    unfolding AList.delete_eq by (rule filter_cong) auto
  then show "map_of S (fst kv) = None \<Longrightarrow> chan_open (md_events d) \<Longrightarrow> ?thesis"
    by (simp add: drop_unseen_def send_event_send_all)
qed

lemma drop_unseen_kept: "map_of S (fst kv) \<noteq> None \<Longrightarrow> drop_unseen S kv d = d"
  by (simp add: drop_unseen_def)

lemma fold_add_seen:
  assumes "chan_open (md_events d)" "distinct (map fst xs)"
  shows "fold add_seen xs d = d\<lparr>md_entries := md_entries d @ absent (md_entries d) xs,
           md_events := send_all (map added (absent (md_entries d) xs)) (md_events d)\<rparr>"
  using assms
proof (induction xs arbitrary: d)
  case Nil
  then show ?case by (simp add: absent_def send_all_Nil)
next
  case (Cons kv xs)
  show ?case
  proof (cases "map_of (md_entries d) (fst kv) = None")
    case True
    have "fst x \<noteq> fst kv" if "x \<in> set xs" for x using Cons.prems(2) that by (auto simp: rev_image_eqI)
    then have "absent (md_entries d @ [kv]) xs = absent (md_entries d) xs"
      unfolding absent_def by (intro filter_cong) (cases kv, simp_all)
    with True Cons show ?thesis
      by (simp add: add_seen_new chan_open_send_all send_all_append)
  next
    case False
    with Cons show ?thesis by (simp add: add_seen_old del: not_None_eq)
  qed
qed

lemma fold_drop_unseen:
  assumes "chan_open (md_events d)"
  shows "fold (drop_unseen S) xs d = d\<lparr>md_entries := filter (\<lambda>kv. fst kv \<notin> fst ` set (absent S xs)) (md_entries d),
           md_events := send_all (map removed (absent S xs)) (md_events d)\<rparr>"
  using assms
proof (induction xs arbitrary: d)
  case Nil
  then show ?case by (simp add: absent_def send_all_Nil)
next
  case (Cons kv xs)
  show ?case
  proof (cases "map_of S (fst kv) = None")
    case True
    with Cons show ?thesis
      by (simp add: drop_unseen_gone chan_open_send_all send_all_append conj_commute)
  next
    case False
    with Cons show ?thesis by (simp add: drop_unseen_kept del: not_None_eq)
  qed
qed

lemma any_order_distinct_keys: "any_order shuf \<Longrightarrow> distinct (map fst xs) \<Longrightarrow> distinct (map fst (shuf xs))"
proof -
  assume "any_order shuf" and d: "distinct (map fst xs)"
  then have "mset (map fst (shuf xs)) = mset (map fst xs)" by (simp add: any_order_def)
  then show ?thesis using d by (rule mset_eq_imp_distinct_iff [THEN iffD2])
qed

lemma applyDiff_eq:
  assumes "\<And>n. any_order (shuf n)" "chan_open (md_events d)" "\<forall>i \<in> set seen. trimmed (pi_PeerID i)"
  defines "S \<equiv> seen_set (md_local d) seen"
  defines "new \<equiv> absent (md_entries d) (shuf 0 S)"
  defines "gone \<equiv> absent S (shuf 1 (md_entries d @ new))"
  shows "applyDiff shuf seen d = d\<lparr>md_entries := filter (\<lambda>kv. fst kv \<in> fst ` set S) (md_entries d @ new),
           md_events := send_all (map added new @ map removed gone) (md_events d)\<rparr>"
proof -
  have "distinct (map fst S)"
    unfolding S_def by (rule conjunct1 [OF seen_set_props]) (use assms(3) in blast)
  then have "distinct (map fst (shuf 0 S))" by (rule any_order_distinct_keys [OF assms(1)])
  note 1 = fold_add_seen [OF assms(2) this, folded new_def]
  let ?d = "fold add_seen (shuf 0 S) d"
  have "chan_open (md_events ?d)" using assms(2) by (simp add: 1 chan_open_send_all)
  from fold_drop_unseen [OF this, of S "shuf 1 (md_entries ?d)"]
  have 2: "applyDiff shuf seen d = ?d\<lparr>md_entries := filter (\<lambda>kv. fst kv \<notin> fst ` set gone) (md_entries d @ new),
      md_events := send_all (map removed gone) (md_events ?d)\<rparr>"
    by (simp add: applyDiff_def Let_def S_def [symmetric] 1 gone_def)
  have "fst kv \<notin> fst ` set gone \<longleftrightarrow> fst kv \<in> fst ` set S" if "kv \<in> set (md_entries d @ new)" for kv
    using that any_order_set [OF assms(1) [of 1]] by (auto simp: gone_def absent_def map_of_eq_None_iff intro: rev_image_eqI)
  then have "filter (\<lambda>kv. fst kv \<notin> fst ` set gone) (md_entries d @ new) = filter (\<lambda>kv. fst kv \<in> fst ` set S) (md_entries d @ new)"
    by (rule filter_cong [OF refl])
  with 2 show ?thesis using assms(2) by (simp add: 1 send_all_append)
qed

section \<open>Reachable discoveries\<close>

definition entry_valid :: "PeerInfo \<Rightarrow> string \<times> PeerInfo \<Rightarrow> bool" where
  "entry_valid loc kv \<longleftrightarrow> fst kv = pi_PeerID (snd kv) \<and> info_ok (snd kv) \<and> fst kv \<noteq> pi_PeerID loc"

definition disc_inv :: "MDNSDiscovery \<Rightarrow> bool" where
  "disc_inv d \<longleftrightarrow> chan_open (md_events d) \<and> chan_cap (md_events d) = 32
     \<and> distinct (map fst (md_entries d)) \<and> list_all (entry_valid (md_local d)) (md_entries d)"

text \<open>\<open>Start\<close>, the ticks of the discovery loop, \<open>Close\<close>, and the connector taking an event.\<close>

inductive disc_step :: "MDNSDiscovery \<Rightarrow> MDNSDiscovery \<Rightarrow> bool" where
  disc_start: "(\<And>n. any_order (shuf n)) \<Longrightarrow> disc_step d (snd (md_Start shuf factory browse d))"
| disc_tick: "(\<And>n. any_order (shuf n)) \<Longrightarrow> disc_step d (snd (scan shuf browse d))"
| disc_close: "disc_step d (md_Close d)"
| disc_recv: "disc_step d (d\<lparr>md_events := snd (recv (md_events d))\<rparr>)"

abbreviation disc_reachable :: "MDNSDiscovery \<Rightarrow> bool" where
  "disc_reachable \<equiv> reach (\<lambda>d. \<exists>loc cfg. d = NewMDNSDiscovery loc cfg) disc_step"

lemma scan_seen_trimmed: "kv \<in> set (scan_seen rs) \<Longrightarrow> trimmed (pi_PeerID (snd kv))"
proof (induction rs arbitrary: kv rule: rev_induct)
  case (snoc r rs)
  show ?case
  proof (cases "\<exists>e i. r = Some e \<and> entryToPeerInfo e = Some i")
    case True
    then obtain e i where e: "r = Some e" "entryToPeerInfo e = Some i" by blast
    then have "kv \<in> insert (pi_Key i, i) (set (scan_seen rs))"
      using snoc.prems set_alist_update [of "pi_Key i" i "scan_seen rs"] by (auto simp: scan_seen_def)
    with snoc.IH [of kv] entry_info(1) [OF e(2)] show ?thesis by (elim insertE) simp_all
  next
    case False
    then have "scan_seen (rs @ [r]) = scan_seen rs" by (auto simp: scan_seen_def split: option.splits)
    with snoc show ?thesis by simp
  qed
qed (simp add: scan_seen_def)

lemma scan_values_trimmed: "any_order shuf \<Longrightarrow> \<forall>i \<in> set (map snd (shuf (scan_seen rs))). trimmed (pi_PeerID i)"
  by (auto simp: any_order_set dest: scan_seen_trimmed)

lemma seen_set_valid:
  assumes "\<forall>i \<in> set seen. trimmed (pi_PeerID i)" "kv \<in> set (seen_set loc seen)"
  shows "entry_valid loc kv"
proof -
  have "\<forall>(k, i) \<in> set (seen_set loc seen). k = pi_PeerID i \<and> info_ok i \<and> i \<in> set seen \<and> pi_PeerID i \<noteq> pi_PeerID loc"
    by (rule conjunct1 [OF conjunct2 [OF seen_set_props]]) (use assms(1) in blast)
  with assms(2) show ?thesis by (auto simp: entry_valid_def)
qed

lemma seen_set_distinct: "\<forall>i \<in> set seen. trimmed (pi_PeerID i) \<Longrightarrow> distinct (map fst (seen_set loc seen))"
  by (rule conjunct1 [OF seen_set_props]) blast

lemma applyDiff_inv:
  assumes "\<And>n. any_order (shuf n)" "disc_inv d" "\<forall>i \<in> set seen. trimmed (pi_PeerID i)"
  shows "disc_inv (applyDiff shuf seen d)"
proof -
  let ?S = "seen_set (md_local d) seen"
  let ?new = "absent (md_entries d) (shuf 0 ?S)"
  have o: "chan_open (md_events d)" using assms(2) by (simp add: disc_inv_def)
  have S: "distinct (map fst (shuf 0 ?S))" "set (shuf 0 ?S) = set ?S"
    by (rule any_order_distinct_keys [OF assms(1) seen_set_distinct [OF assms(3)]], rule any_order_set [OF assms(1)])
  have "distinct (map fst (md_entries d @ ?new))"
    using assms(2) S(1) by (auto simp: disc_inv_def absent_def map_of_eq_None_iff distinct_map_filter intro: rev_image_eqI)
  then have "distinct (map fst (filter P (md_entries d @ ?new)))" for P by (rule distinct_map_filter)
  moreover have "list_all (entry_valid (md_local d)) (md_entries d @ ?new)"
    using assms(2) seen_set_valid [OF assms(3)] S(2) by (auto simp: disc_inv_def list_all_iff absent_def)
  ultimately show ?thesis
    unfolding applyDiff_eq [OF assms(1) o assms(3)]
    using assms(2) chan_open_send_all [OF o] by (auto simp: disc_inv_def list_all_iff)
qed

lemma scan_inv:
  assumes "\<And>n. any_order (shuf n)" "disc_inv d"
  shows "disc_inv (snd (scan shuf browse d))"
  using applyDiff_inv [OF assms scan_values_trimmed [OF assms(1)]] assms(2)
  by (simp add: scan_def split: sum.split)

lemma disc_step_inv:
  assumes "disc_step d d'" "disc_inv d"
  shows "disc_inv d'"
  using assms
proof (induction rule: disc_step.induct)
  case (disc_start shuf d factory browse)
  have "disc_inv (d\<lparr>md_resolver := True, md_started := True\<rparr>)" using disc_start.prems by (simp add: disc_inv_def)
  then have "disc_inv (snd (scan shuf browse (d\<lparr>md_resolver := True, md_started := True\<rparr>)))"
    by (rule scan_inv [OF disc_start.hyps])
  with disc_start.prems show ?case
    by (auto simp: md_Start_def split: option.splits prod.splits)
next
  case (disc_tick shuf d browse)
  then show ?case by (simp add: scan_inv)
next
  case (disc_close d)
  then show ?case by (simp add: md_Close_def disc_inv_def)
next
  case (disc_recv d)
  then show ?case by (auto simp: disc_inv_def recv_def chan_open_def chan_ok_def split: list.split)
qed

interpretation disc: invariant_system "\<lambda>d. \<exists>loc cfg. d = NewMDNSDiscovery loc cfg" disc_step disc_inv
proof unfold_locales
  fix s :: MDNSDiscovery
  assume "\<exists>loc cfg. s = NewMDNSDiscovery loc cfg"
  then show "disc_inv s"
    by (auto simp: NewMDNSDiscovery_def disc_inv_def chan_open_def chan_ok_def make_chan_def)
next
  fix s t assume "disc_inv s" "disc_step s t"
  then show "disc_inv t" by (rule disc_step_inv [rotated])
qed

text \<open>Every run of \<open>loop\<close> is a sequence of these steps.\<close>

lemma md_loop_reachable:
  assumes "\<And>n. any_order (shuf n)"
  shows "disc_reachable d \<Longrightarrow> disc_reachable (md_loop shuf sigs d)"
proof (induction sigs arbitrary: d)
  case (Cons sig sigs)
  have "disc_step d (snd (scan shuf browse d))" for browse by (rule disc_tick [OF assms])
  from reach_step [OF Cons.prems this] Cons show ?case by (cases sig) simp_all
qed simp

lemma length_seen_set: "length (seen_set loc seen) \<le> length seen"
proof (induction seen rule: rev_induct)
  case (snoc i seen)
  have "length (AList.update k v m) \<le> Suc (length m)" for k v and m :: "(string \<times> PeerInfo) list"
    by (induction m) auto
  from le_trans [OF this] snoc show ?case by (auto simp: seen_set_def)
qed (simp add: seen_set_def)

lemma event_ok_valid: "entry_valid loc kv \<Longrightarrow> tracker.event_ok (added kv) \<and> tracker.event_ok (removed kv)"
  by (simp add: tracker.event_ok_def entry_valid_def info_ok_def endpoint_nonblank)

text \<open>After the connector has taken the events of a scan, the manager tracks the peers that were seen.\<close>

lemma connector_after_diff:
  assumes shuf: "\<And>n. any_order (shuf n)" and inv: "disc_inv d" and tr: "\<forall>i \<in> set seen. trimmed (pi_PeerID i)"
    and drained: "chan_buf (md_events d) = []" and same: "cm_tracked m = fst ` set (md_entries d)"
    and room: "2 * length (seen_set (md_local d) seen) + length (md_entries d) \<le> 32"
  shows "cm_tracked (connector_run (cm_connect_op now) cm_disconnect_op (chan_buf (md_events (applyDiff shuf seen d))) m)
     = fst ` set (seen_set (md_local d) seen)"
proof -
  let ?S = "seen_set (md_local d) seen"
  let ?new = "absent (md_entries d) (shuf 0 ?S)"
  let ?gone = "absent ?S (shuf 1 (md_entries d @ ?new))"
  have o: "chan_open (md_events d)" "chan_cap (md_events d) = 32" using inv by (simp_all add: disc_inv_def)
  have set0: "set (shuf 0 xs) = set xs" "set (shuf 1 xs) = set xs" for xs by (rule any_order_set [OF shuf])+
  have "length ?new \<le> length ?S" using any_order_length [OF shuf [of 0]] length_filter_le unfolding absent_def by metis
  moreover have "length ?gone \<le> length (md_entries d @ ?new)"
    using any_order_length [OF shuf [of 1]] length_filter_le unfolding absent_def by metis
  ultimately have buf: "chan_buf (md_events (applyDiff shuf seen d)) = map added ?new @ map removed ?gone"
    using room o drained by (simp add: applyDiff_eq [OF shuf o(1) tr] send_all_def)
  have valid: "list_all (entry_valid (md_local d)) (md_entries d)" using inv by (simp add: disc_inv_def)
  have ids: "pi_PeerID (snd kv) = fst kv" if "kv \<in> set (md_entries d) \<union> set ?S" for kv
    using that valid seen_set_valid [OF tr, of kv "md_local d"] by (auto simp: list_all_iff entry_valid_def)
  have all_valid: "entry_valid (md_local d) kv" if "kv \<in> set ?new \<union> set ?gone" for kv
    using that valid seen_set_valid [OF tr, of kv "md_local d"] set0 by (auto simp: list_all_iff absent_def)
  have "list_all tracker.event_ok (map added ?new @ map removed ?gone)"
    using event_ok_valid all_valid by (simp add: list_all_iff) blast
  from tracker.run_tracks [OF this, of now m]
  have "cm_tracked (connector_run (cm_connect_op now) cm_disconnect_op (chan_buf (md_events (applyDiff shuf seen d))) m)
      = (cm_tracked m \<union> pi_PeerID ` snd ` set ?new) - pi_PeerID ` snd ` set ?gone"
    using tracker.track_changes [of "map snd ?new" "map snd ?gone" "cm_tracked m"] by (simp add: buf comp_def)
  also have "pi_PeerID ` snd ` set ?new = fst ` set ?new"
    unfolding image_image by (rule image_cong) (use ids set0 in \<open>auto simp: absent_def\<close>)
  also have "pi_PeerID ` snd ` set ?gone = fst ` set ?gone"
    unfolding image_image by (rule image_cong) (use ids set0 in \<open>auto simp: absent_def\<close>)
  finally show ?thesis
    using set0 by (auto simp: same absent_def map_of_eq_None_iff intro: rev_image_eqI)
qed

section \<open>Properties\<close>

text \<open>Every peer that discovery knows is valid, is stored under its own id, and is never the local peer.\<close>

theorem known_peers_valid:
  assumes "disc_reachable d" "map_of (md_entries d) k = Some i"
  shows "k = pi_PeerID i \<and> pi_IsValid i \<and> trimmed k \<and> k \<noteq> pi_PeerID (md_local d)"
  using disc.reach_inv [OF assms(1)] map_of_SomeD [OF assms(2)]
  by (auto simp: disc_inv_def list_all_iff entry_valid_def info_ok_def)

text \<open>C27: A scan and the connector together make the connection manager follow the network: when earlier
  events were taken and at most 32 can arise, then after the connector has taken the events of the scan the
  manager tracks exactly the valid peers other than the local one that the scan saw.\<close>

theorem connector_follows_scan:
  assumes "disc_reachable d" "md_resolver d" "\<And>n. any_order (shuf n)"
    and "chan_buf (md_events d) = []" "cm_tracked m = fst ` set (md_entries d)"
    and "scan shuf (Inr results) d = (err, d')"
    and "2 * length (scan_seen results) + length (md_entries d) \<le> 32"
  shows "err = None \<and> cm_tracked (connector_run (cm_connect_op now) cm_disconnect_op (chan_buf (md_events d')) m)
     = pi_PeerID ` {i. i \<in> snd ` set (scan_seen results) \<and> pi_IsValid i \<and> pi_PeerID i \<noteq> pi_PeerID (md_local d)}"
proof -
  let ?seen = "map snd (shuf 2 (scan_seen results))"
  have d': "d' = applyDiff shuf ?seen d" "err = None" using assms(2,6) by (auto simp: scan_def)
  have tr: "\<forall>i \<in> set ?seen. trimmed (pi_PeerID i)" by (rule scan_values_trimmed [OF assms(3)])
  have set2: "set ?seen = snd ` set (scan_seen results)" by (simp add: any_order_set [OF assms(3)])
  have "length (seen_set (md_local d) ?seen) \<le> length (scan_seen results)"
    using length_seen_set [of "md_local d" ?seen] any_order_length [OF assms(3)] by simp
  with assms(7) have "2 * length (seen_set (md_local d) ?seen) + length (md_entries d) \<le> 32" by linarith
  from connector_after_diff [OF assms(3) disc.reach_inv [OF assms(1)] tr assms(4,5) this]
  have "cm_tracked (connector_run (cm_connect_op now) cm_disconnect_op (chan_buf (md_events d')) m)
      = fst ` set (seen_set (md_local d) ?seen)" by (simp only: d')
  also have "\<dots> = pi_PeerID ` {i \<in> set ?seen. pi_IsValid i \<and> pi_PeerID i \<noteq> pi_PeerID (md_local d)}"
    by (rule conjunct2 [OF conjunct2 [OF seen_set_props]]) (use tr in blast)
  finally show ?thesis using d'(2) set2 by simp
qed

definition demo_disc :: MDNSDiscovery where
  "demo_disc = snd (md_Start (\<lambda>n xs. xs) None (Inr [])
     (NewMDNSDiscovery \<lparr>pi_PeerID = ''me'', pi_DisplayName = ''Me'', pi_Host = ''h'', pi_Port = 9000\<rparr> DefaultMDNSConfig))"

definition demo_entries :: "ServiceEntry option list" where
  "demo_entries =
     [Some \<lparr>se_HostName = ''bobs.local.'', se_AddrIPv4 = [], se_AddrIPv6 = [], se_Port = 9001,
        se_Text = [''peer_id=bob'', ''display_name=Bob'']\<rparr>,
      None,
      Some \<lparr>se_HostName = ''h'', se_AddrIPv4 = [], se_AddrIPv6 = [], se_Port = 9000, se_Text = [''peer_id=me'']\<rparr>]"

lemma demo_disc_reachable: "disc_reachable demo_disc"
proof -
  have r: "disc_reachable (NewMDNSDiscovery loc cfg)" for loc cfg by (rule reach_init) blast
  have "disc_step d (snd (md_Start (\<lambda>n xs. xs) f b d))" for d f b by (rule disc_start) (rule any_order_id)
  from reach_step [OF r this] show ?thesis unfolding demo_disc_def by blast
qed

lemma demo_disc_values: "md_resolver demo_disc" "chan_buf (md_events demo_disc) = []" "md_entries demo_disc = []"
  "length (scan_seen demo_entries) = 2"
  by code_simp+

theorem connector_follows_scan_witness:
  "cm_tracked (connector_run (cm_connect_op 7) cm_disconnect_op
      (chan_buf (md_events (snd (scan (\<lambda>n xs. rev xs) (Inr demo_entries) demo_disc)))) NewConnManager)
     = pi_PeerID ` {i. i \<in> snd ` set (scan_seen demo_entries) \<and> pi_IsValid i \<and> pi_PeerID i \<noteq> pi_PeerID (md_local demo_disc)}"
  by (rule conjunct2 [OF connector_follows_scan
        [OF demo_disc_reachable demo_disc_values(1) any_order_rev demo_disc_values(2) _ prod.collapse [symmetric]]])
    (simp_all add: demo_disc_values cm_tracked_def NewConnManager_def)

definition demo_disc2 :: MDNSDiscovery where
  "demo_disc2 = snd (scan (\<lambda>n xs. xs) (Inr demo_entries) demo_disc)"

lemma demo_disc2_reachable: "disc_reachable demo_disc2"
proof -
  have "disc_step d (snd (scan (\<lambda>n xs. xs) b d))" for d b by (rule disc_tick) (rule any_order_id)
  from reach_step [OF demo_disc_reachable this] show ?thesis unfolding demo_disc2_def by blast
qed

lemma demo_disc2_entry: "map_of (md_entries demo_disc2) ''bob'' =
    Some \<lparr>pi_PeerID = ''bob'', pi_DisplayName = ''Bob'', pi_Host = ''bobs.local.'', pi_Port = 9001\<rparr>"
  by code_simp

theorem known_peers_valid_witness: "''bob'' \<noteq> pi_PeerID (md_local demo_disc2)"
  using known_peers_valid [OF demo_disc2_reachable demo_disc2_entry] by simp

text \<open>An event that finds the channel full is lost for good: the peer is recorded as known, so no later
  scan that sees it announces it again, and the connector never dials it.\<close>

theorem full_channel_loses_peer:
  assumes "disc_reachable d" "length (chan_buf (md_events d)) = 32" "\<And>n. any_order (shuf n)"
    and "map_of (md_entries d) (pi_PeerID i) = None"
    and "pi_IsValid i" "trimmed (pi_PeerID i)" "pi_PeerID i \<noteq> pi_PeerID (md_local d)"
  shows "\<exists>d'. applyDiff shuf [i] d = d' \<and> md_events d' = md_events d \<and> map_of (md_entries d') (pi_PeerID i) = Some i
     \<and> (\<forall>ch. chan_open ch \<longrightarrow> applyDiff shuf [i] (d'\<lparr>md_events := ch\<rparr>) = d'\<lparr>md_events := ch\<rparr>)"
proof -
  have inv: "disc_inv d" by (rule disc.reach_inv [OF assms(1)])
  have tr: "\<forall>j \<in> set [i]. trimmed (pi_PeerID j)" using assms(6) by simp
  have S: "seen_set (md_local d) [i] = [(pi_PeerID i, i)]"
    using assms(5-7) by (simp add: seen_set_def info_ok_key info_ok_def)
  have one: "shuf 0 [(pi_PeerID i, i)] = [(pi_PeerID i, i)]"
    using assms(3) [of 0] by (metis any_order_def mset.simps mset_single_iff)
  have o: "chan_open (md_events d)" using inv by (simp add: disc_inv_def)
  let ?d = "applyDiff shuf [i] d"
  let ?E = "[(pi_PeerID i, i)]"
  have E: "md_entries ?d = ?E" "md_events ?d = md_events d" "md_local ?d = md_local d"
    using inv assms(2,4) by (auto simp: applyDiff_eq [OF assms(3) o tr] S one send_all_def disc_inv_def map_of_eq_None_iff
        filter_empty_conv intro: rev_image_eqI)
  have one': "shuf 1 ?E = ?E" using assms(3) [of 1] by (metis any_order_def mset.simps mset_single_iff)
  have "applyDiff shuf [i] d' = d'" if "md_local d' = md_local d" "md_entries d' = ?E" for d'
    using that one' by (simp add: applyDiff_def Let_def S one add_seen_def drop_unseen_def)
  then have "applyDiff shuf [i] (?d\<lparr>md_events := ch\<rparr>) = ?d\<lparr>md_events := ch\<rparr>" for ch by (simp add: E)
  with E show ?thesis by simp
qed

text \<open>A peer that comes and goes sixteen times, with nobody taking the events, fills the channel.\<close>

abbreviation demo_late :: PeerInfo where
  "demo_late \<equiv> \<lparr>pi_PeerID = ''eve'', pi_DisplayName = ''Eve'', pi_Host = ''h'', pi_Port = 9001\<rparr>"

primrec demo_churn :: "nat \<Rightarrow> MDNSDiscovery" where
  "demo_churn 0 = demo_disc"
| "demo_churn (Suc n) = snd (scan (\<lambda>n xs. xs) (Inr (if even n then demo_entries else [])) (demo_churn n))"

lemma demo_churn_reachable: "disc_reachable (demo_churn n)"
proof (induction n)
  case (Suc n)
  have "disc_step d (snd (scan (\<lambda>n xs. xs) b d))" for d b by (rule disc_tick) (rule any_order_id)
  from reach_step [OF Suc this] show ?case by simp
qed (simp add: demo_disc_reachable)

abbreviation demo_bob :: PeerInfo where
  "demo_bob \<equiv> \<lparr>pi_PeerID = ''bob'', pi_DisplayName = ''Bob'', pi_Host = ''bobs.local.'', pi_Port = 9001\<rparr>"

lemma demo_scans: "seen_set (md_local demo_disc) (map snd (scan_seen demo_entries)) = [(''bob'', demo_bob)]"
  "seen_set loc (map snd (scan_seen [])) = []" "chan_cap (md_events demo_disc) = 32" "chan_closed (md_events demo_disc) = False"
  by code_simp+

lemma demo_churn_state:
  "n \<le> 32 \<Longrightarrow> md_resolver (demo_churn n) \<and> md_local (demo_churn n) = md_local demo_disc
     \<and> chan_cap (md_events (demo_churn n)) = 32 \<and> \<not> chan_closed (md_events (demo_churn n))
     \<and> length (chan_buf (md_events (demo_churn n))) = n
     \<and> md_entries (demo_churn n) = (if even n then [] else [(''bob'', demo_bob)])"
proof (induction n)
  case 0
  then show ?case by (simp add: demo_disc_values demo_scans)
next
  case (Suc n)
  then show ?case
    by (simp add: scan_def applyDiff_def Let_def demo_scans add_seen_def drop_unseen_def send_event_def try_send_def)
qed

lemma demo_late_values: "pi_IsValid demo_late" "trimmed ''eve''" "pi_PeerID (md_local demo_disc) = ''me''"
  by code_simp+

theorem full_channel_loses_peer_witness:
  "md_events (applyDiff (\<lambda>n xs. xs) [demo_late] (demo_churn 32)) = md_events (demo_churn 32)"
  using full_channel_loses_peer [OF demo_churn_reachable [of 32] _ any_order_id, of demo_late]
    demo_churn_state [of 32] by (simp add: demo_late_values del: demo_churn.simps)

end
