(* ===== verification/Go_Json.thy ===== *)
theory Go_Json
  imports Go_Net
begin

text \<open>
  What the program uses of package \<open>encoding/json\<close>: the quoting of strings with Go's escapes (HTML
  characters, U+2028, U+2029 and invalid UTF-8 included), the scanner as a lexer and a stack machine
  with the nesting limit of 10000, values as trees, the compact printer and \<open>Indent\<close>. The main results
  are the round trips: unquoting what was quoted, and parsing what was printed.
\<close>

section \<open>UTF-8\<close>

definition byte_in :: "int \<Rightarrow> int \<Rightarrow> char \<Rightarrow> bool" where
  "byte_in lo hi c \<longleftrightarrow> lo \<le> of_char c \<and> of_char c \<le> hi"

text \<open>A first continuation byte in a range, then \<open>k\<close> bytes from 80 to BF.\<close>

fun conts :: "nat \<Rightarrow> int \<Rightarrow> int \<Rightarrow> string \<Rightarrow> bool" where
  "conts k lo hi [] = False"
| "conts 0 lo hi (c # s) = byte_in lo hi c"
| "conts (Suc k) lo hi (c # s) = (byte_in lo hi c \<and> conts k 128 191 s)"

text \<open>What must follow a first byte that is not ASCII: the number of bytes after the first continuation
  byte, and the range of that one.\<close>

definition lead :: "char \<Rightarrow> (nat \<times> int \<times> int) option" where
  "lead c =
     (if byte_in 194 223 c then Some (0, 128, 191)
      else if byte_in 224 239 c then
        Some (1, (if c = CHR 0xE0 then 160 else 128), (if c = CHR 0xED then 159 else 191))
      else if byte_in 240 244 c then
        Some (2, (if c = CHR 0xF0 then 144 else 128), (if c = CHR 0xF4 then 143 else 191))
      else None)"

text \<open>The length of the encoded rune at the front, 0 if \<open>utf8.DecodeRune\<close> reports an error.\<close>

fun utf8_len :: "string \<Rightarrow> nat" where
  "utf8_len [] = 0"
| "utf8_len (c # s) =
     (if byte_in 0 127 c then 1
      else case lead c of
        None \<Rightarrow> 0
      | Some (k, lo, hi) \<Rightarrow> if conts k lo hi s then k + 2 else 0)"

declare utf8_len.simps(2) [simp del]

fun valid_utf8 :: "string \<Rightarrow> bool" where
  "valid_utf8 [] = True"
| "valid_utf8 (c # s) = (0 < utf8_len (c # s) \<and> valid_utf8 (drop (utf8_len (c # s) - 1) s))"

text \<open>\<open>utf8.AppendRune\<close>.\<close>

definition rune_error :: string where
  "rune_error = [CHR 0xEF, CHR 0xBF, CHR 0xBD]"

definition utf8_enc :: "int \<Rightarrow> string" where
  "utf8_enc r =
     (if 0 \<le> r \<and> r < 128 then [char_of r]
      else if 128 \<le> r \<and> r < 2048 then [char_of (192 + r div 64), char_of (128 + r mod 64)]
      else if 2048 \<le> r \<and> r < 65536 \<and> \<not> (55296 \<le> r \<and> r < 57344) then
        [char_of (224 + r div 4096), char_of (128 + r div 64 mod 64), char_of (128 + r mod 64)]
      else if 65536 \<le> r \<and> r < 1114112 then
        [char_of (240 + r div 262144), char_of (128 + r div 4096 mod 64), char_of (128 + r div 64 mod 64), char_of (128 + r mod 64)]
      else rune_error)"

section \<open>Quoting\<close>

definition hexdig :: "int \<Rightarrow> char" where
  "hexdig n = (if n < 10 then char_of (48 + n) else char_of (87 + n))"

definition esc :: "char \<Rightarrow> string" where
  "esc c =
     (if c = CHR 0x22 then [CHR 0x5C, CHR 0x22]
      else if c = CHR 0x5C then [CHR 0x5C, CHR 0x5C]
      else if c = CHR 0x08 then [CHR 0x5C, CHR ''b'']
      else if c = CHR 0x0C then [CHR 0x5C, CHR ''f'']
      else if c = CHR 0x0A then [CHR 0x5C, CHR ''n'']
      else if c = CHR 0x0D then [CHR 0x5C, CHR ''r'']
      else if c = CHR 0x09 then [CHR 0x5C, CHR ''t'']
      else if byte_in 0 31 c \<or> c = CHR ''<'' \<or> c = CHR ''>'' \<or> c = CHR ''&'' then
        [CHR 0x5C, CHR ''u'', CHR ''0'', CHR ''0'', hexdig (of_char c div 16), hexdig (of_char c mod 16)]
      else [c])"

fun quote_body :: "string \<Rightarrow> string" where
  "quote_body [] = []"
| "quote_body (c # s) =
     (if byte_in 0 127 c then esc c @ quote_body s
      else let n = utf8_len (c # s) in
        if n = 0 then CHR 0x5C # ''ufffd'' @ quote_body s
        else if has_prefix (c # s) [CHR 0xE2, CHR 0x80, CHR 0xA8] then CHR 0x5C # ''u2028'' @ quote_body (drop (n - 1) s)
        else if has_prefix (c # s) [CHR 0xE2, CHR 0x80, CHR 0xA9] then CHR 0x5C # ''u2029'' @ quote_body (drop (n - 1) s)
        else take n (c # s) @ quote_body (drop (n - 1) s))"

definition hexval :: "char \<Rightarrow> int option" where
  "hexval c =
     (if byte_in 48 57 c then Some (of_char c - 48)
      else if byte_in 97 102 c then Some (of_char c - 87)
      else if byte_in 65 70 c then Some (of_char c - 55)
      else None)"

fun hex4 :: "string \<Rightarrow> int option" where
  "hex4 (a # b # c # d # s) =
     (case (hexval a, hexval b, hexval c, hexval d) of
        (Some w, Some x, Some y, Some z) \<Rightarrow> Some (((w * 16 + x) * 16 + y) * 16 + z)
      | _ \<Rightarrow> None)"
| "hex4 _ = None"

text \<open>\<open>getu4\<close>: the rune of an escape \<open>\uXXXX\<close> at the front.\<close>

fun getu4 :: "string \<Rightarrow> int option" where
  "getu4 (a # b # s) = (if a = CHR 0x5C \<and> b = CHR ''u'' then hex4 s else None)"
| "getu4 _ = None"

definition esc_val :: "char \<Rightarrow> char" where
  "esc_val e =
     (if e = CHR ''b'' then CHR 0x08 else if e = CHR ''f'' then CHR 0x0C else if e = CHR ''n'' then CHR 0x0A
      else if e = CHR ''r'' then CHR 0x0D else if e = CHR ''t'' then CHR 0x09 else e)"

definition is_surrogate :: "int \<Rightarrow> bool" where
  "is_surrogate r \<longleftrightarrow> 55296 \<le> r \<and> r < 57344"

definition surrogate_pair :: "int \<Rightarrow> int option \<Rightarrow> int option" where
  "surrogate_pair r o2 =
     (case o2 of None \<Rightarrow> None
      | Some r2 \<Rightarrow> if 55296 \<le> r \<and> r < 56320 \<and> 56320 \<le> r2 \<and> r2 < 57344
                  then Some ((r - 55296) * 1024 + (r2 - 56320) + 65536) else None)"

text \<open>The contents of a string literal the scanner accepted.\<close>

function unquote :: "string \<Rightarrow> string" where
  "unquote [] = []"
| "unquote (c # s) =
     (if c = CHR 0x5C then
        (case s of
           [] \<Rightarrow> []
         | e # t \<Rightarrow>
             if e \<noteq> CHR ''u'' then esc_val e # unquote t
             else case hex4 t of
                    None \<Rightarrow> []
                  | Some r \<Rightarrow>
                      if is_surrogate r then
                        (case surrogate_pair r (getu4 (drop 4 t)) of
                           Some v \<Rightarrow> utf8_enc v @ unquote (drop 10 t)
                         | None \<Rightarrow> rune_error @ unquote (drop 4 t))
                      else utf8_enc r @ unquote (drop 4 t))
      else if byte_in 0 127 c then c # unquote s
      else let n = utf8_len (c # s) in
        if n = 0 then rune_error @ unquote s
        else take n (c # s) @ unquote (drop (n - 1) s))"
  by pat_completeness auto
termination by (relation "measure length") auto

subsection \<open>Unquoting what was quoted\<close>

lemma byte_in_ascii: "\<not> byte_in 0 127 c \<longleftrightarrow> 128 \<le> (of_char c :: int)"
  by (auto simp: byte_in_def)

lemma hexval_hexdig: "0 \<le> n \<Longrightarrow> n < 16 \<Longrightarrow> hexval (hexdig n) = Some n"
  by (simp add: hexval_def hexdig_def byte_in_def)

lemma conts_take: "conts k lo hi s \<Longrightarrow> conts k lo hi (take (Suc k) s @ r) \<and> Suc k \<le> length s"
proof (induction k lo hi s rule: conts.induct)
  case (3 k lo hi c s)
  then show ?case by simp
qed simp_all

lemma utf8_len_take:
  assumes "0 < utf8_len (c # s)"
  shows "utf8_len (c # take (utf8_len (c # s) - 1) s @ r) = utf8_len (c # s)" "utf8_len (c # s) - 1 \<le> length s"
  using assms conts_take [of "fst (the (lead c))" "fst (snd (the (lead c)))" "snd (snd (the (lead c)))" s r]
  unfolding utf8_len.simps(2) by (auto split: if_splits option.splits)

lemma unquote_plain: "byte_in 0 127 c \<Longrightarrow> c \<noteq> CHR 0x5C \<Longrightarrow> unquote (c # s) = c # unquote s"
  by simp

lemma unquote_simple: "e \<noteq> CHR ''u'' \<Longrightarrow> unquote (CHR 0x5C # e # s) = esc_val e # unquote s"
  by simp

lemma unquote_u: "hex4 s = Some r \<Longrightarrow> \<not> is_surrogate r \<Longrightarrow> unquote (CHR 0x5C # CHR ''u'' # s) = utf8_enc r @ unquote (drop 4 s)"
  by simp

lemma unquote_multi: "\<not> byte_in 0 127 c \<Longrightarrow> 0 < utf8_len (c # s) \<Longrightarrow>
    unquote (c # s) = take (utf8_len (c # s)) (c # s) @ unquote (drop (utf8_len (c # s) - 1) s)"
  by (auto simp: Let_def byte_in_def)

declare unquote.simps(2) [simp del]

lemma unquote_esc:
  assumes "byte_in 0 127 c"
  shows "unquote (esc c @ s) = c # unquote s"
proof (cases "esc c = [c]")
  case True
  then have "c \<noteq> CHR 0x5C" by (auto simp: esc_def)
  with True assms show ?thesis by (simp add: unquote_plain)
next
  case False
  show ?thesis
  proof (cases "c \<in> {CHR 0x22, CHR 0x5C, CHR 0x08, CHR 0x0C, CHR 0x0A, CHR 0x0D, CHR 0x09}")
    case True
    then show ?thesis by (elim insertE emptyE) (simp_all add: esc_def unquote_simple esc_val_def)
  next
    case False
    let ?n = "of_char c :: int"
    have e: "esc c = [CHR 0x5C, CHR ''u'', CHR ''0'', CHR ''0'', hexdig (?n div 16), hexdig (?n mod 16)]"
      using False \<open>esc c \<noteq> [c]\<close> by (auto simp: esc_def split: if_splits)
    have n: "0 \<le> ?n" "?n < 128" using assms by (auto simp: byte_in_def)
    then have "hexval (hexdig (?n div 16)) = Some (?n div 16)" "hexval (hexdig (?n mod 16)) = Some (?n mod 16)"
      by (auto intro!: hexval_hexdig simp: pos_imp_zdiv_nonneg_iff)
    then have "hex4 (CHR ''0'' # CHR ''0'' # hexdig (?n div 16) # hexdig (?n mod 16) # s) = Some ?n"
      by (simp add: hexval_def [of "CHR ''0''"] byte_in_def)
    then have "unquote (esc c @ s) = utf8_enc ?n @ unquote s"
      unfolding e using n by (subst append_Cons, subst append_Cons, subst unquote_u) (auto simp: is_surrogate_def)
    then show ?thesis using n by (simp add: utf8_enc_def)
  qed
qed

lemma utf8_enc_2028:
  "utf8_enc 8232 = [CHR 0xE2, CHR 0x80, CHR 0xA8]" "utf8_enc 8233 = [CHR 0xE2, CHR 0x80, CHR 0xA9]"
  by code_simp+

lemma unquote_2028:
  "unquote (CHR 0x5C # ''u2028'' @ s) = [CHR 0xE2, CHR 0x80, CHR 0xA8] @ unquote s"
  "unquote (CHR 0x5C # ''u2029'' @ s) = [CHR 0xE2, CHR 0x80, CHR 0xA9] @ unquote s"
  by (simp_all add: unquote_u hexval_def byte_in_def is_surrogate_def utf8_enc_2028)

lemma utf8_len_2028: "utf8_len (CHR 0xE2 # CHR 0x80 # CHR 0xA8 # s) = 3" "utf8_len (CHR 0xE2 # CHR 0x80 # CHR 0xA9 # s) = 3"
  by (simp_all add: utf8_len.simps lead_def byte_in_def)

lemma has_prefix_append: "has_prefix s p \<Longrightarrow> \<exists>t. s = p @ t"
  by (simp add: has_prefix_iff prefix_def)

lemma unquote_quote_body: "valid_utf8 s \<Longrightarrow> unquote (quote_body s) = s"
proof (induction s rule: quote_body.induct)
  case (2 c s)
  let ?n = "utf8_len (c # s)"
  have v: "0 < ?n" "valid_utf8 (drop (?n - 1) s)" using 2(6) by simp_all
  consider (ascii) "byte_in 0 127 c" | (ls) "has_prefix (c # s) [CHR 0xE2, CHR 0x80, CHR 0xA8]"
    | (ps) "has_prefix (c # s) [CHR 0xE2, CHR 0x80, CHR 0xA9]"
    | (multi) "\<not> byte_in 0 127 c" "\<not> has_prefix (c # s) [CHR 0xE2, CHR 0x80, CHR 0xA8]"
        "\<not> has_prefix (c # s) [CHR 0xE2, CHR 0x80, CHR 0xA9]" by blast
  then show ?case
  proof cases
    case ascii
    then have "?n = 1" by (simp add: utf8_len.simps)
    with v ascii 2(1) show ?thesis by (simp add: unquote_esc)
  next
    case ls
    then obtain t where t: "c = CHR 0xE2" "s = CHR 0x80 # CHR 0xA8 # t" by (auto dest: has_prefix_append)
    with 2(3) v show ?thesis by (auto simp: unquote_2028 [simplified] utf8_len_2028 byte_in_def has_prefix_def)
  next
    case ps
    then obtain t where t: "c = CHR 0xE2" "s = CHR 0x80 # CHR 0xA9 # t" by (auto dest: has_prefix_append)
    with 2(4) v show ?thesis by (auto simp: unquote_2028 [simplified] utf8_len_2028 byte_in_def has_prefix_def)
  next
    case multi
    then have q: "quote_body (c # s) = c # take (?n - 1) s @ quote_body (drop (?n - 1) s)"
      using v(1) by (simp add: Let_def take_Cons')
    note u = utf8_len_take(1) [OF v(1), of "quote_body (drop (?n - 1) s)"] utf8_len_take(2) [OF v(1)]
    have "unquote (quote_body (c # s)) = c # take (?n - 1) s @ unquote (quote_body (drop (?n - 1) s))"
      unfolding q using multi(1) v(1) u by (simp add: unquote_multi take_Cons')
    then show ?thesis using 2(5) multi v by simp
  qed
qed simp

section \<open>The scanner\<close>

datatype token = TObjOpen | TObjClose | TArrOpen | TArrClose | TComma | TColon | TNull | TTrue | TFalse
  | TNum string | TStr string

text \<open>A string literal after its opening quote: the raw contents and what follows the closing quote.\<close>

definition simple_escape :: "char \<Rightarrow> bool" where
  "simple_escape e \<longleftrightarrow> e \<in> set [CHR ''b'', CHR ''f'', CHR ''n'', CHR ''r'', CHR ''t'', CHR 0x5C, CHR ''/'', CHR 0x22]"

fun lex_str :: "string \<Rightarrow> (string \<times> string) option" where
  "lex_str [] = None"
| "lex_str (c # s) =
     (if c = CHR 0x22 then Some ([], s)
      else if c = CHR 0x5C then
        (case s of
           [] \<Rightarrow> None
         | e # t \<Rightarrow>
             if simple_escape e \<or> e = CHR ''u'' \<and> hex4 t \<noteq> None
             then map_option (apfst (\<lambda>r. c # e # r)) (lex_str t) else None)
      else if byte_in 0 31 c then None
      else map_option (apfst ((#) c)) (lex_str s))"

text \<open>A number literal: sign, integer part without leading zeros, fraction and exponent.\<close>

definition lex_digits :: "string \<Rightarrow> (string \<times> string) option" where
  "lex_digits s = (let d = takeWhile is_digit s in if d = [] then None else Some (d, dropWhile is_digit s))"

definition lex_int :: "string \<Rightarrow> (string \<times> string) option" where
  "lex_int s = (case s of c # r \<Rightarrow> if c = CHR ''0'' then Some ([c], r) else lex_digits s | [] \<Rightarrow> None)"

definition lex_frac :: "string \<Rightarrow> (string \<times> string) option" where
  "lex_frac s = (case s of
     c # r \<Rightarrow> if c = CHR ''.'' then map_option (apfst ((#) c)) (lex_digits r) else Some ([], s)
   | [] \<Rightarrow> Some ([], s))"

definition lex_exp :: "string \<Rightarrow> (string \<times> string) option" where
  "lex_exp s = (case s of
     c # r \<Rightarrow>
       if c = CHR ''e'' \<or> c = CHR ''E'' then
         (case r of
            g # t \<Rightarrow> if g = CHR ''+'' \<or> g = CHR ''-'' then map_option (apfst (\<lambda>d. c # g # d)) (lex_digits t)
                     else map_option (apfst ((#) c)) (lex_digits r)
          | [] \<Rightarrow> None)
       else Some ([], s)
   | [] \<Rightarrow> Some ([], s))"

definition lex_num :: "string \<Rightarrow> (string \<times> string) option" where
  "lex_num s =
     (let (sg, s0) = (case s of c # r \<Rightarrow> if c = CHR ''-'' then ([c], r) else ([], s) | [] \<Rightarrow> ([], s)) in
      case lex_int s0 of None \<Rightarrow> None
      | Some (i, s1) \<Rightarrow> (case lex_frac s1 of None \<Rightarrow> None
      | Some (f, s2) \<Rightarrow> (case lex_exp s2 of None \<Rightarrow> None
      | Some (e, s3) \<Rightarrow> Some (sg @ i @ f @ e, s3))))"

lemma lex_str_length: "lex_str s = Some (raw, r) \<Longrightarrow> length r < length s"
proof (induction s arbitrary: raw r rule: lex_str.induct)
  case (2 c s)
  show ?case
  proof (cases "c = CHR 0x5C")
    case True
    with 2 show ?thesis by (auto split: list.splits if_splits) fastforce+
  next
    case False
    with 2 show ?thesis by (auto split: if_splits)
  qed
qed simp

lemma lex_digits_length: "lex_digits s = Some (d, r) \<Longrightarrow> length r < length s"
proof -
  assume "lex_digits s = Some (d, r)"
  then have d: "takeWhile is_digit s \<noteq> []" "r = dropWhile is_digit s" by (auto simp: lex_digits_def Let_def split: if_splits)
  have "length (takeWhile is_digit s) + length (dropWhile is_digit s) = length s"
    by (metis length_append takeWhile_dropWhile_id)
  with d show ?thesis by (cases "takeWhile is_digit s") simp_all
qed

lemma lex_num_length: "lex_num s = Some (l, r) \<Longrightarrow> length r < length s"
proof -
  have i: "lex_int t = Some (d, u) \<Longrightarrow> length u < length t" for t d u
    by (auto simp: lex_int_def split: list.splits if_splits dest: lex_digits_length)
  have f: "lex_frac t = Some (d, u) \<Longrightarrow> length u \<le> length t" for t d u
    by (auto simp: lex_frac_def split: list.splits if_splits dest: lex_digits_length)
  have e: "lex_exp t = Some (d, u) \<Longrightarrow> length u \<le> length t" for t d u
    by (auto simp: lex_exp_def split: list.splits if_splits dest: lex_digits_length)
  show "lex_num s = Some (l, r) \<Longrightarrow> ?thesis"
    by (auto simp: lex_num_def split: option.splits prod.splits list.splits if_splits dest!: i f e)
qed

definition is_ws :: "char \<Rightarrow> bool" where
  "is_ws c \<longleftrightarrow> c = CHR '' '' \<or> c = CHR 0x09 \<or> c = CHR 0x0A \<or> c = CHR 0x0D"

function lex :: "string \<Rightarrow> token list option" where
  "lex [] = Some []"
| "lex (c # s) =
     (if is_ws c then lex s
      else if c = CHR ''{'' then map_option ((#) TObjOpen) (lex s)
      else if c = CHR ''}'' then map_option ((#) TObjClose) (lex s)
      else if c = CHR ''['' then map_option ((#) TArrOpen) (lex s)
      else if c = CHR '']'' then map_option ((#) TArrClose) (lex s)
      else if c = CHR '','' then map_option ((#) TComma) (lex s)
      else if c = CHR '':'' then map_option ((#) TColon) (lex s)
      else if has_prefix (c # s) ''null'' then map_option ((#) TNull) (lex (drop 3 s))
      else if has_prefix (c # s) ''true'' then map_option ((#) TTrue) (lex (drop 3 s))
      else if has_prefix (c # s) ''false'' then map_option ((#) TFalse) (lex (drop 4 s))
      else if c = CHR 0x22 then
        (case lex_str s of None \<Rightarrow> None | Some (raw, r) \<Rightarrow> map_option ((#) (TStr raw)) (lex r))
      else
        (case lex_num (c # s) of None \<Rightarrow> None | Some (l, r) \<Rightarrow> map_option ((#) (TNum l)) (lex r)))"
  by pat_completeness auto
termination by (relation "measure length") (auto dest: lex_str_length lex_num_length)

declare lex.simps(2) [simp del]

section \<open>Values and the nesting of the scanner\<close>

text \<open>Values as the scanner delivers them: number literals and the contents of string literals and keys are raw.\<close>

datatype json = JNull | JBool bool | JNum string | JStr string | JArr "json list" | JObj "(string \<times> json) list"

text \<open>
  The stack of \<open>scanner.parseState\<close> with what was read so far (in reverse) in the open arrays and
  objects, and what the scanner expects next.
\<close>

datatype frame = FArr "json list" | FObj "(string \<times> json) list" string

datatype expecting = Val | ArrFirst | ArrNext "json list" | ObjFirst | ObjKey "(string \<times> json) list"
  | ObjColon "(string \<times> json) list" string | ObjNext "(string \<times> json) list" | End json

definition maxNestingDepth :: nat where
  "maxNestingDepth = 10000"

fun complete :: "json \<Rightarrow> frame list \<Rightarrow> expecting \<times> frame list" where
  "complete v [] = (End v, [])"
| "complete v (FArr xs # st) = (ArrNext (v # xs), st)"
| "complete v (FObj kvs k # st) = (ObjNext ((k, v) # kvs), st)"

definition open_container :: "expecting \<Rightarrow> frame list \<Rightarrow> (expecting \<times> frame list) option" where
  "open_container e st = (if Suc (length st) \<le> maxNestingDepth then Some (e, st) else None)"

fun value_token :: "token \<Rightarrow> frame list \<Rightarrow> (expecting \<times> frame list) option" where
  "value_token TNull st = Some (complete JNull st)"
| "value_token TTrue st = Some (complete (JBool True) st)"
| "value_token TFalse st = Some (complete (JBool False) st)"
| "value_token (TNum l) st = Some (complete (JNum l) st)"
| "value_token (TStr r) st = Some (complete (JStr r) st)"
| "value_token TArrOpen st = open_container ArrFirst st"
| "value_token TObjOpen st = open_container ObjFirst st"
| "value_token _ st = None"

fun scan_token :: "expecting \<times> frame list \<Rightarrow> token \<Rightarrow> (expecting \<times> frame list) option" where
  "scan_token (Val, st) t = value_token t st"
| "scan_token (ArrFirst, st) t = (if t = TArrClose then Some (complete (JArr []) st) else value_token t (FArr [] # st))"
| "scan_token (ArrNext xs, st) t =
     (if t = TComma then Some (Val, FArr xs # st)
      else if t = TArrClose then Some (complete (JArr (rev xs)) st) else None)"
| "scan_token (ObjFirst, st) t =
     (case t of TObjClose \<Rightarrow> Some (complete (JObj []) st) | TStr k \<Rightarrow> Some (ObjColon [] k, st) | _ \<Rightarrow> None)"
| "scan_token (ObjKey kvs, st) t = (case t of TStr k \<Rightarrow> Some (ObjColon kvs k, st) | _ \<Rightarrow> None)"
| "scan_token (ObjColon kvs k, st) t = (if t = TColon then Some (Val, FObj kvs k # st) else None)"
| "scan_token (ObjNext kvs, st) t =
     (if t = TComma then Some (ObjKey kvs, st)
      else if t = TObjClose then Some (complete (JObj (rev kvs)) st) else None)"
| "scan_token (End v, st) t = None"

fun scan_tokens :: "expecting \<times> frame list \<Rightarrow> token list \<Rightarrow> json option" where
  "scan_tokens (End v, st) [] = Some v"
| "scan_tokens s [] = None"
| "scan_tokens s (t # ts) = (case scan_token s t of None \<Rightarrow> None | Some s' \<Rightarrow> scan_tokens s' ts)"

text \<open>The value of a text that \<open>checkValid\<close> accepts.\<close>

definition Parse :: "string \<Rightarrow> json option" where
  "Parse s = (case lex s of None \<Rightarrow> None | Some ts \<Rightarrow> scan_tokens (Val, []) ts)"

section \<open>Printing\<close>

text \<open>
  The encoder's output with \<open>nl d\<close> where \<open>Indent\<close> breaks the line at depth \<open>d\<close> and \<open>sp\<close> after a
  colon: both empty for \<open>Marshal\<close>, a line feed with two blanks per level and a blank for
  \<open>MarshalIndent(v, "", "  ")\<close>.
\<close>

definition lit :: "string \<Rightarrow> string" where
  "lit raw = CHR 0x22 # raw @ [CHR 0x22]"

fun pr :: "(nat \<Rightarrow> string) \<Rightarrow> string \<Rightarrow> nat \<Rightarrow> json \<Rightarrow> string"
  and pr_elems :: "(nat \<Rightarrow> string) \<Rightarrow> string \<Rightarrow> nat \<Rightarrow> json list \<Rightarrow> string"
  and pr_fields :: "(nat \<Rightarrow> string) \<Rightarrow> string \<Rightarrow> nat \<Rightarrow> (string \<times> json) list \<Rightarrow> string" where
  "pr nl sp d JNull = ''null''"
| "pr nl sp d (JBool b) = (if b then ''true'' else ''false'')"
| "pr nl sp d (JNum l) = l"
| "pr nl sp d (JStr r) = lit r"
| "pr nl sp d (JArr []) = ''[]''"
| "pr nl sp d (JArr (v # vs)) =
     CHR ''['' # nl (Suc d) @ pr nl sp (Suc d) v @ pr_elems nl sp (Suc d) vs @ nl d @ '']''"
| "pr nl sp d (JObj []) = ''{}''"
| "pr nl sp d (JObj ((k, v) # kvs)) =
     CHR ''{'' # nl (Suc d) @ lit k @ CHR '':'' # sp @ pr nl sp (Suc d) v @ pr_fields nl sp (Suc d) kvs @ nl d @ ''}''"
| "pr_elems nl sp d [] = []"
| "pr_elems nl sp d (v # vs) = CHR '','' # nl d @ pr nl sp d v @ pr_elems nl sp d vs"
| "pr_fields nl sp d [] = []"
| "pr_fields nl sp d ((k, v) # kvs) = CHR '','' # nl d @ lit k @ CHR '':'' # sp @ pr nl sp d v @ pr_fields nl sp d kvs"

definition print_compact :: "json \<Rightarrow> string" where
  "print_compact v = pr (\<lambda>_. []) [] 0 v"

definition print_indent :: "json \<Rightarrow> string" where
  "print_indent v = pr (\<lambda>d. CHR 0x0A # replicate (2 * d) (CHR '' '')) '' '' 0 v"

fun toks :: "json \<Rightarrow> token list"
  and toks_elems :: "json list \<Rightarrow> token list"
  and toks_fields :: "(string \<times> json) list \<Rightarrow> token list" where
  "toks JNull = [TNull]"
| "toks (JBool b) = [if b then TTrue else TFalse]"
| "toks (JNum l) = [TNum l]"
| "toks (JStr r) = [TStr r]"
| "toks (JArr []) = [TArrOpen, TArrClose]"
| "toks (JArr (v # vs)) = TArrOpen # toks v @ toks_elems vs @ [TArrClose]"
| "toks (JObj []) = [TObjOpen, TObjClose]"
| "toks (JObj ((k, v) # kvs)) = TObjOpen # TStr k # TColon # toks v @ toks_fields kvs @ [TObjClose]"
| "toks_elems [] = []"
| "toks_elems (v # vs) = TComma # toks v @ toks_elems vs"
| "toks_fields [] = []"
| "toks_fields ((k, v) # kvs) = TComma # TStr k # TColon # toks v @ toks_fields kvs"

fun jdepth :: "json \<Rightarrow> nat"
  and jdepth_elems :: "json list \<Rightarrow> nat"
  and jdepth_fields :: "(string \<times> json) list \<Rightarrow> nat" where
  "jdepth (JArr vs) = Suc (jdepth_elems vs)"
| "jdepth (JObj kvs) = Suc (jdepth_fields kvs)"
| "jdepth _ = 0"
| "jdepth_elems [] = 0"
| "jdepth_elems (v # vs) = max (jdepth v) (jdepth_elems vs)"
| "jdepth_fields [] = 0"
| "jdepth_fields ((k, v) # kvs) = max (jdepth v) (jdepth_fields kvs)"

text \<open>The stack machine rebuilds the value of its tokens.\<close>

lemma scan_toks:
  "jdepth v + length st \<le> maxNestingDepth \<Longrightarrow> scan_tokens (Val, st) (toks v @ ts) = scan_tokens (complete v st) ts"
  "jdepth_elems vs + length st < maxNestingDepth \<Longrightarrow>
     scan_tokens (ArrNext xs, st) (toks_elems vs @ TArrClose # ts) = scan_tokens (complete (JArr (rev xs @ vs)) st) ts"
  "jdepth_fields kvs + length st < maxNestingDepth \<Longrightarrow>
     scan_tokens (ObjNext fs, st) (toks_fields kvs @ TObjClose # ts) = scan_tokens (complete (JObj (rev fs @ kvs)) st) ts"
proof (induction v and vs and kvs arbitrary: st ts and st ts xs and st ts fs rule: toks_toks_elems_toks_fields.induct)
  case (6 v vs)
  have "scan_tokens (ArrFirst, st) (toks v @ t) = scan_tokens (Val, FArr [] # st) (toks v @ t)" for t
    by (cases v rule: toks.cases) simp_all
  with 6 show ?case by (simp add: open_container_def)
qed (simp_all add: open_container_def)

subsection \<open>Literals the encoder writes\<close>

definition raw_ok :: "string \<Rightarrow> bool" where
  "raw_ok r \<longleftrightarrow> (\<forall>s. lex_str (r @ CHR 0x22 # s) = Some (r, s))"

definition delim :: "string \<Rightarrow> bool" where
  "delim s \<longleftrightarrow> s = [] \<or> is_ws (hd s) \<or> hd s = CHR '','' \<or> hd s = CHR ''}'' \<or> hd s = CHR '']''"

definition num_ok :: "string \<Rightarrow> bool" where
  "num_ok l \<longleftrightarrow> l \<noteq> [] \<and> (hd l = CHR ''-'' \<or> is_digit (hd l)) \<and> (\<forall>s. delim s \<longrightarrow> lex_num (l @ s) = Some (l, s))"

definition lex_plain :: "char \<Rightarrow> bool" where
  "lex_plain c \<longleftrightarrow> c \<noteq> CHR 0x22 \<and> c \<noteq> CHR 0x5C \<and> \<not> byte_in 0 31 c"

lemma lex_str_plain: "list_all lex_plain u \<Longrightarrow> lex_str (u @ r) = map_option (apfst ((@) u)) (lex_str r)"
  by (induction u) (cases "lex_str r"; auto simp: lex_plain_def)+

lemma raw_ok_Nil: "raw_ok []"
  by (simp add: raw_ok_def)

lemma raw_ok_plain: "list_all lex_plain u \<Longrightarrow> raw_ok r \<Longrightarrow> raw_ok (u @ r)"
  by (simp add: raw_ok_def lex_str_plain)

lemma raw_ok_escape: "simple_escape e \<Longrightarrow> raw_ok r \<Longrightarrow> raw_ok (CHR 0x5C # e # r)"
  by (simp add: raw_ok_def)

lemma hex4_append: "hex4 u = Some n \<Longrightarrow> hex4 (u @ r) = Some n"
  by (cases u rule: hex4.cases) (auto split: option.splits)

lemma raw_ok_u: "hex4 u = Some n \<Longrightarrow> list_all lex_plain u \<Longrightarrow> raw_ok r \<Longrightarrow> raw_ok (CHR 0x5C # CHR ''u'' # u @ r)"
  by (simp add: raw_ok_def lex_str_plain hex4_append)

lemma hexdig_plain: "0 \<le> n \<Longrightarrow> n < 16 \<Longrightarrow> lex_plain (hexdig n)"
proof -
  assume n: "0 \<le> n" "n < 16"
  then have "of_char (hexdig n) \<in> {48..57} \<union> {97..102 :: int}" by (auto simp: hexdig_def)
  then show ?thesis by (auto simp: lex_plain_def byte_in_def)
qed

lemma raw_ok_esc:
  assumes "byte_in 0 127 c" "raw_ok r"
  shows "raw_ok (esc c @ r)"
proof -
  let ?n = "of_char c :: int"
  have n: "0 \<le> ?n div 16" "?n div 16 < 16" "0 \<le> ?n mod 16" "?n mod 16 < 16"
    using assms(1) by (auto simp: byte_in_def pos_imp_zdiv_nonneg_iff)
  have "hex4 [CHR ''0'', CHR ''0'', hexdig (?n div 16), hexdig (?n mod 16)] \<noteq> None"
    using n by (simp add: hexval_hexdig) (simp add: hexval_def byte_in_def)
  then have u: "raw_ok (CHR 0x5C # CHR ''u'' # CHR ''0'' # CHR ''0'' # hexdig (?n div 16) # hexdig (?n mod 16) # r)"
    using raw_ok_u [of "[CHR ''0'', CHR ''0'', hexdig (?n div 16), hexdig (?n mod 16)]" _ r] n assms(2)
    by (auto simp: hexdig_plain lex_plain_def [of "CHR ''0''"] byte_in_def [of _ _ "CHR ''0''"] simp del: hex4.simps)
  have p: "raw_ok ([c] @ r)" if "c \<noteq> CHR 0x22" "c \<noteq> CHR 0x5C" "\<not> byte_in 0 31 c"
    by (rule raw_ok_plain [OF _ assms(2)]) (simp add: lex_plain_def that)
  show ?thesis
    using u p assms(2) by (auto simp: esc_def raw_ok_escape simple_escape_def)
qed

lemma high_plain: "\<not> byte_in 0 127 c \<Longrightarrow> lex_plain c"
  by (auto simp: lex_plain_def byte_in_def)

lemma conts_plain: "conts k lo hi s \<Longrightarrow> 128 \<le> lo \<Longrightarrow> list_all lex_plain (take (Suc k) s)"
  by (induction k lo hi s rule: conts.induct) (auto simp: byte_in_def lex_plain_def)

lemma lead_low: "lead c = Some (k, lo, hi) \<Longrightarrow> 128 \<le> lo"
  by (auto simp: lead_def split: if_splits)

lemma utf8_plain:
  assumes "\<not> byte_in 0 127 c"
  shows "list_all lex_plain (take (utf8_len (c # s)) (c # s))"
proof (cases "utf8_len (c # s) = 0")
  case False
  then obtain k lo hi where "lead c = Some (k, lo, hi)" "conts k lo hi s" "utf8_len (c # s) = k + 2"
    using assms by (auto simp: utf8_len.simps split: option.splits if_splits)
  with conts_plain [of k lo hi s] lead_low high_plain [OF assms] show ?thesis by simp
qed simp

lemma raw_ok_quote_body: "raw_ok (quote_body s)"
proof (induction s rule: quote_body.induct)
  case (2 c s)
  have h: "raw_ok (CHR 0x5C # CHR ''u'' # CHR ''f'' # CHR ''f'' # CHR ''f'' # CHR ''d'' # r)"
    "raw_ok (CHR 0x5C # CHR ''u'' # CHR ''2'' # CHR ''0'' # CHR ''2'' # CHR ''8'' # r)"
    "raw_ok (CHR 0x5C # CHR ''u'' # CHR ''2'' # CHR ''0'' # CHR ''2'' # CHR ''9'' # r)" if "raw_ok r" for r
    using that by (auto simp: raw_ok_def simple_escape_def hexval_def byte_in_def)
  show ?case
  proof (cases "byte_in 0 127 c")
    case True
    with 2 show ?thesis by (simp add: raw_ok_esc)
  next
    case False
    with 2 h raw_ok_plain [OF utf8_plain [OF False]] show ?thesis by (simp add: Let_def del: take_Cons)
  qed
qed (simp add: raw_ok_Nil)

lemma dropWhile_digits: "delim s \<Longrightarrow> list_all is_digit d \<Longrightarrow> takeWhile is_digit (d @ s) = d \<and> dropWhile is_digit (d @ s) = s"
proof -
  assume "delim s" "list_all is_digit d"
  moreover from this have "s = [] \<or> \<not> is_digit (hd s)" by (auto simp: delim_def is_ws_def is_digit_def)
  ultimately show ?thesis
    by (cases s) (auto simp: list_all_iff takeWhile_append dropWhile_append)
qed

lemma num_tail: "delim s \<Longrightarrow> lex_frac s = Some ([], s) \<and> lex_exp s = Some ([], s)"
  by (cases s) (auto simp: delim_def is_ws_def lex_frac_def lex_exp_def)

lemma digits_hd: "0 < n \<Longrightarrow> hd (digits n) \<noteq> CHR ''0''"
proof (induction n rule: digits.induct)
  case (1 n)
  show ?case
  proof (cases "n < 10")
    case True
    have "digit_val (digit n) \<noteq> digit_val (CHR ''0'')" using 1(2) True by (simp add: digit_val_def [of "CHR ''0''"])
    then show ?thesis using True by (subst digits.simps) auto
  next
    case False
    then have "hd (digits (n div 10)) \<noteq> CHR ''0''" using 1(1) by auto
    then show ?thesis using False by (subst digits.simps) simp
  qed
qed

lemma digits_lex:
  assumes "0 \<le> n" "delim s"
  shows "lex_int (digits n @ s) = Some (digits n, s)"
proof (cases "hd (digits n) = CHR ''0''")
  case True
  then have "\<not> 0 < n" using digits_hd by blast
  with assms(1) have "n = 0" by simp
  moreover have "digits 0 = [CHR ''0'']" by code_simp
  ultimately show ?thesis by (simp add: lex_int_def)
next
  case False
  then obtain c t where ct: "digits n = c # t" "c \<noteq> CHR ''0''" by (cases "digits n") auto
  have "lex_digits (digits n @ s) = Some (digits n, s)"
    using dropWhile_digits [OF assms(2) digits_are_digits [OF assms(1)]] by (simp add: lex_digits_def)
  with ct show ?thesis by (simp add: lex_int_def)
qed

lemma num_ok_FormatInt: "num_ok (FormatInt i)"
proof -
  have d: "digits n \<noteq> [] \<and> is_digit (hd (digits n))" if "0 \<le> n" for n
    using digits_are_digits [OF that] by (cases "digits n") auto
  have "lex_num (FormatInt i @ s) = Some (FormatInt i, s)" if s: "delim s" for s
  proof (cases "i < 0")
    case True
    then show ?thesis using digits_lex [of "- i" s] s num_tail [OF s] by (simp add: FormatInt_def lex_num_def)
  next
    case False
    then have "hd (digits i) \<noteq> CHR ''-''" using d [of i] by (auto simp: is_digit_def)
    moreover obtain c t where "digits i = c # t" by (cases "digits i") auto
    ultimately show ?thesis
      using False digits_lex [of i s] s num_tail [OF s] by (simp add: FormatInt_def lex_num_def)
  qed
  then show ?thesis using d by (auto simp: num_ok_def FormatInt_def)
qed

subsection \<open>Parsing what was printed\<close>

fun jok :: "json \<Rightarrow> bool"
  and jok_elems :: "json list \<Rightarrow> bool"
  and jok_fields :: "(string \<times> json) list \<Rightarrow> bool" where
  "jok (JNum l) = num_ok l"
| "jok (JStr r) = raw_ok r"
| "jok (JArr vs) = jok_elems vs"
| "jok (JObj kvs) = jok_fields kvs"
| "jok _ = True"
| "jok_elems [] = True"
| "jok_elems (v # vs) = (jok v \<and> jok_elems vs)"
| "jok_fields [] = True"
| "jok_fields ((k, v) # kvs) = (raw_ok k \<and> jok v \<and> jok_fields kvs)"

lemma lex_punct:
  "lex (CHR ''{'' # s) = map_option ((#) TObjOpen) (lex s)" "lex (CHR ''}'' # s) = map_option ((#) TObjClose) (lex s)"
  "lex (CHR ''['' # s) = map_option ((#) TArrOpen) (lex s)" "lex (CHR '']'' # s) = map_option ((#) TArrClose) (lex s)"
  "lex (CHR '','' # s) = map_option ((#) TComma) (lex s)" "lex (CHR '':'' # s) = map_option ((#) TColon) (lex s)"
  by (simp_all add: lex.simps is_ws_def)

lemma lex_words:
  "lex (CHR ''n'' # CHR ''u'' # CHR ''l'' # CHR ''l'' # s) = map_option ((#) TNull) (lex s)"
  "lex (CHR ''t'' # CHR ''r'' # CHR ''u'' # CHR ''e'' # s) = map_option ((#) TTrue) (lex s)"
  "lex (CHR ''f'' # CHR ''a'' # CHR ''l'' # CHR ''s'' # CHR ''e'' # s) = map_option ((#) TFalse) (lex s)"
  by (simp_all add: lex.simps(2) is_ws_def has_prefix_def)

lemma lex_ws: "list_all is_ws w \<Longrightarrow> lex (w @ s) = lex s"
  by (induction w) (simp_all add: lex.simps)

lemma lex_lit: "raw_ok r \<Longrightarrow> lex (lit r @ s) = map_option ((#) (TStr r)) (lex s)"
  by (simp add: lit_def lex.simps(2) is_ws_def has_prefix_def raw_ok_def)

lemma lex_number:
  assumes "num_ok l" "delim s"
  shows "lex (l @ s) = map_option ((#) (TNum l)) (lex s)"
proof -
  obtain c t where l: "l = c # t" "c = CHR ''-'' \<or> is_digit c" "lex_num (c # t @ s) = Some (l, s)"
    using assms by (cases l) (auto simp: num_ok_def)
  from l(2) have "\<not> is_ws c" "c \<noteq> CHR ''{''" "c \<noteq> CHR ''}''" "c \<noteq> CHR ''[''" "c \<noteq> CHR '']''" "c \<noteq> CHR '',''" "c \<noteq> CHR '':''"
    "c \<noteq> CHR ''n''" "c \<noteq> CHR ''t''" "c \<noteq> CHR ''f''" "c \<noteq> CHR 0x22"
    by (auto simp: is_ws_def is_digit_def)
  then show ?thesis using l(3) by (simp add: l(1) lex.simps(2) has_prefix_def)
qed

lemma delim_tail: "list_all is_ws w \<Longrightarrow> delim (w @ CHR '']'' # s)" "list_all is_ws w \<Longrightarrow> delim (w @ CHR ''}'' # s)"
  by (cases w; simp add: delim_def)+

lemma delim_more:
  "list_all is_ws w \<Longrightarrow> delim (pr_elems nl sp d vs @ w @ CHR '']'' # s)"
  "list_all is_ws w \<Longrightarrow> delim (pr_fields nl sp d kvs @ w @ CHR ''}'' # s)"
  by (cases vs, simp_all add: delim_tail delim_def [of "_ # _"]) (cases kvs, auto simp: delim_tail delim_def [of "_ # _"])

lemma lex_pr:
  assumes nl: "\<And>d. list_all is_ws (nl d)" and sp: "list_all is_ws sp"
  shows "jok v \<Longrightarrow> delim s \<Longrightarrow> lex s = Some ts \<Longrightarrow> lex (pr nl sp d v @ s) = Some (toks v @ ts)"
    "jok_elems vs \<Longrightarrow> lex s = Some ts \<Longrightarrow> lex (pr_elems nl sp d vs @ nl e @ CHR '']'' # s) = Some (toks_elems vs @ TArrClose # ts)"
    "jok_fields kvs \<Longrightarrow> lex s = Some ts \<Longrightarrow> lex (pr_fields nl sp d kvs @ nl e @ CHR ''}'' # s) = Some (toks_fields kvs @ TObjClose # ts)"
proof (induction v and vs and kvs arbitrary: s d ts and s d e ts and s d e ts rule: toks_toks_elems_toks_fields.induct)
qed (simp_all add: lex_punct lex_words lex_lit lex_number lex_ws nl sp delim_more)

theorem Parse_pr:
  assumes "\<And>d. list_all is_ws (nl d)" "list_all is_ws sp" "jok v" "jdepth v \<le> maxNestingDepth"
  shows "Parse (pr nl sp d v) = Some v"
proof -
  have "lex (pr nl sp d v @ []) = Some (toks v @ [])"
    by (rule lex_pr(1) [OF assms(1-3)]) (simp_all add: delim_def)
  with scan_toks(1) [of v "[]" "[]"] assms(4) show ?thesis by (simp add: Parse_def)
qed

corollary Parse_print_compact: "jok v \<Longrightarrow> jdepth v \<le> maxNestingDepth \<Longrightarrow> Parse (print_compact v) = Some v"
  unfolding print_compact_def by (rule Parse_pr) simp_all

corollary Parse_print_indent: "jok v \<Longrightarrow> jdepth v \<le> maxNestingDepth \<Longrightarrow> Parse (print_indent v) = Some v"
  unfolding print_indent_def by (rule Parse_pr) (simp_all add: is_ws_def list_all_iff)

section \<open>Decoding into Go values\<close>

text \<open>
  \<open>None\<close> is an \<open>UnmarshalTypeError\<close> (or the error of \<open>Time.UnmarshalJSON\<close>): the decoder may go on after
  it, but \<open>Unmarshal\<close> returns it and the callers drop the value. \<open>null\<close> leaves the destination as it is.
\<close>

fun dec_string :: "json \<Rightarrow> string \<Rightarrow> string option" where
  "dec_string JNull old = Some old"
| "dec_string (JStr r) old = Some (unquote r)"
| "dec_string _ old = None"

fun dec_int :: "json \<Rightarrow> int \<Rightarrow> int option" where
  "dec_int JNull old = Some old"
| "dec_int (JNum l) old = Atoi l"
| "dec_int _ old = None"

fun dec_bool :: "json \<Rightarrow> bool \<Rightarrow> bool option" where
  "dec_bool JNull old = Some old"
| "dec_bool (JBool b) old = Some b"
| "dec_bool _ old = None"

text \<open>\<open>Time.UnmarshalJSON\<close> reads the raw contents of the literal.\<close>

fun dec_time :: "json \<Rightarrow> time \<Rightarrow> time option" where
  "dec_time JNull old = Some old"
| "dec_time (JStr r) old = ParseRFC3339 r"
| "dec_time _ old = None"

text \<open>Slices: element \<open>i\<close> is decoded over the old element \<open>i\<close>, or over the zero value.\<close>

fun dec_elems :: "('a \<Rightarrow> json \<Rightarrow> 'a option) \<Rightarrow> 'a \<Rightarrow> json list \<Rightarrow> 'a list \<Rightarrow> 'a list option" where
  "dec_elems f z [] old = Some []"
| "dec_elems f z (v # vs) old =
     (case f (case old of [] \<Rightarrow> z | o1 # _ \<Rightarrow> o1) v of
        None \<Rightarrow> None
      | Some x \<Rightarrow> map_option ((#) x) (dec_elems f z vs (drop 1 old)))"

fun dec_slice :: "('a \<Rightarrow> json \<Rightarrow> 'a option) \<Rightarrow> 'a \<Rightarrow> json \<Rightarrow> 'a list \<Rightarrow> 'a list option" where
  "dec_slice f z JNull old = Some []"
| "dec_slice f z (JArr vs) old = dec_elems f z vs old"
| "dec_slice f z _ old = None"

text \<open>The struct field an object key names: an exact match, else a match under case folding.\<close>

definition find_field :: "string list \<Rightarrow> string \<Rightarrow> string option" where
  "find_field names key =
     (if key \<in> set names then Some key else find (\<lambda>n. fold_ascii n = fold_ascii key) names)"

primrec decode_fields :: "string list \<Rightarrow> (string \<Rightarrow> json \<Rightarrow> 'r \<Rightarrow> 'r option) \<Rightarrow> (string \<times> json) list \<Rightarrow> 'r \<Rightarrow> 'r option" where
  "decode_fields names set_field [] r = Some r"
| "decode_fields names set_field (kv # kvs) r =
     (case find_field names (unquote (fst kv)) of
        None \<Rightarrow> decode_fields names set_field kvs r
      | Some n \<Rightarrow> (case set_field n (snd kv) r of
          None \<Rightarrow> None
        | Some r' \<Rightarrow> decode_fields names set_field kvs r'))"

fun decode_struct :: "string list \<Rightarrow> (string \<Rightarrow> json \<Rightarrow> 'r \<Rightarrow> 'r option) \<Rightarrow> json \<Rightarrow> 'r \<Rightarrow> 'r option" where
  "decode_struct names set_field JNull r = Some r"
| "decode_struct names set_field (JObj kvs) r = decode_fields names set_field kvs r"
| "decode_struct names set_field _ r = None"

definition jstr :: "string \<Rightarrow> json" where
  "jstr s = JStr (quote_body s)"

definition jint :: "int \<Rightarrow> json" where
  "jint i = JNum (FormatInt i)"

definition jtime :: "time \<Rightarrow> json" where
  "jtime t = JStr (FormatNano t)"

definition jobj :: "(string \<times> json) list \<Rightarrow> json" where
  "jobj kvs = JObj (map (\<lambda>(k, v). (quote_body k, v)) kvs)"

lemma dec_jstr [simp]: "valid_utf8 s \<Longrightarrow> dec_string (jstr s) old = Some s"
  by (simp add: jstr_def unquote_quote_body)

lemma dec_jint [simp]: "in_int64 i \<Longrightarrow> dec_int (jint i) old = Some i"
  by (simp add: jint_def Atoi_FormatInt)

lemma dec_jtime [simp]: "printable_time t \<Longrightarrow> dec_time (jtime t) old = Some t"
  by (simp add: jtime_def Parse_FormatNano)

lemma jok_jstr [simp]: "jok (jstr s)"
  by (simp add: jstr_def raw_ok_quote_body)

lemma jok_jint [simp]: "jok (jint i)"
  by (simp add: jint_def num_ok_FormatInt)

lemma jok_jobj [simp]: "jok (jobj kvs) \<longleftrightarrow> list_all (\<lambda>kv. jok (snd kv)) kvs"
  by (induction kvs) (auto simp: jobj_def raw_ok_quote_body)

lemma jdepth_jobj: "jdepth (jobj kvs) = Suc (foldr (\<lambda>kv. max (jdepth (snd kv))) kvs 0)"
  by (induction kvs) (auto simp: jobj_def)

lemma jdepth_flat [simp]: "jdepth (jstr s) = 0" "jdepth (jint i) = 0" "jdepth (jtime t) = 0"
  by (simp_all add: jstr_def jint_def jtime_def)

text \<open>Decoding an object the encoder built: one step per field.\<close>

lemma decode_jobj_Nil [simp]: "decode_struct names f (jobj []) r = Some r"
  by (simp add: jobj_def)

lemma decode_jobj_Cons [simp]:
  "list_all valid_utf8 names \<Longrightarrow> k \<in> set names \<Longrightarrow> decode_struct names f (jobj ((k, v) # kvs)) r =
     (case f k v r of None \<Rightarrow> None | Some r' \<Rightarrow> decode_struct names f (jobj kvs) r')"
  by (auto simp: jobj_def list_all_iff unquote_quote_body find_field_def split: option.split)

lemma digit_plain: "is_digit c \<Longrightarrow> lex_plain c"
  by (auto simp: is_digit_def lex_plain_def byte_in_def)

lemma raw_ok_list: "list_all lex_plain u \<Longrightarrow> raw_ok u"
  using raw_ok_plain [OF _ raw_ok_Nil, of u] by simp

lemma plain_chars: "lex_plain (CHR ''-'')" "lex_plain (CHR ''0'')" "lex_plain (CHR ''.'')" "lex_plain (CHR ''T'')"
  "lex_plain (CHR '':'')" "lex_plain (CHR ''Z'')"
  by (simp_all add: lex_plain_def byte_in_def)

lemma FormatNano_plain: "list_all lex_plain (FormatNano t)"
proof -
  have d: "list_all is_digit u \<Longrightarrow> list_all lex_plain u" for u by (auto simp: list_all_iff digit_plain)
  have "list_all lex_plain (digits n)" if "0 \<le> n" for n by (rule d [OF digits_are_digits [OF that]])
  moreover have p: "list_all lex_plain (padk k n)" for k n by (rule d [OF padk_digits])
  ultimately have y: "list_all lex_plain (pad_year y)" for y
    by (simp add: pad_year_def Let_def plain_chars list_all_iff [of _ "replicate _ _"])
  have "list_all lex_plain (frac_text ns)" for ns
    using p [of 9 ns] set_dropWhileD [of _ _ "rev (padk 9 ns)"]
    by (auto simp: frac_text_def list_all_iff plain_chars)
  with y p show ?thesis by (simp add: FormatNano_def Let_def plain_chars split: prod.split)
qed

lemma jok_jtime [simp]: "jok (jtime t)"
  by (simp add: jtime_def raw_ok_list FormatNano_plain)

text \<open>Printable ASCII is UTF-8.\<close>

lemma visible_utf8: "list_all visible s \<Longrightarrow> valid_utf8 s"
proof (induction s)
  case (Cons b s)
  then have "utf8_len (b # s) = 1" by (simp add: visible_def utf8_len.simps byte_in_def Let_def)
  with Cons show ?case by simp
qed simp

end
