(* ===== verification/Framing.thy ===== *)
theory Framing
  imports Go_Json
begin

text \<open>
  \<^verbatim>\<open>internal/protocol/framing.go\<close> and the JSON text of a message (\<open>MarshalMessage\<close>,
  \<open>UnmarshalMessage\<close> of \<^verbatim>\<open>message.go\<close>): length-prefixed frames over a byte stream. A stream to read
  is the bytes that arrive and the error after them; a stream to write is a function from the
  number of the call and the data to the count or error that \<open>Write\<close> returns.
\<close>

section \<open>The JSON text of a message\<close>

definition message_fields :: "string list" where
  "message_fields = [''version'', ''id'', ''type'', ''sender_id'', ''recipient_id'', ''group_id'', ''timestamp'', ''body'']"

definition omitempty :: "string \<Rightarrow> string \<Rightarrow> (string \<times> json) list" where
  "omitempty k s = (if s = [] then [] else [(k, jstr s)])"

definition message_json :: "Message \<Rightarrow> json" where
  "message_json m =
     jobj ([(''version'', jint (Version m)), (''id'', jstr (ID m)), (''type'', jstr (Type m)), (''sender_id'', jstr (SenderID m))]
       @ omitempty ''recipient_id'' (RecipientID m) @ omitempty ''group_id'' (GroupID m)
       @ [(''timestamp'', jtime (Timestamp m)), (''body'', jstr (Body m))])"

definition set_message_field :: "string \<Rightarrow> json \<Rightarrow> Message \<Rightarrow> Message option" where
  "set_message_field n v m =
     (if n = ''version'' then map_option (\<lambda>x. m\<lparr>Version := x\<rparr>) (dec_int v (Version m))
      else if n = ''id'' then map_option (\<lambda>x. m\<lparr>ID := x\<rparr>) (dec_string v (ID m))
      else if n = ''type'' then map_option (\<lambda>x. m\<lparr>Type := x\<rparr>) (dec_string v (Type m))
      else if n = ''sender_id'' then map_option (\<lambda>x. m\<lparr>SenderID := x\<rparr>) (dec_string v (SenderID m))
      else if n = ''recipient_id'' then map_option (\<lambda>x. m\<lparr>RecipientID := x\<rparr>) (dec_string v (RecipientID m))
      else if n = ''group_id'' then map_option (\<lambda>x. m\<lparr>GroupID := x\<rparr>) (dec_string v (GroupID m))
      else if n = ''timestamp'' then map_option (\<lambda>x. m\<lparr>Timestamp := x\<rparr>) (dec_time v (Timestamp m))
      else map_option (\<lambda>x. m\<lparr>Body := x\<rparr>) (dec_string v (Body m)))"

definition zero_message :: Message where
  "zero_message = \<lparr>Version = 0, ID = [], Type = [], SenderID = [], RecipientID = [], GroupID = [], Timestamp = zero_time, Body = []\<rparr>"

text \<open>\<open>json.Marshal\<close> fails only on a time whose year has not four digits.\<close>

definition MarshalMessage :: "Message \<Rightarrow> proto_error + string" where
  "MarshalMessage m =
     (case Validate m of
        Some e \<Rightarrow> Inl e
      | None \<Rightarrow> if printable_time (Timestamp m) then Inr (print_compact (message_json m)) else Inl ErrMarshal)"

definition UnmarshalMessage :: "string \<Rightarrow> proto_error + Message" where
  "UnmarshalMessage data =
     (case Option.bind (Parse data) (\<lambda>v. decode_struct message_fields set_message_field v zero_message) of
        None \<Rightarrow> Inl ErrInvalidJSON
      | Some m \<Rightarrow> (case Validate m of Some e \<Rightarrow> Inl e | None \<Rightarrow> Inr m))"

section \<open>Frames\<close>

definition frameHeaderSize :: nat where "frameHeaderSize = 4"
definition MaxFrameSize :: "32 word" where "MaxFrameSize = push_bit 20 1"

datatype io_error = EOF | UnexpectedEOF | OtherIO string

datatype frame_error = FrameIO io_error | FrameEmpty | ErrFrameTooLarge "32 word" | FrameMsg proto_error

text \<open>\<open>binary.BigEndian\<close>.\<close>

definition PutUint32 :: "32 word \<Rightarrow> string" where
  "PutUint32 w = map (\<lambda>k. char_of (take_bit 8 (drop_bit k (uint w)))) [24, 16, 8, 0]"

definition Uint32 :: "string \<Rightarrow> 32 word" where
  "Uint32 s = word_of_int (foldl (\<lambda>n c. 256 * n + of_char c) 0 s)"

text \<open>\<open>writeAll\<close> over a writer \<open>wr\<close>; the result has the number of calls made and the bytes written.
  \<open>data[n:]\<close> panics when the writer claims more than it was given.\<close>

datatype write_end = WriteOk | WriteErr string | WritePanic

type_synonym writer = "nat \<Rightarrow> string \<Rightarrow> nat \<times> string option"

partial_function (option) writeAll :: "writer \<Rightarrow> string \<Rightarrow> nat \<times> string \<Rightarrow> (write_end \<times> nat \<times> string) option" where
  "writeAll wr data s =
     (if data = [] then Some (WriteOk, s)
      else case wr (fst s) data of
        (n, Some e) \<Rightarrow> Some (WriteErr e, Suc (fst s), snd s @ take n data)
      | (n, None) \<Rightarrow>
          if length data < n then Some (WritePanic, Suc (fst s), snd s @ data)
          else writeAll wr (drop n data) (Suc (fst s), snd s @ take n data))"

datatype write_result = Wrote | WriteFailed string | WriteRefused proto_error | WritePanicked

definition WriteMessage :: "writer \<Rightarrow> Message \<Rightarrow> nat \<times> string \<Rightarrow> (write_result \<times> nat \<times> string) option" where
  "WriteMessage wr m s =
     (case MarshalMessage m of
        Inl e \<Rightarrow> Some (WriteRefused e, s)
      | Inr payload \<Rightarrow>
          Option.bind (writeAll wr (PutUint32 (of_nat (length payload))) s) (\<lambda>(r1, s1).
            case r1 of
              WriteErr e \<Rightarrow> Some (WriteFailed e, s1)
            | WritePanic \<Rightarrow> Some (WritePanicked, s1)
            | WriteOk \<Rightarrow>
                Option.bind (writeAll wr payload s1) (\<lambda>(r2, s2).
                  Some (case r2 of WriteOk \<Rightarrow> Wrote | WriteErr e \<Rightarrow> WriteFailed e | WritePanic \<Rightarrow> WritePanicked, s2))))"

text \<open>\<open>io.ReadFull\<close> of \<open>n > 0\<close> bytes from a stream that ends with the error \<open>fin\<close>.\<close>

definition ReadFull :: "nat \<Rightarrow> io_error \<Rightarrow> string \<Rightarrow> (io_error + string) \<times> string" where
  "ReadFull n fin s =
     (if n \<le> length s then (Inr (take n s), drop n s)
      else if s \<noteq> [] \<and> fin = EOF then (Inl UnexpectedEOF, [])
      else (Inl fin, []))"

definition ReadMessage :: "io_error \<Rightarrow> string \<Rightarrow> (frame_error + Message) \<times> string" where
  "ReadMessage fin s =
     (case ReadFull frameHeaderSize fin s of
        (Inl e, s1) \<Rightarrow> (Inl (FrameIO e), s1)
      | (Inr header, s1) \<Rightarrow>
          let length = Uint32 header in
          if length = 0 then (Inl FrameEmpty, s1)
          else if MaxFrameSize < length then (Inl (ErrFrameTooLarge length), s1)
          else case ReadFull (unat length) fin s1 of
            (Inl e, s2) \<Rightarrow> (Inl (FrameIO e), s2)
          | (Inr payload, s2) \<Rightarrow>
              (case UnmarshalMessage payload of Inl e \<Rightarrow> (Inl (FrameMsg e), s2) | Inr m \<Rightarrow> (Inr m, s2)))"

section \<open>Round trip of the text\<close>

definition utf8_message :: "Message \<Rightarrow> bool" where
  "utf8_message m \<longleftrightarrow> list_all valid_utf8 [ID m, SenderID m, RecipientID m, GroupID m, Body m]"

lemma message_fields_utf8: "list_all valid_utf8 message_fields"
  by code_simp

lemma jdepth_message: "jdepth (message_json m) = 1"
  by (simp add: message_json_def jdepth_jobj omitempty_def)

lemma jok_message: "jok (message_json m)"
  by (simp add: message_json_def omitempty_def)

lemma Parse_message: "Parse (print_compact (message_json m)) = Some (message_json m)"
  by (rule Parse_print_compact) (simp_all add: jok_message jdepth_message maxNestingDepth_def)

lemma set_message_field_simps:
  "set_message_field ''version'' v m = map_option (\<lambda>x. m\<lparr>Version := x\<rparr>) (dec_int v (Version m))"
  "set_message_field ''id'' v m = map_option (\<lambda>x. m\<lparr>ID := x\<rparr>) (dec_string v (ID m))"
  "set_message_field ''type'' v m = map_option (\<lambda>x. m\<lparr>Type := x\<rparr>) (dec_string v (Type m))"
  "set_message_field ''sender_id'' v m = map_option (\<lambda>x. m\<lparr>SenderID := x\<rparr>) (dec_string v (SenderID m))"
  "set_message_field ''recipient_id'' v m = map_option (\<lambda>x. m\<lparr>RecipientID := x\<rparr>) (dec_string v (RecipientID m))"
  "set_message_field ''group_id'' v m = map_option (\<lambda>x. m\<lparr>GroupID := x\<rparr>) (dec_string v (GroupID m))"
  "set_message_field ''timestamp'' v m = map_option (\<lambda>x. m\<lparr>Timestamp := x\<rparr>) (dec_time v (Timestamp m))"
  "set_message_field ''body'' v m = map_option (\<lambda>x. m\<lparr>Body := x\<rparr>) (dec_string v (Body m))"
  by (simp_all add: set_message_field_def)

lemma message_fields_mem:
  "''version'' \<in> set message_fields" "''id'' \<in> set message_fields" "''type'' \<in> set message_fields"
  "''sender_id'' \<in> set message_fields" "''recipient_id'' \<in> set message_fields" "''group_id'' \<in> set message_fields"
  "''timestamp'' \<in> set message_fields" "''body'' \<in> set message_fields"
  by (simp_all add: message_fields_def)

lemma type_utf8: "well_formed m \<Longrightarrow> valid_utf8 (Type m)"
proof -
  have "list_all valid_utf8 [''chat'', ''join'', ''leave'', ''system'']" by code_simp
  then show "well_formed m \<Longrightarrow> valid_utf8 (Type m)" by (auto simp: well_formed_def)
qed

lemma decode_message:
  assumes "well_formed m" "utf8_message m" "printable_time (Timestamp m)"
  shows "decode_struct message_fields set_message_field (message_json m) zero_message = Some m"
proof -
  have "in_int64 (Version m)" using assms(1) by (simp add: well_formed_def in_int64_def)
  then show ?thesis
    using assms(2,3) type_utf8 [OF assms(1)]
    by (simp add: message_json_def message_fields_utf8 message_fields_mem omitempty_def set_message_field_simps utf8_message_def zero_message_def)
qed

lemma Unmarshal_Marshal:
  assumes "Validate m = None" "utf8_message m" "printable_time (Timestamp m)"
  shows "\<exists>text. MarshalMessage m = Inr text \<and> UnmarshalMessage text = Inr m"
  using assms decode_message [of m] Validate_iff [of m]
  by (simp add: MarshalMessage_def UnmarshalMessage_def Parse_message)

section \<open>Size of the text\<close>

lemma quote_body_length: "length (quote_body s) \<le> 6 * length s"
proof (induction s rule: quote_body.induct)
  case (2 c s)
  have e: "length (esc c) \<le> 6" by (simp add: esc_def)
  show ?case
  proof (cases "byte_in 0 127 c")
    case True
    with 2(1) e show ?thesis by simp
  next
    case False
    let ?n = "utf8_len (c # s)"
    show ?thesis
    proof (cases "?n = 0")
      case True
      with 2(2) False show ?thesis by simp
    next
      case n: False
      have "length (quote_body (drop (?n - 1) s)) \<le> 6 * (length s - (?n - 1))"
        using 2(3-5) False n by (cases "has_prefix (c # s) [CHR 0xE2, CHR 0x80, CHR 0xA8]";
            cases "has_prefix (c # s) [CHR 0xE2, CHR 0x80, CHR 0xA9]") simp_all
      moreover have "?n - 1 \<le> length s" using utf8_len_take(2) n by simp
      ultimately show ?thesis using False n by (auto simp: Let_def)
    qed
  qed
qed simp

lemma FormatNano_length:
  assumes "printable_time t"
  shows "length (FormatNano t) \<le> 30"
proof -
  define day where "day = t div second div 86400"
  obtain y m d where c: "civil day = (y, m, d)" by (metis prod_cases3)
  have "year_start 0 \<le> day" "day < year_start 10000"
    using assms div_mult_mod_eq [of t 1000000000] div_mult_mod_eq [of "t div 1000000000" 86400]
      pos_mod_bound [of 1000000000 t] pos_mod_sign [of 1000000000 t]
      pos_mod_bound [of 86400 "t div 1000000000"] pos_mod_sign [of 86400 "t div 1000000000"]
    unfolding printable_time_def second_def day_def by linarith+
  note y = civil_year_range [OF c this]
  have "length (frac_text ns) \<le> 10" for ns
    using length_dropWhile_le [of _ "rev (padk 9 ns)"] by (simp add: frac_text_def)
  then show ?thesis using y c by (simp add: FormatNano_def Let_def pad_year_def day_def)
qed

lemma MarshalMessage_length:
  assumes "MarshalMessage m = Inr text"
  shows "length text \<le> 2 ^ 20" "text \<noteq> []"
proof -
  have m: "well_formed m" "printable_time (Timestamp m)" and tx: "text = print_compact (message_json m)"
    using assms Validate_iff [of m] by (auto simp: MarshalMessage_def split: option.splits if_splits)
  have b: "length (Type m) \<le> 6" "length (FormatInt (Version m)) \<le> 20"
    using m(1) FormatInt_length [of "Version m"] by (auto simp: well_formed_def in_int64_def)
  have w: "length (ID m) \<le> 256" "length (SenderID m) \<le> 512" "length (RecipientID m) \<le> 512"
     "length (GroupID m) \<le> 512" "length (Body m) \<le> 65536" using m(1) by (simp_all add: well_formed_def)
  note q = quote_body_length [of "''version''"] quote_body_length [of "''id''"] quote_body_length [of "''type''"]
    quote_body_length [of "''sender_id''"] quote_body_length [of "''recipient_id''"] quote_body_length [of "''group_id''"]
    quote_body_length [of "''timestamp''"] quote_body_length [of "''body''"]
    quote_body_length [of "ID m"] quote_body_length [of "Type m"] quote_body_length [of "SenderID m"]
    quote_body_length [of "RecipientID m"] quote_body_length [of "GroupID m"] quote_body_length [of "Body m"]
  have "length text \<le> 500000"
    unfolding tx using b w q FormatNano_length [OF m(2)]
    by (simp add: print_compact_def message_json_def jobj_def jstr_def jint_def jtime_def omitempty_def lit_def del: quote_body.simps)
  then show "length text \<le> 2 ^ 20" by simp
  show "text \<noteq> []" unfolding tx by (simp add: print_compact_def message_json_def jobj_def)
qed

section \<open>Round trip of frames\<close>

lemma char_byte: "0 \<le> n \<Longrightarrow> n < 256 \<Longrightarrow> of_char (char_of n :: char) = (n :: int)"
  by simp

lemma Uint32_PutUint32: "Uint32 (PutUint32 w) = w"
proof -
  have *: "of_char (char_of (take_bit 8 x) :: char) = take_bit 8 x" for x :: int
    using take_bit_int_less_exp [of 8 x] by (intro char_byte) simp_all
  define n where "n = uint w"
  have n: "0 \<le> n" "n < 2 ^ 32" using uint_lt2p [of w] by (simp_all add: n_def)
  define a b c where "a = n div 256" and "b = a div 256" and "c = b div 256"
  have e: "a * 256 + n mod 256 = n" "b * 256 + a mod 256 = a" "c * 256 + b mod 256 = b"
    unfolding a_def b_def c_def by (simp_all only: div_mult_mod_eq)
  have e4: "c mod 256 = c" using n by (simp add: a_def b_def c_def zdiv_zmult2_eq [symmetric])
  have sum: "((c mod 256 * 256 + b mod 256) * 256 + a mod 256) * 256 + n mod 256 = n" by (simp only: e4 e)
  have div: "n div 2 ^ 24 = c" "n div 2 ^ 16 = b" "n div 2 ^ 8 = a"
    by (simp_all add: a_def b_def c_def zdiv_zmult2_eq [symmetric])
  have "foldl (\<lambda>n c. 256 * n + of_char c) 0 (PutUint32 w) = n"
    using sum by (simp add: PutUint32_def * take_bit_eq_mod drop_bit_eq_div div [simplified] flip: n_def)
  then show ?thesis by (simp add: Uint32_def n_def)
qed

lemma PutUint32_length [simp]: "length (PutUint32 w) = 4"
  by (simp add: PutUint32_def)

text \<open>The bytes of a frame.\<close>

definition frame_of :: "string \<Rightarrow> string" where
  "frame_of text = PutUint32 (of_nat (length text)) @ text"

lemma ReadMessage_frame:
  assumes "MarshalMessage m = Inr text" "UnmarshalMessage text = Inr m"
  shows "ReadMessage fin (frame_of text @ rest) = (Inr m, rest)"
proof -
  note l = MarshalMessage_length [OF assms(1)]
  then have u: "unat (of_nat (length text) :: 32 word) = length text" by (simp add: unat_of_nat)
  moreover have "(of_nat (length text) :: 32 word) \<noteq> 0" using u l(2) by (metis length_0_conv unat_0)
  moreover have "\<not> MaxFrameSize < of_nat (length text)" using l(1) u by (simp add: MaxFrameSize_def word_less_nat_alt)
  ultimately show ?thesis
    using assms(2) by (simp add: ReadMessage_def ReadFull_def frame_of_def frameHeaderSize_def Uint32_PutUint32 Let_def)
qed

text \<open>\<open>writeAll\<close> returns for every writer that makes progress, and a writer without errors gets all the data.\<close>

definition progressive :: "writer \<Rightarrow> bool" where
  "progressive wr \<longleftrightarrow> (\<forall>k data. data \<noteq> [] \<longrightarrow> snd (wr k data) = None \<longrightarrow> 0 < fst (wr k data) \<and> fst (wr k data) \<le> length data)"

definition faultless :: "writer \<Rightarrow> bool" where
  "faultless wr \<longleftrightarrow> (\<forall>k data. snd (wr k data) = None)"

lemma writeAll_returns:
  assumes "progressive wr"
  shows "\<exists>r k out. writeAll wr data s = Some (r, k, out) \<and> r \<noteq> WritePanic \<and> prefix out (snd s @ data)
    \<and> (r = WriteOk \<longrightarrow> out = snd s @ data) \<and> (faultless wr \<longrightarrow> r = WriteOk)"
proof (induction "length data" arbitrary: data s rule: less_induct)
  case less
  show ?case
  proof (cases "data = []")
    case True
    then show ?thesis by (cases s) (simp add: writeAll.simps)
  next
    case False
    obtain n e where ne: "wr (fst s) data = (n, e)" by fastforce
    show ?thesis
    proof (cases e)
      case None
      with assms False ne have n: "0 < n" "n \<le> length data" by (auto simp: progressive_def dest!: spec [of _ "fst s"] spec [of _ data])
      with less [of "drop n data" "(Suc (fst s), snd s @ take n data)"] False
      show ?thesis by (simp add: writeAll.simps [of wr data] ne None)
    next
      case (Some x)
      have "\<not> faultless wr" using ne Some unfolding faultless_def by (metis option.distinct(1) snd_conv)
      with False ne Some show ?thesis by (simp add: writeAll.simps [of wr data] take_is_prefix)
    qed
  qed
qed

section \<open>Streams of messages\<close>

text \<open>A self-delimiting code: decoding one value from the front of a stream gives back the value and the
  rest, so any number of values can be read from the concatenation of their codes.\<close>

locale stream_codec =
  fixes enc :: "'m \<Rightarrow> string" and dec :: "string \<Rightarrow> ('m \<times> string) option" and ok :: "'m \<Rightarrow> bool"
  assumes dec_enc: "ok m \<Longrightarrow> dec (enc m @ rest) = Some (m, rest)"
begin

primrec dec_many :: "nat \<Rightarrow> string \<Rightarrow> ('m list \<times> string) option" where
  "dec_many 0 s = Some ([], s)"
| "dec_many (Suc n) s = Option.bind (dec s) (\<lambda>(m, r). map_option (apfst ((#) m)) (dec_many n r))"

lemma dec_many_enc: "list_all ok ms \<Longrightarrow> dec_many (length ms) (concat (map enc ms) @ rest) = Some (ms, rest)"
  by (induction ms) (simp_all add: dec_enc)

end

definition sendable :: "Message \<Rightarrow> bool" where
  "sendable m \<longleftrightarrow> Validate m = None \<and> utf8_message m \<and> printable_time (Timestamp m)"

definition message_frame :: "Message \<Rightarrow> string" where
  "message_frame m = frame_of (projr (MarshalMessage m))"

definition read_one :: "string \<Rightarrow> (Message \<times> string) option" where
  "read_one s = (case ReadMessage EOF s of (Inr m, r) \<Rightarrow> Some (m, r) | _ \<Rightarrow> None)"

interpretation frames: stream_codec message_frame read_one sendable
proof
  fix m rest
  assume "sendable m"
  then obtain t where "MarshalMessage m = Inr t" "UnmarshalMessage t = Inr m"
    using Unmarshal_Marshal [of m] by (auto simp: sendable_def)
  then show "read_one (message_frame m @ rest) = Some (m, rest)"
    by (simp add: read_one_def message_frame_def ReadMessage_frame)
qed

primrec read_messages :: "nat \<Rightarrow> string \<Rightarrow> (Message list \<times> string) option" where
  "read_messages 0 s = Some ([], s)"
| "read_messages (Suc n) s = Option.bind (read_one s) (\<lambda>(m, r). map_option (apfst ((#) m)) (read_messages n r))"

lemma read_messages_dec_many: "read_messages n s = frames.dec_many n s"
  by (induction n arbitrary: s) simp_all

primrec write_messages :: "writer \<Rightarrow> Message list \<Rightarrow> nat \<times> string \<Rightarrow> (write_result \<times> nat \<times> string) option" where
  "write_messages wr [] s = Some (Wrote, s)"
| "write_messages wr (m # ms) s =
     Option.bind (WriteMessage wr m s) (\<lambda>(r, s'). if r = Wrote then write_messages wr ms s' else Some (r, s'))"

lemma writeAll_faultless:
  assumes "progressive wr" "faultless wr"
  shows "\<exists>k. writeAll wr data s = Some (WriteOk, k, snd s @ data)"
proof -
  obtain r k out where "writeAll wr data s = Some (r, k, out)"
     "r = WriteOk \<longrightarrow> out = snd s @ data" "faultless wr \<longrightarrow> r = WriteOk"
    using writeAll_returns [OF assms(1), of data s] by blast
  with assms(2) show ?thesis by auto
qed

lemma WriteMessage_frame:
  assumes "progressive wr" "faultless wr" "MarshalMessage m = Inr t"
  shows "\<exists>k. WriteMessage wr m s = Some (Wrote, k, snd s @ message_frame m)"
proof -
  let ?h = "PutUint32 (of_nat (length t))"
  obtain k1 where 1: "writeAll wr ?h s = Some (WriteOk, k1, snd s @ ?h)"
    using writeAll_faultless [OF assms(1,2)] by blast
  obtain k2 where 2: "writeAll wr t (k1, snd s @ ?h) = Some (WriteOk, k2, (snd s @ ?h) @ t)"
    using writeAll_faultless [OF assms(1,2), of t "(k1, snd s @ ?h)"] by auto
  show ?thesis by (simp add: WriteMessage_def assms(3) 1 2 message_frame_def frame_of_def)
qed

lemma write_messages_frames:
  assumes "progressive wr" "faultless wr"
  shows "list_all sendable ms \<Longrightarrow> \<exists>k. write_messages wr ms s = Some (Wrote, k, snd s @ concat (map message_frame ms))"
proof (induction ms arbitrary: s)
  case Nil
  then show ?case by (cases s) simp
next
  case (Cons m ms)
  then obtain t where "MarshalMessage m = Inr t" using Unmarshal_Marshal [of m] by (auto simp: sendable_def)
  then obtain k where "WriteMessage wr m s = Some (Wrote, k, snd s @ message_frame m)"
    using WriteMessage_frame [OF assms] by blast
  with Cons.IH [of "(k, snd s @ message_frame m)"] Cons.prems show ?case by simp
qed

lemma ReadFull_bound:
  "ReadFull n fin s = (r, s') \<Longrightarrow> suffix s' s \<and> (\<forall>x. r = Inr x \<longrightarrow> s = x @ s' \<and> length x = n)"
  by (auto simp: ReadFull_def suffix_drop split: if_splits)

lemma Unmarshal_valid: "UnmarshalMessage p = Inr m \<Longrightarrow> Validate m = None"
  by (auto simp: UnmarshalMessage_def split: option.splits)

text \<open>The outcomes of reading a message, with what each took from the stream.\<close>

lemma ReadMessage_cases:
  assumes "ReadMessage fin s = (r, rest)"
  obtains (io) e where "r = Inl (FrameIO e)" "e = fin \<or> e = UnexpectedEOF" "suffix rest s"
  | (empty) h where "r = Inl FrameEmpty" "s = h @ rest" "length h = 4"
  | (large) h n where "r = Inl (ErrFrameTooLarge n)" "s = h @ rest" "length h = 4" "MaxFrameSize < n"
  | (payload) h p n where "s = h @ p @ rest" "length h = 4" "length p = unat n" "n \<le> MaxFrameSize"
      "r = (case UnmarshalMessage p of Inl e \<Rightarrow> Inl (FrameMsg e) | Inr m \<Rightarrow> Inr m)"
proof (cases "ReadFull frameHeaderSize fin s")
  case (Pair r1 s1)
  note b1 = ReadFull_bound [OF this]
  show thesis
  proof (cases r1)
    case (Inl e)
    then have "r = Inl (FrameIO e)" "rest = s1" using assms Pair by (auto simp: ReadMessage_def)
    moreover have "e = fin \<or> e = UnexpectedEOF" using Pair Inl by (auto simp: ReadFull_def split: if_splits)
    ultimately show thesis using b1 by (intro io) auto
  next
    case (Inr h)
    then have h: "s = h @ s1" "length h = 4" using b1 by (auto simp: frameHeaderSize_def)
    let ?n = "Uint32 h"
    have R: "ReadMessage fin s = (if ?n = 0 then (Inl FrameEmpty, s1)
          else if MaxFrameSize < ?n then (Inl (ErrFrameTooLarge ?n), s1)
          else case ReadFull (unat ?n) fin s1 of
            (Inl e, s2) \<Rightarrow> (Inl (FrameIO e), s2)
          | (Inr payload, s2) \<Rightarrow>
              (case UnmarshalMessage payload of Inl e \<Rightarrow> (Inl (FrameMsg e), s2) | Inr m \<Rightarrow> (Inr m, s2)))"
      using Pair Inr by (simp add: ReadMessage_def Let_def)
    consider "?n = 0" | "MaxFrameSize < ?n" "?n \<noteq> 0" | "?n \<noteq> 0" "\<not> MaxFrameSize < ?n" by blast
    then show thesis
    proof cases
      case 1 then show thesis using R assms h by (intro empty) auto
    next
      case 2 then show thesis using R assms h by (intro large) auto
    next
      case 3
      obtain r2 s2 where r2: "ReadFull (unat ?n) fin s1 = (r2, s2)" by fastforce
      note b2 = ReadFull_bound [OF r2]
      show thesis
      proof (cases r2)
        case (Inl e)
        moreover have "e = fin \<or> e = UnexpectedEOF" using r2 Inl by (auto simp: ReadFull_def split: if_splits)
        ultimately show thesis using 3 R assms r2 b2 h by (intro io [of e]) (auto simp: suffix_append)
      next
        case (Inr p)
        with 3 R assms r2 b2 h show thesis by (intro payload [of h p ?n]) (auto split: sum.splits)
      qed
    qed
  qed
qed

section \<open>Properties\<close>

text \<open>C5: Messages survive the wire: any sequence of valid messages with UTF-8 texts and four-digit years, written
  over a writer that makes progress without errors, however it splits the writes, is read back from the bytes in
  the same order with every field unchanged, and then the reader reports the end of the stream.\<close>

theorem frames_roundtrip:
  assumes "progressive wr" "faultless wr" "list_all sendable ms"
  shows "\<exists>k bytes. write_messages wr ms (0, []) = Some (Wrote, k, bytes)
    \<and> read_messages (length ms) bytes = Some (ms, []) \<and> ReadMessage EOF [] = (Inl (FrameIO EOF), [])"
proof -
  obtain k where "write_messages wr ms (0, []) = Some (Wrote, k, concat (map message_frame ms))"
    using write_messages_frames [OF assms, of "(0, [])"] by auto
  moreover have "read_messages (length ms) (concat (map message_frame ms)) = Some (ms, [])"
    using frames.dec_many_enc [OF assms(3), of "[]"] by (simp add: read_messages_dec_many)
  moreover have "ReadMessage EOF [] = (Inl (FrameIO EOF), [])" by (simp add: ReadMessage_def ReadFull_def frameHeaderSize_def)
  ultimately show ?thesis by blast
qed

text \<open>A writer that takes at most three bytes at a time.\<close>

definition demo_writer :: writer where
  "demo_writer k data = (min 3 (length data), None)"

definition demo_msg :: Message where
  "demo_msg = \<lparr>Version = 1, ID = ''7'', Type = ''chat'', SenderID = ''ab'', RecipientID = ''cd'', GroupID = [],
     Timestamp = unix_epoch + 5, Body = ''<hi> '' @ [CHR 0xE2, CHR 0x80, CHR 0xA8, CHR 0x0A]\<rparr>"

lemma demo_msg_sendable: "sendable demo_msg"
proof -
  have "Validate demo_msg = None" "utf8_message demo_msg" "printable_time (Timestamp demo_msg)" by code_simp+
  then show ?thesis by (simp add: sendable_def)
qed

lemma demo_writer_ok: "progressive demo_writer" "faultless demo_writer"
  by (auto simp: progressive_def faultless_def demo_writer_def)

theorem frames_roundtrip_witness:
  "\<exists>k bytes. write_messages demo_writer [demo_msg, demo_msg] (0, []) = Some (Wrote, k, bytes)
    \<and> read_messages 2 bytes = Some ([demo_msg, demo_msg], [])"
  using frames_roundtrip [OF demo_writer_ok, of "[demo_msg, demo_msg]"] demo_msg_sendable by (auto simp: numeral_2_eq_2)


lemma demo_oversized: "ReadMessage EOF [CHR 0xFF, CHR 0xFF, CHR 0xFF, CHR 0xFF, CHR 0x00] =
    (Inl (ErrFrameTooLarge 4294967295), [CHR 0x00])"
  by code_simp


text \<open>Every message that \<open>MarshalMessage\<close> accepts fits in a frame: its text is never empty and never exceeds
  the limit that readers enforce.\<close>

theorem marshalled_fits_frame:
  assumes "MarshalMessage m = Inr payload"
  shows "0 < length payload \<and> of_nat (length payload) \<le> MaxFrameSize \<and> unat (of_nat (length payload) :: 32 word) = length payload"
  using MarshalMessage_length [OF assms] by (simp add: MaxFrameSize_def word_le_nat_alt unat_of_nat)

lemma demo_marshal: "\<exists>payload. MarshalMessage demo_msg = Inr payload"
proof -
  have "isl (MarshalMessage demo_msg) = False" by code_simp
  then show ?thesis by (cases "MarshalMessage demo_msg") auto
qed

theorem marshalled_fits_frame_witness: "\<exists>payload. MarshalMessage demo_msg = Inr payload \<and> 0 < length payload"
  using marshalled_fits_frame [of demo_msg] demo_marshal by blast

lemma WriteMessage_sendable:
  assumes "progressive wr" "faultless wr" "sendable m"
  shows "\<exists>k. WriteMessage wr m s = Some (Wrote, k, snd s @ message_frame m)"
proof -
  obtain t where "MarshalMessage m = Inr t" using assms(3) Unmarshal_Marshal [of m] by (auto simp: sendable_def)
  then show ?thesis using WriteMessage_frame [OF assms(1,2)] by blast
qed

lemma ReadMessage_message_frame: "sendable m \<Longrightarrow> ReadMessage fin (message_frame m @ rest) = (Inr m, rest)"
proof -
  assume "sendable m"
  then obtain t where "MarshalMessage m = Inr t" "UnmarshalMessage t = Inr m"
    using Unmarshal_Marshal [of m] by (auto simp: sendable_def)
  then show ?thesis by (simp add: message_frame_def ReadMessage_frame)
qed

text \<open>A writer that makes progress but may fail leaves a beginning of the frame, and a frame that was cut off is never
  read as a message.\<close>

lemma WriteMessage_prefix:
  assumes "progressive wr" "sendable m"
  shows "\<exists>r k out. WriteMessage wr m (0, []) = Some (r, k, out) \<and> prefix out (message_frame m)
    \<and> (r = Wrote \<longrightarrow> out = message_frame m) \<and> (faultless wr \<longrightarrow> r = Wrote)"
proof -
  obtain t where t: "MarshalMessage m = Inr t" using assms(2) Unmarshal_Marshal [of m] by (auto simp: sendable_def)
  let ?h = "PutUint32 (of_nat (length t))"
  have f: "message_frame m = ?h @ t" by (simp add: message_frame_def t frame_of_def)
  obtain r1 k1 o1 where 1: "writeAll wr ?h (0, []) = Some (r1, k1, o1)" "r1 \<noteq> WritePanic" "prefix o1 ?h"
    "r1 = WriteOk \<longrightarrow> o1 = ?h" "faultless wr \<longrightarrow> r1 = WriteOk"
    using writeAll_returns [OF assms(1), of ?h "(0, [])"] by auto
  show ?thesis
  proof (cases "r1 = WriteOk")
    case False
    then obtain e where "r1 = WriteErr e" using 1(2) by (cases r1) auto
    with 1 show ?thesis by (auto simp: WriteMessage_def t f prefix_def)
  next
    case True
    with 1 have o1: "o1 = ?h" by simp
    obtain r2 k2 o2 where 2: "writeAll wr t (k1, ?h) = Some (r2, k2, o2)" "r2 \<noteq> WritePanic" "prefix o2 (?h @ t)"
      "r2 = WriteOk \<longrightarrow> o2 = ?h @ t" "faultless wr \<longrightarrow> r2 = WriteOk"
      using writeAll_returns [OF assms(1), of t "(k1, ?h)"] by auto
    with 1(1) True o1 show ?thesis by (cases r2) (simp_all add: WriteMessage_def t f)
  qed
qed

lemma ReadMessage_cut:
  assumes "sendable m" "prefix w (message_frame m)" "w \<noteq> message_frame m"
  shows "\<exists>e. fst (ReadMessage fin w) = Inl (FrameIO e)"
proof -
  obtain t where t: "MarshalMessage m = Inr t" using assms(1) Unmarshal_Marshal [of m] by (auto simp: sendable_def)
  note l = MarshalMessage_length [OF t]
  have u: "unat (of_nat (length t) :: 32 word) = length t" using l by (simp add: unat_of_nat)
  have n0: "(of_nat (length t) :: 32 word) \<noteq> 0" using u l(2) by (metis length_0_conv unat_0)
  have big: "\<not> MaxFrameSize < of_nat (length t)" using l(1) u by (simp add: MaxFrameSize_def word_less_nat_alt)
  obtain q where q: "PutUint32 (of_nat (length t)) @ t = w @ q" "q \<noteq> []"
    using assms(2,3) by (auto simp: message_frame_def t frame_of_def prefix_def)
  have len: "length w + length q = 4 + length t" using arg_cong [OF q(1), of length] by simp
  show ?thesis
  proof (cases "length w < 4")
    case True
    then show ?thesis by (auto simp: ReadMessage_def ReadFull_def frameHeaderSize_def)
  next
    case False
    have "take 4 w = take 4 (w @ q)" using False by simp
    also have "\<dots> = PutUint32 (of_nat (length t))" by (simp flip: q(1))
    finally have h: "take 4 w = PutUint32 (of_nat (length t))" .
    have "length w - 4 < length t" using len q(2) False by (cases q) auto
    then show ?thesis
      using False n0 big by (auto simp: ReadMessage_def ReadFull_def frameHeaderSize_def h Uint32_PutUint32 u Let_def)
  qed
qed

end
