(* ===== verification/Backoff.thy ===== *)
theory Backoff
  imports Go_Time
begin

text \<open>
  Exponential backoff: \<^verbatim>\<open>internal/network/p2p/backoff.go\<close>. Go's \<open>float64\<close> arithmetic is modelled with
  its rounding: a number is \<open>m / 2 ^ k\<close>, and every operation rounds the exact result to 53 bits, ties to
  even. What a conversion of an out-of-range number to \<open>int64\<close> gives depends on the platform and is an
  argument. The random numbers, the outcomes of the retried operation and the cancellation of the context
  are arguments too.
\<close>

section \<open>Floating point\<close>

type_synonym f64 = "int \<times> nat"

fun bits :: "nat \<Rightarrow> nat" where
  "bits n = (if n = 0 then 0 else Suc (bits (n div 2)))"

declare bits.simps [simp del]

text \<open>Rounding of a non-negative integer to 53 significant bits.\<close>

definition rnd_nat :: "nat \<Rightarrow> nat" where
  "rnd_nat n =
     (let j = bits n - 53; q = n div 2 ^ j; r = n mod 2 ^ j
      in (if 2 ^ j < 2 * r \<or> (2 ^ j = 2 * r \<and> odd q) then q + 1 else q) * 2 ^ j)"

definition rnd :: "int \<Rightarrow> int" where
  "rnd m = sgn m * int (rnd_nat (nat \<bar>m\<bar>))"

definition f_of_int :: "int \<Rightarrow> f64" where
  "f_of_int n = (rnd n, 0)"

definition fmul :: "f64 \<Rightarrow> f64 \<Rightarrow> f64" where
  "fmul x y = (rnd (fst x * fst y), snd x + snd y)"

definition fadd :: "f64 \<Rightarrow> f64 \<Rightarrow> f64" where
  "fadd x y = (rnd (fst x * 2 ^ snd y + fst y * 2 ^ snd x), snd x + snd y)"

text \<open>The order, for finite numbers.\<close>

definition f_le :: "f64 \<Rightarrow> f64 \<Rightarrow> bool" where
  "f_le x y \<longleftrightarrow> fst x * 2 ^ snd y \<le> fst y * 2 ^ snd x"

definition f_trunc :: "f64 \<Rightarrow> int" where
  "f_trunc x = sgn (fst x) * (\<bar>fst x\<bar> div 2 ^ snd x)"

definition to_int64 :: "int \<Rightarrow> f64 \<Rightarrow> int" where
  "to_int64 plat x = (if in_int64 (f_trunc x) then f_trunc x else plat)"

text \<open>The constants 0.8 and 0.4 as \<open>float64\<close>.\<close>

definition f_08 :: f64 where "f_08 = (7205759403792794, 53)"
definition f_04 :: f64 where "f_04 = (7205759403792794, 54)"

section \<open>Backoff\<close>

record BackoffConfig =
  InitialInterval :: duration
  MaxInterval :: duration
  Multiplier :: f64
  MaxRetries :: int
  Jitter :: bool

definition DefaultBackoffConfig :: BackoffConfig where
  "DefaultBackoffConfig =
     \<lparr>InitialInterval = 1 * second, MaxInterval = 60 * second, Multiplier = (2, 0), MaxRetries = 5, Jitter = True\<rparr>"

record Backoff =
  bo_cfg :: BackoffConfig
  bo_currentDelay :: duration
  bo_attempts :: int

definition NewBackoff :: "BackoffConfig \<Rightarrow> Backoff" where
  "NewBackoff cfg =
     (let cfg1 = (if InitialInterval cfg \<le> 0 then cfg\<lparr>InitialInterval := 1 * second\<rparr> else cfg);
          cfg2 = (if MaxInterval cfg1 \<le> 0 then cfg1\<lparr>MaxInterval := 60 * second\<rparr> else cfg1);
          cfg3 = (if MaxInterval cfg2 < InitialInterval cfg2 then cfg2\<lparr>MaxInterval := InitialInterval cfg2\<rparr> else cfg2);
          cfg4 = (if f_le (Multiplier cfg3) (1, 0) then cfg3\<lparr>Multiplier := (2, 0)\<rparr> else cfg3)
      in \<lparr>bo_cfg = cfg4, bo_currentDelay = InitialInterval cfg4, bo_attempts = 0\<rparr>)"

definition bo_Reset :: "Backoff \<Rightarrow> Backoff" where
  "bo_Reset b = b\<lparr>bo_currentDelay := InitialInterval (bo_cfg b), bo_attempts := 0\<rparr>"

definition bo_Attempts :: "Backoff \<Rightarrow> int" where
  "bo_Attempts b = bo_attempts b"

definition HasNext :: "Backoff \<Rightarrow> bool" where
  "HasNext b = (if MaxRetries (bo_cfg b) \<le> 0 then True else bo_attempts b < MaxRetries (bo_cfg b))"

text \<open>\<open>rng\<close> is the number \<open>n\<close> of the next random float \<open>n / 2 ^ 53\<close>.\<close>

definition jitter_factor :: "int \<Rightarrow> f64" where
  "jitter_factor rng = fadd f_08 (fmul (rng, 53) f_04)"

definition NextDelay :: "int \<Rightarrow> int \<Rightarrow> Backoff \<Rightarrow> duration \<times> Backoff" where
  "NextDelay plat rng b =
     (let delay = bo_currentDelay b;
          next0 = to_int64 plat (fmul (f_of_int (bo_currentDelay b)) (Multiplier (bo_cfg b)));
          next = (if MaxInterval (bo_cfg b) < next0 then MaxInterval (bo_cfg b) else next0);
          b' = b\<lparr>bo_attempts := bo_attempts b + 1, bo_currentDelay := next\<rparr>
      in (if Jitter (bo_cfg b) then to_int64 plat (fmul (f_of_int delay) (jitter_factor rng)) else delay, b'))"

datatype backoff_error = ErrMaxRetriesReached | CtxErr

text \<open>\<open>Sleep\<close>: \<open>cancelled\<close> tells which case of its \<open>select\<close> is taken.\<close>

definition bo_Sleep :: "int \<Rightarrow> int \<Rightarrow> bool \<Rightarrow> Backoff \<Rightarrow> backoff_error option \<times> Backoff" where
  "bo_Sleep plat rng cancelled b =
     (if \<not> HasNext b then (Some ErrMaxRetriesReached, b)
      else let (delay, b') = NextDelay plat rng b in (if cancelled then Some CtxErr else None, b'))"

datatype 'e retry_result = RetryOk | RetryLast 'e | RetryCtx

text \<open>
  \<open>Retry\<close>: \<open>op k\<close> is the outcome of call \<open>k\<close> of the operation, \<open>cancelled k\<close> whether the sleep after it is
  cancelled and \<open>rng k\<close> its random number; the result has the number of calls. The loop has no bound when
  \<open>MaxRetries\<close> is not positive.
\<close>

partial_function (option) retry_loop ::
  "int \<Rightarrow> (nat \<Rightarrow> int) \<Rightarrow> (nat \<Rightarrow> bool) \<Rightarrow> (nat \<Rightarrow> 'e option) \<Rightarrow> nat \<Rightarrow> Backoff \<Rightarrow> ('e retry_result \<times> nat) option" where
  "retry_loop plat rng cancelled op k b =
     (case op k of
        None \<Rightarrow> Some (RetryOk, Suc k)
      | Some lastErr \<Rightarrow>
          (case bo_Sleep plat (rng k) (cancelled k) b of
             (Some ErrMaxRetriesReached, b') \<Rightarrow> Some (RetryLast lastErr, Suc k)
           | (Some CtxErr, b') \<Rightarrow> Some (RetryCtx, Suc k)
           | (None, b') \<Rightarrow> retry_loop plat rng cancelled op (Suc k) b'))"

definition Retry :: "int \<Rightarrow> (nat \<Rightarrow> int) \<Rightarrow> (nat \<Rightarrow> bool) \<Rightarrow> BackoffConfig \<Rightarrow> (nat \<Rightarrow> 'e option) \<Rightarrow> ('e retry_result \<times> nat) option" where
  "Retry plat rng cancelled cfg op = retry_loop plat rng cancelled op 0 (NewBackoff cfg)"

section \<open>Rounding\<close>

lemma bits_0 [simp]: "bits 0 = 0"
  by (simp add: bits.simps)

lemma mult_pow_div: "(a :: nat) * 2 ^ j div 2 ^ j = a"
  by simp

lemma bits_bounds: "0 < n \<Longrightarrow> 2 ^ (bits n - 1) \<le> n \<and> n < 2 ^ bits n \<and> 0 < bits n"
proof (induction n rule: bits.induct)
  case (1 n)
  show ?case
  proof (cases "n = 1")
    case True
    then show ?thesis by (simp add: bits.simps [of "Suc 0"])
  next
    case False
    with 1(2) have "0 < n div 2" by simp
    with 1 have IH: "2 ^ (bits (n div 2) - 1) \<le> n div 2" "n div 2 < 2 ^ bits (n div 2)" "0 < bits (n div 2)" by auto
    have b: "bits n = Suc (bits (n div 2))" using 1(2) by (simp add: bits.simps [of n])
    have "2 ^ bits (n div 2) = 2 * (2 :: nat) ^ (bits (n div 2) - 1)"
      using IH(3) by (cases "bits (n div 2)") simp_all
    moreover have "2 * (n div 2) \<le> n \<and> n < 2 * (n div 2) + 2" by auto
    ultimately show ?thesis using IH(1,2) unfolding b diff_Suc_1 power_Suc by linarith
  qed
qed

lemma rnd_nat_exact: "n < 2 ^ 53 \<Longrightarrow> rnd_nat n = n"
proof -
  assume n: "n < 2 ^ 53"
  have "bits n \<le> 53"
  proof (rule ccontr)
    assume b: "\<not> bits n \<le> 53"
    then have "0 < n" by (cases "n = 0") auto
    then have "2 ^ (bits n - 1) \<le> n" using bits_bounds by blast
    moreover have "(2 :: nat) ^ 53 \<le> 2 ^ (bits n - 1)" using b by (intro power_increasing) auto
    ultimately show False using n by simp
  qed
  then show ?thesis by (simp add: rnd_nat_def)
qed

text \<open>The quotient of the rounding has 53 bits, so the error is at most one in \<open>2 ^ 53\<close>.\<close>

lemma rnd_nat_quotient:
  assumes "0 < bits n - 53"
  shows "2 ^ 52 \<le> n div 2 ^ (bits n - 53)" "2 ^ (52 + (bits n - 53)) \<le> n"
proof -
  have "0 < n" using assms by (cases "n = 0") auto
  then have "2 ^ (bits n - 1) \<le> n" using bits_bounds by blast
  moreover have "bits n - 1 = 52 + (bits n - 53)" using assms by simp
  ultimately show b: "2 ^ (52 + (bits n - 53)) \<le> n" by (simp only:)
  then have "2 ^ 52 * 2 ^ (bits n - 53) \<le> n" by (simp only: power_add)
  from div_le_mono [OF this, of "2 ^ (bits n - 53)"] show "2 ^ 52 \<le> n div 2 ^ (bits n - 53)" by (simp only: mult_pow_div)
qed

lemma rnd_nat_ge:
  assumes "d < 2 ^ 53" "d * 2 ^ k \<le> n"
  shows "d * 2 ^ k \<le> rnd_nat n"
proof -
  let ?j = "bits n - 53"
  let ?q = "n div 2 ^ ?j"
  have q: "?q * 2 ^ ?j \<le> rnd_nat n" by (simp add: rnd_nat_def Let_def)
  show ?thesis
  proof (cases "?j \<le> k")
    case True
    then have "d * 2 ^ k = d * 2 ^ (k - ?j) * 2 ^ ?j" by (simp flip: power_add)
    with div_le_mono [OF assms(2), of "2 ^ ?j"] have "d * 2 ^ (k - ?j) \<le> ?q" by (simp only: mult_pow_div)
    then have "d * 2 ^ (k - ?j) * 2 ^ ?j \<le> ?q * 2 ^ ?j" by (rule mult_le_mono1)
    with q \<open>d * 2 ^ k = _\<close> show ?thesis by linarith
  next
    case False
    then have j: "0 < ?j" by simp
    have "d * 2 ^ k \<le> 2 ^ 53 * 2 ^ k" using assms(1) by simp
    also have "\<dots> = 2 ^ (53 + k)" by (simp only: power_add)
    also have "\<dots> \<le> 2 ^ (52 + ?j)" by (rule power_increasing) (use False in auto)
    also have "\<dots> \<le> ?q * 2 ^ ?j" unfolding power_add by (rule mult_le_mono1 [OF rnd_nat_quotient(1) [OF j]])
    finally show ?thesis using q by linarith
  qed
qed

lemma rnd_nat_error: "n * 2 ^ 53 \<le> rnd_nat n * 2 ^ 53 + n" "rnd_nat n * 2 ^ 53 \<le> n * 2 ^ 53 + n"
proof -
  let ?j = "bits n - 53"
  let ?q = "n div 2 ^ ?j" and ?r = "n mod 2 ^ ?j"
  have n: "n = ?q * 2 ^ ?j + ?r" by (rule div_mult_mod_eq [symmetric])
  have r: "?r < 2 ^ ?j" by simp
  have "n * 2 ^ 53 \<le> rnd_nat n * 2 ^ 53 + n \<and> rnd_nat n * 2 ^ 53 \<le> n * 2 ^ 53 + n"
  proof (cases "?j = 0")
    case True
    then have "rnd_nat n = n" by (simp add: rnd_nat_def)
    then show ?thesis by simp
  next
    case False
    then have b: "2 ^ 52 * 2 ^ ?j \<le> n" using rnd_nat_quotient(2) [of n] by (simp only: power_add)
    obtain q r p where qrp: "q = ?q" "r = ?r" "p = (2 :: nat) ^ ?j" by blast
    have R: "rnd_nat n = (if p < 2 * r \<or> (p = 2 * r \<and> odd q) then q + 1 else q) * p"
      by (simp only: rnd_nat_def Let_def qrp)
    have "n = q * p + r" "r < p" using n r by (simp_all only: qrp)
    then have "2 * n \<le> 2 * rnd_nat n + p \<and> 2 * rnd_nat n \<le> 2 * n + p"
      unfolding R by (cases "p < 2 * r"; cases "p = 2 * r \<and> odd q") (simp_all add: distrib_right)
    then show ?thesis using b unfolding qrp(3) [symmetric] by simp
  qed
  then show "n * 2 ^ 53 \<le> rnd_nat n * 2 ^ 53 + n" "rnd_nat n * 2 ^ 53 \<le> n * 2 ^ 53 + n" by auto
qed

lemma rnd_nonneg: "0 \<le> m \<Longrightarrow> rnd m = int (rnd_nat (nat m))"
  by (cases "m = 0") (auto simp: rnd_def rnd_nat_def)

lemma rnd_exact: "0 \<le> m \<Longrightarrow> m < 2 ^ 53 \<Longrightarrow> rnd m = m"
  by (simp add: rnd_nonneg rnd_nat_exact)

lemma rnd_ge:
  assumes "0 \<le> d" "d < 2 ^ 53" "d * 2 ^ k \<le> m"
  shows "d * 2 ^ k \<le> rnd m"
proof -
  have m: "0 \<le> m" using assms(1,3) by (meson mult_nonneg_nonneg order_trans zero_le_numeral zero_le_power)
  have "nat d * 2 ^ k \<le> nat m" using assms by (metis nat_le_eq_zle nat_mono nat_mult_distrib nat_numeral nat_power_eq zero_le_numeral)
  moreover have "nat d < 2 ^ 53" using assms(2) by simp
  ultimately have "nat d * 2 ^ k \<le> rnd_nat (nat m)" by (intro rnd_nat_ge)
  then have "int (nat d * 2 ^ k) \<le> int (rnd_nat (nat m))" by (simp only: of_nat_le_iff)
  then show ?thesis using assms(1) m by (simp add: rnd_nonneg)
qed

lemma rnd_error:
  assumes "0 \<le> m"
  shows "m * 2 ^ 53 \<le> rnd m * 2 ^ 53 + m" "rnd m * 2 ^ 53 \<le> m * 2 ^ 53 + m" "0 \<le> rnd m"
proof -
  have "int (nat m * 2 ^ 53) \<le> int (rnd_nat (nat m) * 2 ^ 53 + nat m)" "int (rnd_nat (nat m) * 2 ^ 53) \<le> int (nat m * 2 ^ 53 + nat m)"
    using rnd_nat_error [of "nat m"] by (simp_all only: of_nat_le_iff)
  with assms show "m * 2 ^ 53 \<le> rnd m * 2 ^ 53 + m" "rnd m * 2 ^ 53 \<le> m * 2 ^ 53 + m" "0 \<le> rnd m"
    by (simp_all add: rnd_nonneg)
qed

section \<open>Delays\<close>

text \<open>The multiplier makes the delay grow, as long as the delay is below \<open>2 ^ 53\<close> ns (104 days).\<close>

lemma next_delay_ge:
  assumes "0 < d" "d < 2 ^ 53" "\<not> f_le mu (1, 0)"
  shows "d \<le> f_trunc (fmul (f_of_int d) mu)"
proof -
  obtain m k where mk: "mu = (m, k)" by fastforce
  have "2 ^ k < m" using assms(3) by (simp add: mk f_le_def)
  then have "d * 2 ^ k \<le> d * m" using assms(1) by simp
  then have "d * 2 ^ k \<le> rnd (d * m)" using assms by (intro rnd_ge) auto
  then have "d * 2 ^ k div 2 ^ k \<le> rnd (d * m) div 2 ^ k" by (rule zdiv_mono1) simp
  moreover have "0 < rnd (d * m)" using \<open>d * 2 ^ k \<le> rnd (d * m)\<close> assms(1)
    by (meson less_le_trans mult_pos_pos zero_less_numeral zero_less_power)
  ultimately show ?thesis using assms by (simp add: mk fmul_def f_of_int_def f_trunc_def rnd_exact)
qed

text \<open>A backoff that \<open>NewBackoff\<close> made and \<open>NextDelay\<close> and \<open>Reset\<close> changed.\<close>

definition bo_config_ok :: "BackoffConfig \<Rightarrow> bool" where
  "bo_config_ok c \<longleftrightarrow> 0 < InitialInterval c \<and> InitialInterval c \<le> MaxInterval c \<and> \<not> f_le (Multiplier c) (1, 0)"

text \<open>The configurations for which no product leaves \<open>int64\<close>.\<close>

definition bo_no_overflow :: "BackoffConfig \<Rightarrow> bool" where
  "bo_no_overflow c \<longleftrightarrow> MaxInterval c < 2 ^ 53 \<and> 2 * MaxInterval c * fst (Multiplier c) < 2 ^ 63 * 2 ^ snd (Multiplier c)"

definition bo_inv :: "Backoff \<Rightarrow> bool" where
  "bo_inv b \<longleftrightarrow> bo_config_ok (bo_cfg b) \<and> 0 \<le> bo_attempts b
     \<and> InitialInterval (bo_cfg b) \<le> bo_currentDelay b \<and> bo_currentDelay b \<le> MaxInterval (bo_cfg b)"

lemma bo_New: "bo_inv (NewBackoff cfg)" "bo_currentDelay (NewBackoff cfg) = InitialInterval (bo_cfg (NewBackoff cfg))"
    "bo_attempts (NewBackoff cfg) = 0" "MaxRetries (bo_cfg (NewBackoff cfg)) = MaxRetries cfg"
  by (auto simp: bo_inv_def bo_config_ok_def NewBackoff_def Let_def second_def f_le_def)

lemma div_pow_bounds: "x div 2 ^ k * 2 ^ k \<le> x" "x < x div 2 ^ k * 2 ^ k + (2 :: int) ^ k"
proof -
  have p: "(0 :: int) < 2 ^ k" by simp
  show "x div 2 ^ k * 2 ^ k \<le> x" "x < x div 2 ^ k * 2 ^ k + (2 :: int) ^ k"
    using div_mult_mod_eq [of x "2 ^ k"] pos_mod_bound [OF p, of x] pos_mod_sign [OF p, of x] by linarith+
qed

lemma div_less_pow: "x < a * 2 ^ k \<Longrightarrow> x div 2 ^ k < (a :: int)"
proof (rule ccontr)
  assume x: "x < a * 2 ^ k" and "\<not> x div 2 ^ k < a"
  then have "a * 2 ^ k \<le> x div 2 ^ k * 2 ^ k" by (intro mult_right_mono) simp_all
  with x div_pow_bounds(1) [of x k] show False by linarith
qed

lemma next_delay_range:
  assumes "0 < d" "d \<le> MaxInterval c" "bo_config_ok c" "bo_no_overflow c"
  shows "in_int64 (f_trunc (fmul (f_of_int d) (Multiplier c)))"
proof -
  obtain m k where mk: "Multiplier c = (m, k)" by fastforce
  have d: "d < 2 ^ 53" and m: "2 ^ k < m" and o: "2 * MaxInterval c * m < 2 ^ 63 * 2 ^ k"
    using assms by (auto simp: bo_no_overflow_def bo_config_ok_def mk f_le_def)
  have m0: "0 < m" using m by (meson less_trans zero_less_numeral zero_less_power)
  have dm: "0 < d * m" using assms(1) m0 by simp
  have "2 * (d * m) \<le> 2 * MaxInterval c * m" using assms(2) m0 by (simp add: mult_right_mono)
  then have "2 * (d * m) < 2 ^ 63 * 2 ^ k" using o by (rule le_less_trans)
  moreover have "rnd (d * m) \<le> 2 * (d * m)" using rnd_error(2) [of "d * m"] dm by simp
  ultimately have "rnd (d * m) < 2 ^ 63 * 2 ^ k" by simp
  then have "rnd (d * m) div 2 ^ k < 2 ^ 63" by (rule div_less_pow)
  moreover have "0 \<le> rnd (d * m) div 2 ^ k" using rnd_error(3) dm by (simp add: pos_imp_zdiv_nonneg_iff)
  ultimately show ?thesis
    using d assms(1) rnd_error(3) [of "d * m"] dm
    by (cases "rnd (d * m) = 0") (simp_all add: mk fmul_def f_of_int_def f_trunc_def rnd_exact in_int64_def)
qed

lemma NextDelay_inv:
  assumes "bo_inv b" "bo_no_overflow (bo_cfg b)"
  shows "bo_inv (snd (NextDelay plat rng b))" "bo_currentDelay b \<le> bo_currentDelay (snd (NextDelay plat rng b))"
proof -
  let ?d = "bo_currentDelay b" and ?c = "bo_cfg b"
  have d: "0 < ?d" "?d \<le> MaxInterval ?c" "?d < 2 ^ 53" "bo_config_ok ?c"
    using assms by (auto simp: bo_inv_def bo_config_ok_def bo_no_overflow_def)
  have "to_int64 plat (fmul (f_of_int ?d) (Multiplier ?c)) = f_trunc (fmul (f_of_int ?d) (Multiplier ?c))"
    using next_delay_range [OF d(1,2,4) assms(2)] by (simp add: to_int64_def)
  moreover have "?d \<le> f_trunc (fmul (f_of_int ?d) (Multiplier ?c))"
    using d(4) by (intro next_delay_ge [OF d(1,3)]) (simp add: bo_config_ok_def)
  ultimately show "bo_inv (snd (NextDelay plat rng b))" "?d \<le> bo_currentDelay (snd (NextDelay plat rng b))"
    using assms(1) d(2) by (auto simp: NextDelay_def Let_def bo_inv_def)
qed

text \<open>The factor of the jitter lies between 0.8 and a little above 1.2.\<close>

lemma jitter_factor_bounds:
  assumes "0 \<le> rng" "rng < 2 ^ 53"
  shows "snd (jitter_factor rng) = 160"
    and "4 * 2 ^ 160 \<le> 5 * fst (jitter_factor rng)"
    and "5 * fst (jitter_factor rng) * 2 ^ 50 \<le> 6 * 2 ^ 160 * (2 ^ 50 + 1)"
proof -
  let ?C = "7205759403792794 :: int"
  let ?p = "rnd (rng * ?C)"
  let ?x = "?C * 2 ^ 107 + ?p * 2 ^ 53"
  have j: "jitter_factor rng = (rnd ?x, 160)"
    by (simp add: jitter_factor_def fadd_def fmul_def f_08_def f_04_def)
  then show "snd (jitter_factor rng) = 160" by simp
  have rC: "0 \<le> rng * ?C" "rng * ?C \<le> 2 ^ 53 * ?C" using assms by simp_all
  have p: "0 \<le> ?p" "?p * 2 ^ 53 \<le> rng * ?C * 2 ^ 53 + rng * ?C" using rnd_error [OF rC(1)] by simp_all
  have x: "?C * 2 ^ 107 \<le> ?x" using p(1) by simp
  then have "?C * 2 ^ 107 \<le> rnd ?x" by (intro rnd_ge) simp_all
  then show "4 * 2 ^ 160 \<le> 5 * fst (jitter_factor rng)" by (simp add: j)
  have "rnd ?x * 2 ^ 53 \<le> ?x * 2 ^ 53 + ?x" using x by (intro rnd_error(2)) simp
  moreover have "?x \<le> ?C * 2 ^ 107 + (2 ^ 53 * ?C * 2 ^ 53 + 2 ^ 53 * ?C)" using p(2) rC(2) by simp
  ultimately show "5 * fst (jitter_factor rng) * 2 ^ 50 \<le> 6 * 2 ^ 160 * (2 ^ 50 + 1)" by (simp add: j)
qed

lemma jittered_bounds:
  assumes "0 < d" "d < 2 ^ 40" "0 \<le> rng" "rng < 2 ^ 53"
  defines "j \<equiv> f_trunc (fmul (f_of_int d) (jitter_factor rng))"
  shows "4 * d \<le> 5 * (j + 1)" "5 * j \<le> 6 * d + 1"
proof -
  obtain F where F: "jitter_factor rng = (F, 160)" using jitter_factor_bounds(1) [OF assms(3,4)] by (metis prod.collapse)
  have f: "4 * 2 ^ 160 \<le> 5 * F" "5 * F * 2 ^ 50 \<le> 6 * 2 ^ 160 * (2 ^ 50 + 1)"
    using jitter_factor_bounds(2,3) [OF assms(3,4)] by (simp_all add: F)
  define G where "G = d * F"
  have lo: "4 * 2 ^ 160 * d \<le> 5 * G" using mult_left_mono [OF f(1), of d] assms(1) by (simp add: G_def ac_simps)
  have hi: "5 * 2 ^ 50 * G \<le> 6 * 2 ^ 160 * (2 ^ 50 + 1) * d" using mult_left_mono [OF f(2), of d] assms(1) by (simp add: G_def ac_simps)
  define y where "y = rnd G"
  have "0 \<le> G" using lo assms(1) by simp
  note e = rnd_error [OF this, folded y_def]
  have j: "j = y div 2 ^ 160"
    using e(3) assms(1,2) by (cases "y = 0") (simp_all add: j_def F fmul_def f_of_int_def f_trunc_def rnd_exact y_def G_def)
  have y: "j * 2 ^ 160 \<le> y" "y < j * 2 ^ 160 + 2 ^ 160"
    unfolding j by (rule div_pow_bounds)+
  show "4 * d \<le> 5 * (j + 1)" using e(1) lo y(2) assms(2) by simp
  show "5 * j \<le> 6 * d + 1" using e(2) hi y(1) assms(2) by simp
qed

section \<open>Retrying\<close>

lemma Sleep_cases:
  "bo_Sleep plat r c b =
     (if HasNext b then (if c then Some CtxErr else None, snd (NextDelay plat r b)) else (Some ErrMaxRetriesReached, b))"
  by (simp add: bo_Sleep_def split: prod.split)

lemma NextDelay_attempts [simp]:
  "bo_attempts (snd (NextDelay plat r b)) = bo_attempts b + 1" "bo_cfg (snd (NextDelay plat r b)) = bo_cfg b"
  by (simp_all add: NextDelay_def Let_def)

text \<open>What a bounded loop returns: it stops at the first success, at the first cancelled sleep after a
  failure, or after the last permitted attempt.\<close>

fun retry_spec :: "(nat \<Rightarrow> bool) \<Rightarrow> (nat \<Rightarrow> 'e option) \<Rightarrow> nat \<Rightarrow> nat \<Rightarrow> 'e retry_result \<times> nat" where
  "retry_spec cancelled op k left =
     (case op k of
        None \<Rightarrow> (RetryOk, Suc k)
      | Some e \<Rightarrow> (case left of
          0 \<Rightarrow> (RetryLast e, Suc k)
        | Suc n \<Rightarrow> if cancelled k then (RetryCtx, Suc k) else retry_spec cancelled op (Suc k) n))"

declare retry_spec.simps [simp del]

lemma retry_loop_spec:
  assumes "0 < MaxRetries (bo_cfg b)" "bo_attempts b + int left = MaxRetries (bo_cfg b)"
  shows "retry_loop plat rng cancelled op k b = Some (retry_spec cancelled op k left)"
  using assms
proof (induction left arbitrary: k b)
  case 0
  then show ?case
    by (simp add: retry_loop.simps [of plat rng cancelled op k b] retry_spec.simps [of cancelled op k 0] Sleep_cases HasNext_def split: option.split)
next
  case (Suc n)
  let ?b = "snd (NextDelay plat (rng k) b)"
  have "retry_loop plat rng cancelled op (Suc k) ?b = Some (retry_spec cancelled op (Suc k) n)"
    using Suc.prems by (intro Suc.IH) simp_all
  with Suc.prems show ?case
    by (simp add: retry_loop.simps [of plat rng cancelled op k b] retry_spec.simps [of cancelled op k "Suc n"] Sleep_cases HasNext_def split: option.split)
qed

lemma retry_spec_calls: "k < snd (retry_spec cancelled op k left) \<and> snd (retry_spec cancelled op k left) \<le> Suc k + left"
proof (induction left arbitrary: k)
  case 0
  then show ?case by (simp add: retry_spec.simps [of cancelled op k 0] split: option.split)
next
  case (Suc n)
  from Suc.IH [of "Suc k"] show ?case by (auto simp: retry_spec.simps [of cancelled op k "Suc n"] split: option.split)
qed

lemma retry_spec_uncancelled:
  "fst (retry_spec (\<lambda>_. False) op k left) =
    (if \<exists>i. k \<le> i \<and> i \<le> k + left \<and> op i = None then RetryOk else RetryLast (the (op (k + left))))"
proof (induction left arbitrary: k)
  case 0
  have "(\<exists>i. k \<le> i \<and> i \<le> k + 0 \<and> op i = None) \<longleftrightarrow> op k = None" by (metis add_0_right le_antisym order_refl)
  then show ?case by (simp add: retry_spec.simps [of "\<lambda>_. False" op k 0] split: option.split)
next
  case (Suc n)
  have "(\<exists>i. k \<le> i \<and> i \<le> k + Suc n \<and> op i = None) \<longleftrightarrow> op k = None \<or> (\<exists>i. Suc k \<le> i \<and> i \<le> Suc k + n \<and> op i = None)"
    by (metis Suc_leI add_Suc_right add_Suc_shift le_add1 le_eq_less_or_eq Suc_leD)
  with Suc.IH [of "Suc k"] show ?case
    by (auto simp: retry_spec.simps [of "\<lambda>_. False" op k "Suc n"] split: option.split)
qed

text \<open>Without a limit the loop returns when the operation ever succeeds.\<close>

lemma retry_unlimited:
  assumes "MaxRetries (bo_cfg b) \<le> 0" "op (k + n) = None" "\<And>i. i < n \<Longrightarrow> op (k + i) \<noteq> None \<and> \<not> cancelled (k + i)"
  shows "retry_loop plat rng cancelled op k b = Some (RetryOk, Suc (k + n))"
  using assms
proof (induction n arbitrary: k b)
  case 0
  then show ?case by (simp add: retry_loop.simps)
next
  case (Suc n)
  obtain e where e: "op k = Some e" "\<not> cancelled k" using Suc.prems(3) [of 0] by auto
  have "retry_loop plat rng cancelled op (Suc k) (snd (NextDelay plat (rng k) b)) = Some (RetryOk, Suc (Suc k + n))"
    using Suc.prems(1,2) Suc.prems(3) [of "Suc _"] by (intro Suc.IH) auto
  with e Suc.prems(1) show ?case
    by (simp add: retry_loop.simps [of plat rng cancelled op k b] Sleep_cases HasNext_def)
qed

section \<open>Properties\<close>

text \<open>The backoff after \<open>n\<close> delays.\<close>

primrec bo_after :: "int \<Rightarrow> (nat \<Rightarrow> int) \<Rightarrow> nat \<Rightarrow> Backoff \<Rightarrow> Backoff" where
  "bo_after plat rng 0 b = b"
| "bo_after plat rng (Suc n) b = snd (NextDelay plat (rng n) (bo_after plat rng n b))"

lemma bo_after_inv:
  assumes "bo_inv b" "bo_no_overflow (bo_cfg b)"
  shows "bo_inv (bo_after plat rng n b) \<and> bo_cfg (bo_after plat rng n b) = bo_cfg b"
  using assms by (induction n) (auto simp: NextDelay_inv)

text \<open>C38: With a positive retry limit \<open>Retry\<close> always returns: it calls the operation at least once and at most once
  more than the limit, and when the context is not cancelled it succeeds exactly if one of these calls would
  succeed, and else returns the error of the last.\<close>

theorem Retry_bounded:
  assumes "0 < MaxRetries cfg"
  shows "\<exists>r calls. Retry plat rng cancelled cfg op = Some (r, calls) \<and> 1 \<le> calls \<and> int calls \<le> MaxRetries cfg + 1
    \<and> ((\<forall>i. \<not> cancelled i) \<longrightarrow>
        r = (if \<exists>i \<le> nat (MaxRetries cfg). op i = None then RetryOk else RetryLast (the (op (nat (MaxRetries cfg))))))"
proof -
  let ?n = "nat (MaxRetries cfg)"
  have "Retry plat rng cancelled cfg op = Some (retry_spec cancelled op 0 ?n)"
    unfolding Retry_def using assms bo_New(3,4) [of cfg] by (intro retry_loop_spec) simp_all
  moreover have "cancelled = (\<lambda>_. False)" if "\<forall>i. \<not> cancelled i" using that by auto
  ultimately show ?thesis
    using retry_spec_calls [of 0 cancelled op ?n] retry_spec_uncancelled [of op 0 ?n] assms
    by (cases "retry_spec cancelled op 0 ?n") auto
qed

theorem Retry_bounded_witness:
  "\<exists>calls. Retry 0 (\<lambda>_. 0) (\<lambda>_. False) DefaultBackoffConfig (\<lambda>k. Some k) = Some (RetryLast 5, calls) \<and> int calls \<le> 6"
  using Retry_bounded [of DefaultBackoffConfig 0 "\<lambda>_. 0" "\<lambda>_. False" "\<lambda>k. Some k"] by (auto simp: DefaultBackoffConfig_def)

text \<open>The delays of a backoff whose products fit in \<open>int64\<close> never shrink and stay between the initial and the
  maximal interval, and the jitter moves a delay below \<open>2 ^ 40\<close> ns by at most a fifth (and one nanosecond of
  rounding).\<close>

theorem backoff_delays:
  fixes plat :: int
  assumes "bo_no_overflow (bo_cfg (NewBackoff cfg))" "0 \<le> rng n" "rng n < 2 ^ 53"
  defines "b \<equiv> bo_after plat rng n (NewBackoff cfg)"
  shows "InitialInterval (bo_cfg b) \<le> bo_currentDelay b \<and> bo_currentDelay b \<le> MaxInterval (bo_cfg b)
    \<and> bo_currentDelay b \<le> bo_currentDelay (snd (NextDelay plat (rng n) b))
    \<and> (\<not> Jitter (bo_cfg b) \<longrightarrow> fst (NextDelay plat (rng n) b) = bo_currentDelay b)
    \<and> (Jitter (bo_cfg b) \<and> bo_currentDelay b < 2 ^ 40 \<longrightarrow>
        4 * bo_currentDelay b \<le> 5 * (fst (NextDelay plat (rng n) b) + 1)
        \<and> 5 * fst (NextDelay plat (rng n) b) \<le> 6 * bo_currentDelay b + 1)"
proof -
  have i: "bo_inv b" "bo_cfg b = bo_cfg (NewBackoff cfg)"
    using bo_after_inv [OF bo_New(1) assms(1)] by (simp_all add: b_def)
  then have d: "0 < bo_currentDelay b" "InitialInterval (bo_cfg b) \<le> bo_currentDelay b" "bo_currentDelay b \<le> MaxInterval (bo_cfg b)"
    by (auto simp: bo_inv_def bo_config_ok_def)
  have up: "bo_currentDelay b \<le> bo_currentDelay (snd (NextDelay plat (rng n) b))"
    using i assms(1) by (intro NextDelay_inv(2)) simp_all
  let ?j = "f_trunc (fmul (f_of_int (bo_currentDelay b)) (jitter_factor (rng n)))"
  have "4 * bo_currentDelay b \<le> 5 * (?j + 1) \<and> 5 * ?j \<le> 6 * bo_currentDelay b + 1 \<and> in_int64 ?j"
    if small: "bo_currentDelay b < 2 ^ 40"
    using jittered_bounds [OF d(1) small assms(2,3)] d(1) small by (auto simp: in_int64_def)
  with d up show ?thesis by (auto simp: NextDelay_def Let_def to_int64_def)
qed

lemma demo_backoff: "bo_no_overflow (bo_cfg (NewBackoff DefaultBackoffConfig))"
  "InitialInterval (bo_cfg (NewBackoff DefaultBackoffConfig)) = 1000000000"
  by code_simp+

theorem backoff_delays_witness:
  "1000000000 \<le> bo_currentDelay (bo_after 0 (\<lambda>_. 5) 3 (NewBackoff DefaultBackoffConfig))"
  using backoff_delays [OF demo_backoff(1), of "\<lambda>_. 5" 3 0] bo_after_inv [OF bo_New(1) demo_backoff(1), of 0 "\<lambda>_. 5" 3]
  by (simp add: demo_backoff)

text \<open>With a multiplier that makes the product leave \<open>int64\<close>, a platform that converts to the least integer makes
  the next delay negative: the cap on \<open>MaxInterval\<close> does not catch it.\<close>

lemma huge_multiplier_overflows:
  "bo_currentDelay (snd (NextDelay (- (2 ^ 63)) 0 (NewBackoff (DefaultBackoffConfig\<lparr>Multiplier := (2 ^ 40, 0)\<rparr>)))) = - (2 ^ 63)"
proof -
  have "rnd 1000000000 = 1000000000" by (rule rnd_exact) simp_all
  moreover have "1 * 2 ^ 63 \<le> rnd (1000000000 * 2 ^ 40)" by (rule rnd_ge) simp_all
  ultimately show ?thesis
    by (simp add: NextDelay_def NewBackoff_def DefaultBackoffConfig_def Let_def second_def f_le_def to_int64_def
        fmul_def f_of_int_def f_trunc_def in_int64_def)
qed

end
