(* ===== verification/Peer_Addr.thy ===== *)
theory Peer_Addr
  imports Go_Net
begin

text \<open>
  Peer addresses: \<^verbatim>\<open>internal/network/p2p/addr.go\<close>. The multiaddress and peer id libraries are
  arguments, the functions of a record \<open>p2p_lib\<close>; a multiaddress has an arbitrary type, a \<open>peer.ID\<close> is the
  string it is in Go. \<open>net.ParseIP\<close> is modelled below.
\<close>

section \<open>IP addresses\<close>

definition octet :: "string \<Rightarrow> int option" where
  "octet w =
     (if w = [] \<or> \<not> list_all is_digit w \<or> (1 < length w \<and> hd w = CHR ''0'') \<or> 255 < digits_val w then None
      else Some (digits_val w))"

definition parse_v4 :: "string \<Rightarrow> int list option" where
  "parse_v4 s =
     (case map octet (Split (CHR ''.'') s) of
        [Some a, Some b, Some c, Some d] \<Rightarrow> Some [a, b, c, d]
      | _ \<Rightarrow> None)"

definition hex_val :: "char \<Rightarrow> int option" where
  "hex_val c =
     (let n = of_char c :: int in
      if 48 \<le> n \<and> n \<le> 57 then Some (n - 48)
      else if 97 \<le> n \<and> n \<le> 102 then Some (n - 87)
      else if 65 \<le> n \<and> n \<le> 70 then Some (n - 55) else None)"

definition hex_group :: "string \<Rightarrow> int" where
  "hex_group w = foldl (\<lambda>n c. 16 * n + (case hex_val c of Some v \<Rightarrow> v | None \<Rightarrow> 0)) 0 w"

text \<open>
  The groups of an IPv6 address: \<open>n\<close> groups may still come, \<open>ip\<close> has the bytes so far and \<open>el\<close> the
  position of the ellipsis. The result has the rest of the text, which must be empty.
\<close>

fun v6_groups :: "nat \<Rightarrow> int list \<Rightarrow> nat option \<Rightarrow> string \<Rightarrow> (int list \<times> nat option \<times> string) option" where
  "v6_groups 0 ip el s = Some (ip, el, s)"
| "v6_groups (Suc n) ip el s =
     (let w = takeWhile (\<lambda>c. hex_val c \<noteq> None) s; r = dropWhile (\<lambda>c. hex_val c \<noteq> None) s in
      if w = [] \<or> 4 < length w then None
      else if r \<noteq> [] \<and> hd r = CHR ''.'' then
        (if el = None \<and> length ip \<noteq> 12 then None
         else if 16 < length ip + 4 then None
         else case parse_v4 s of None \<Rightarrow> None | Some q \<Rightarrow> Some (ip @ q, el, []))
      else
        let ip' = ip @ [hex_group w div 256, hex_group w mod 256] in
        case r of
          [] \<Rightarrow> Some (ip', el, [])
        | c # r1 \<Rightarrow>
            if c \<noteq> CHR '':'' \<or> r1 = [] then None
            else if hd r1 = CHR '':'' then
              (if el \<noteq> None then None
               else if tl r1 = [] then Some (ip', Some (length ip'), [])
               else v6_groups n ip' (Some (length ip')) (tl r1))
            else v6_groups n ip' el r1)"

definition parse_v6 :: "string \<Rightarrow> int list option" where
  "parse_v6 s =
     (if s = ''::'' then Some (replicate 16 0)
      else
        let lead = has_prefix s ''::'' in
        case v6_groups 8 [] (if lead then Some 0 else None) (if lead then drop 2 s else s) of
          None \<Rightarrow> None
        | Some (ip, el, rest) \<Rightarrow>
            if rest \<noteq> [] then None
            else if length ip < 16 then
              (case el of None \<Rightarrow> None | Some e \<Rightarrow> Some (take e ip @ replicate (16 - length ip) 0 @ drop e ip))
            else if el \<noteq> None then None else Some ip)"

text \<open>\<open>net.ParseIP\<close>: the 16 bytes of the address. Zones are refused.\<close>

definition ParseIP :: "string \<Rightarrow> int list option" where
  "ParseIP s =
     (if CHR ''%'' \<in> set s then None
      else case find (\<lambda>c. c = CHR ''.'' \<or> c = CHR '':'') s of
        None \<Rightarrow> None
      | Some c \<Rightarrow>
          if c = CHR ''.'' then map_option (\<lambda>q. replicate 10 0 @ [255, 255] @ q) (parse_v4 s) else parse_v6 s)"

definition To4 :: "int list \<Rightarrow> bool" where
  "To4 ip \<longleftrightarrow> take 10 ip = replicate 10 0 \<and> ip ! 10 = 255 \<and> ip ! 11 = 255"

section \<open>Peer addresses\<close>

record 'ma AddrInfo =
  ai_ID :: string
  ai_Addrs :: "'ma list"

record 'ma p2p_lib =
  lib_NewMultiaddr :: "string \<Rightarrow> 'ma option"
  lib_AddrInfoFromP2pAddr :: "'ma \<Rightarrow> 'ma AddrInfo option"
  lib_Decode :: "string \<Rightarrow> string option"
  lib_Protocols :: "'ma \<Rightarrow> string list"
  lib_String :: "'ma \<Rightarrow> string"

datatype addr_parse_error =
    EmptyTarget | InvalidOptPeerID | PeerIDMismatch | NoPeerID | InvalidPeerID | EndpointNeedsPeerID
  | CannotConstruct | InvalidPeerAddr

datatype multiaddr_error = MultiaddrEmpty | MultiaddrInvalid

definition ValidateMultiaddr :: "'ma p2p_lib \<Rightarrow> string \<Rightarrow> multiaddr_error option" where
  "ValidateMultiaddr lib raw =
     (let t = TrimSpace raw in
      if t = [] then Some MultiaddrEmpty
      else case lib_NewMultiaddr lib t of None \<Rightarrow> Some MultiaddrInvalid | Some _ \<Rightarrow> None)"

definition endpoint_multiaddr :: "string \<Rightarrow> string \<Rightarrow> string" where
  "endpoint_multiaddr hst port =
     (case ParseIP hst of
        Some ip \<Rightarrow> if To4 ip then ''/ip4/'' @ hst @ ''/tcp/'' @ port else ''/ip6/'' @ hst @ ''/tcp/'' @ port
      | None \<Rightarrow> ''/dns4/'' @ hst @ ''/tcp/'' @ port)"

definition ParsePeerAddr :: "'ma p2p_lib \<Rightarrow> string \<Rightarrow> string \<Rightarrow> addr_parse_error + 'ma AddrInfo" where
  "ParsePeerAddr lib target0 optPeerID0 =
     (let target = TrimSpace target0; optPeerID = TrimSpace optPeerID0 in
      if target = [] then Inl EmptyTarget
      else case lib_NewMultiaddr lib target of
        Some maddr \<Rightarrow>
          (case lib_AddrInfoFromP2pAddr lib maddr of
             Some info \<Rightarrow>
               if optPeerID \<noteq> [] then
                 (case lib_Decode lib optPeerID of
                    None \<Rightarrow> Inl InvalidOptPeerID
                  | Some parsedOpt \<Rightarrow> if parsedOpt \<noteq> ai_ID info then Inl PeerIDMismatch else Inr info)
               else Inr info
           | None \<Rightarrow>
               if optPeerID = [] then Inl NoPeerID
               else case lib_Decode lib optPeerID of
                 None \<Rightarrow> Inl InvalidPeerID
               | Some pid \<Rightarrow> Inr \<lparr>ai_ID = pid, ai_Addrs = [maddr]\<rparr>)
      | None \<Rightarrow>
          (case lib_Decode lib target of
             Some pid \<Rightarrow> Inr \<lparr>ai_ID = pid, ai_Addrs = []\<rparr>
           | None \<Rightarrow>
               (case SplitHostPort target of
                  Inl _ \<Rightarrow> Inl InvalidPeerAddr
                | Inr (hst, port) \<Rightarrow>
                    if optPeerID = [] then Inl EndpointNeedsPeerID
                    else case lib_Decode lib optPeerID of
                      None \<Rightarrow> Inl InvalidPeerID
                    | Some pid \<Rightarrow>
                        (case lib_NewMultiaddr lib (endpoint_multiaddr hst port) of
                           None \<Rightarrow> Inl CannotConstruct
                         | Some maddr \<Rightarrow> Inr \<lparr>ai_ID = pid, ai_Addrs = [maddr]\<rparr>))))"

text \<open>A nil address is \<open>None\<close>.\<close>

definition IsRelayAddr :: "'ma p2p_lib \<Rightarrow> 'ma option \<Rightarrow> bool" where
  "IsRelayAddr lib maddr =
     (case maddr of
        None \<Rightarrow> False
      | Some a \<Rightarrow> if list_ex (\<lambda>p. p = ''p2p-circuit'') (lib_Protocols lib a) then True
                 else Contains (lib_String lib a) ''/p2p-circuit'')"

text \<open>A connection by its remote address; \<open>None\<close> is a nil connection.\<close>

definition IsRelayConn :: "'ma p2p_lib \<Rightarrow> 'ma option option \<Rightarrow> bool" where
  "IsRelayConn lib conn = (case conn of None \<Rightarrow> False | Some maddr \<Rightarrow> IsRelayAddr lib maddr)"

section \<open>Properties\<close>

text \<open>Parsed addresses have 16 bytes.\<close>

lemma parse_v4_length: "parse_v4 s = Some q \<Longrightarrow> length q = 4"
  by (auto simp: parse_v4_def split: list.splits option.splits)

lemma v6_groups_length:
  "v6_groups n ip el s = Some (ip', el', r) \<Longrightarrow> length ip + 2 * n = 16 \<Longrightarrow> length ip' \<le> 16"
proof (induction n arbitrary: ip el s)
  case (Suc n)
  then have IH: "length ip' \<le> 16" if "v6_groups n (ip @ [x, y]) e t = Some (ip', el', r)" for x y e t
    using that by simp
  show ?case
    using Suc.prems by (simp add: Let_def split: if_splits option.splits list.splits) (auto dest: parse_v4_length IH)
qed auto

lemma ParseIP_length: "ParseIP s = Some ip \<Longrightarrow> length ip = 16"
proof -
  have "length ip = 16" if "parse_v6 s = Some ip" for ip
    using that v6_groups_length [of 8 "[]"]
    by (auto simp: parse_v6_def Let_def split: if_splits option.splits prod.splits dest!: v6_groups_length)
  then show "ParseIP s = Some ip \<Longrightarrow> length ip = 16"
    by (auto simp: ParseIP_def parse_v4_length split: if_splits option.splits)
qed

lemma ParseIP_examples:
  "ParseIP ''127.0.0.1'' = Some (replicate 10 0 @ [255, 255, 127, 0, 0, 1])"
  "ParseIP ''fe80::1'' = Some ([254, 128] @ replicate 13 0 @ [1])"
  "ParseIP ''::ffff:1.2.3.4'' = Some (replicate 10 0 @ [255, 255, 1, 2, 3, 4])"
  "ParseIP ''1::2::3'' = None" "ParseIP ''1.2.3.04'' = None" "ParseIP ''fe80::1%eth0'' = None" "ParseIP ''example.org'' = None"
  by code_simp+

text \<open>A caller that supplies a peer id with an address never gets another peer: unless the target itself is a
  bare peer id, the result carries exactly the decoded peer id, and without one the id comes from the target.\<close>

theorem ParsePeerAddr_id:
  assumes "ParsePeerAddr lib target optPeerID = Inr info"
  shows "if lib_NewMultiaddr lib (TrimSpace target) = None \<and> lib_Decode lib (TrimSpace target) \<noteq> None
    then Some (ai_ID info) = lib_Decode lib (TrimSpace target) \<and> ai_Addrs info = []
    else if TrimSpace optPeerID \<noteq> [] then lib_Decode lib (TrimSpace optPeerID) = Some (ai_ID info)
    else \<exists>maddr. lib_NewMultiaddr lib (TrimSpace target) = Some maddr \<and> lib_AddrInfoFromP2pAddr lib maddr = Some info"
  using assms
  by (auto simp: ParsePeerAddr_def Let_def split: if_splits option.splits sum.splits prod.splits)

text \<open>A library that knows the addresses \<open>a\<close> (of peer \<open>P\<close>) and \<open>/ip4/10.0.0.1/tcp/9\<close>, and decodes ids by themselves.\<close>

definition demo_lib :: "string p2p_lib" where
  "demo_lib = \<lparr>lib_NewMultiaddr = (\<lambda>s. if s = ''a'' \<or> s = ''/ip4/10.0.0.1/tcp/9'' then Some s else None),
     lib_AddrInfoFromP2pAddr = (\<lambda>a. if a = ''a'' then Some \<lparr>ai_ID = ''P'', ai_Addrs = [a]\<rparr> else None),
     lib_Decode = (\<lambda>s. if s = ''P'' \<or> s = ''Q'' then Some s else None),
     lib_Protocols = (\<lambda>_. []), lib_String = (\<lambda>a. a)\<rparr>"

lemma demo_parse: "ParsePeerAddr demo_lib ''10.0.0.1:9'' '' Q '' = Inr \<lparr>ai_ID = ''Q'', ai_Addrs = [''/ip4/10.0.0.1/tcp/9'']\<rparr>"
  "TrimSpace '' Q '' = ''Q''" "TrimSpace ''10.0.0.1:9'' = ''10.0.0.1:9''"
  by code_simp+

theorem ParsePeerAddr_id_witness: "lib_Decode demo_lib ''Q'' = Some ''Q''"
  using ParsePeerAddr_id [OF demo_parse(1)] by (simp add: demo_parse(2,3) demo_lib_def)

end
