(* ===== verification/Bootstrap.thy ===== *)
theory Bootstrap
  imports Backoff Peer_Addr
begin

text \<open>
  Bootstrap peers: \<^verbatim>\<open>internal/network/p2p/bootstrap.go\<close>. The parallel dials of \<open>ConnectAll\<close> finish in an
  arbitrary order, which is an argument together with their outcomes; \<open>maintainLoop\<close> consumes the signals
  that wake its \<open>select\<close>, each tick with what the host reports and with the outcomes of the sleep and the dials.
\<close>

record 'ma BootstrapResult =
  br_AddrInfo :: "'ma AddrInfo"
  br_Err :: "string option"
  br_Duration :: duration

record 'ma BootstrapManager =
  bm_peers :: "'ma AddrInfo list"
  bm_backoffCfg :: BackoffConfig
  bm_cancelled :: bool
  bm_connectedCount :: int
  bm_closed :: bool

datatype bootstrap_error = BootstrapNilHost | BootstrapInvalidPeer string addr_parse_error

text \<open>The loop over the addresses; \<open>self\<close> is the id of the host.\<close>

primrec parse_peers :: "'ma p2p_lib \<Rightarrow> string \<Rightarrow> string list \<Rightarrow> bootstrap_error + 'ma AddrInfo list" where
  "parse_peers lib self [] = Inr []"
| "parse_peers lib self (raw # addrs) =
     (if raw = [] then parse_peers lib self addrs
      else case ParsePeerAddr lib raw [] of
        Inl e \<Rightarrow> Inl (BootstrapInvalidPeer raw e)
      | Inr pi \<Rightarrow>
          if ai_ID pi = self then parse_peers lib self addrs
          else map_sum id ((#) pi) (parse_peers lib self addrs))"

text \<open>A nil host is \<open>None\<close>.\<close>

definition NewBootstrapManager :: "'ma p2p_lib \<Rightarrow> string option \<Rightarrow> string list \<Rightarrow> BackoffConfig \<Rightarrow> bootstrap_error + 'ma BootstrapManager" where
  "NewBootstrapManager lib h addrs cfg =
     (case h of
        None \<Rightarrow> Inl BootstrapNilHost
      | Some self \<Rightarrow>
          (case parse_peers lib self addrs of
             Inl e \<Rightarrow> Inl e
           | Inr ps \<Rightarrow> Inr \<lparr>bm_peers = ps, bm_backoffCfg = cfg, bm_cancelled = False, bm_connectedCount = 0, bm_closed = False\<rparr>))"

definition bm_Peers :: "'ma BootstrapManager \<Rightarrow> 'ma AddrInfo list" where
  "bm_Peers bm = bm_peers bm"

section \<open>ConnectAll\<close>

text \<open>The goroutine of peer \<open>idx\<close> writes its slot of the results and counts a success.\<close>

definition connect_one :: "(nat \<Rightarrow> string option) \<Rightarrow> (nat \<Rightarrow> duration) \<Rightarrow> nat
    \<Rightarrow> 'ma BootstrapResult option list \<times> 'ma BootstrapManager \<Rightarrow> 'ma BootstrapResult option list \<times> 'ma BootstrapManager" where
  "connect_one outcome dur idx s =
     (case s of (results, bm) \<Rightarrow>
        (results[idx := Some \<lparr>br_AddrInfo = bm_peers bm ! idx, br_Err = outcome idx, br_Duration = dur idx\<rparr>],
         if outcome idx = None then bm\<lparr>bm_connectedCount := bm_connectedCount bm + 1\<rparr> else bm))"

text \<open>\<open>order\<close> is the order in which the dials finish; the slots are \<open>None\<close> until then.\<close>

definition ConnectAll :: "nat list \<Rightarrow> (nat \<Rightarrow> string option) \<Rightarrow> (nat \<Rightarrow> duration) \<Rightarrow> 'ma BootstrapManager
    \<Rightarrow> 'ma BootstrapResult option list \<times> 'ma BootstrapManager" where
  "ConnectAll order outcome dur bm =
     (if bm_peers bm = [] then ([], bm)
      else fold (connect_one outcome dur) order (replicate (length (bm_peers bm)) None, bm))"

section \<open>maintainLoop\<close>

text \<open>What one tick of the ticker observes: the connected peers, the random number and outcome of the sleep,
  and whether the dial to each peer succeeds.\<close>

record tick =
  tk_connected :: "string list"
  tk_rng :: int
  tk_cancelled :: bool
  tk_dial :: "string \<Rightarrow> bool"

datatype signal = ManagerDone | ContextDone | CheckTick tick

text \<open>One tick: the new backoff, or \<open>None\<close> when the loop returns, and the peers it dialled.\<close>

definition maintain_tick :: "int \<Rightarrow> 'ma BootstrapManager \<Rightarrow> tick \<Rightarrow> Backoff \<Rightarrow> Backoff option \<times> 'ma AddrInfo list" where
  "maintain_tick plat bm t b =
     (let hasBootstrap = list_ex (\<lambda>bp. ai_ID bp \<in> set (tk_connected t)) (bm_peers bm);
          disconnected = filter (\<lambda>bp. ai_ID bp \<notin> set (tk_connected t)) (bm_peers bm)
      in if hasBootstrap then (Some (bo_Reset b), [])
         else if disconnected = [] then (Some b, [])
         else case bo_Sleep plat (tk_rng t) (tk_cancelled t) b of
           (Some e, b') \<Rightarrow> (None, [])
         | (None, b') \<Rightarrow>
             let reconnected = list_ex (\<lambda>bp. tk_dial t (ai_ID bp)) disconnected
             in (Some (if reconnected then bo_Reset b' else b'), disconnected))"

text \<open>The loop: whether it has returned, and all dials it made.\<close>

fun maintain :: "int \<Rightarrow> 'ma BootstrapManager \<Rightarrow> signal list \<Rightarrow> Backoff \<Rightarrow> bool \<times> 'ma AddrInfo list" where
  "maintain plat bm [] b = (False, [])"
| "maintain plat bm (ManagerDone # sigs) b = (True, [])"
| "maintain plat bm (ContextDone # sigs) b = (True, [])"
| "maintain plat bm (CheckTick t # sigs) b =
     (case maintain_tick plat bm t b of
        (None, ds) \<Rightarrow> (True, ds)
      | (Some b', ds) \<Rightarrow> (case maintain plat bm sigs b' of (r, ds') \<Rightarrow> (r, ds @ ds')))"

text \<open>\<open>Start\<close> runs the loop in a goroutine, unless there are no peers.\<close>

definition bm_Start :: "int \<Rightarrow> signal list \<Rightarrow> 'ma BootstrapManager \<Rightarrow> bool \<times> 'ma AddrInfo list" where
  "bm_Start plat sigs bm =
     (if bm_peers bm = [] then (True, []) else maintain plat bm sigs (NewBackoff (bm_backoffCfg bm)))"

definition bm_Close :: "'ma BootstrapManager \<Rightarrow> 'ma BootstrapManager" where
  "bm_Close bm = (if bm_closed bm then bm else bm\<lparr>bm_closed := True, bm_cancelled := True\<rparr>)"

section \<open>Facts\<close>

lemma parse_peers_spec:
  "parse_peers lib self addrs = Inr ps \<Longrightarrow>
     self \<notin> ai_ID ` set ps \<and> (\<forall>pi \<in> set ps. \<exists>raw \<in> set addrs. ParsePeerAddr lib raw [] = Inr pi)
     \<and> (\<forall>raw \<in> set addrs. raw \<noteq> [] \<longrightarrow> (\<exists>pi. ParsePeerAddr lib raw [] = Inr pi \<and> (pi \<in> set ps \<or> ai_ID pi = self)))"
proof (induction addrs arbitrary: ps)
  case (Cons raw addrs)
  show ?case
  proof (cases "raw = []")
    case True
    with Cons show ?thesis by auto
  next
    case False
    then obtain pi where pi: "ParsePeerAddr lib raw [] = Inr pi" using Cons.prems by (auto split: sum.splits)
    show ?thesis
    proof (cases "ai_ID pi = self")
      case True
      with Cons pi False show ?thesis by auto
    next
      case other: False
      with Cons.prems pi False obtain qs where "parse_peers lib self addrs = Inr qs" "ps = pi # qs"
        by (cases "parse_peers lib self addrs") auto
      with Cons.IH [of qs] pi other show ?thesis by auto
    qed
  qed
qed simp

lemma fold_connect:
  assumes "distinct order" "\<forall>i \<in> set order. i < length rs"
  shows "fold (connect_one outcome dur) order (rs, bm) =
    (map (\<lambda>i. if i \<in> set order then Some \<lparr>br_AddrInfo = bm_peers bm ! i, br_Err = outcome i, br_Duration = dur i\<rparr> else rs ! i) [0..<length rs],
     bm\<lparr>bm_connectedCount := bm_connectedCount bm + int (length (filter (\<lambda>i. outcome i = None) order))\<rparr>)"
  using assms
proof (induction order arbitrary: rs bm)
  case Nil
  then show ?case by (simp add: map_nth)
next
  case (Cons i order)
  let ?r = "Some \<lparr>br_AddrInfo = bm_peers bm ! i, br_Err = outcome i, br_Duration = dur i\<rparr>"
  let ?bm = "if outcome i = None then bm\<lparr>bm_connectedCount := bm_connectedCount bm + 1\<rparr> else bm"
  have "fold (connect_one outcome dur) (i # order) (rs, bm) = fold (connect_one outcome dur) order (rs[i := ?r], ?bm)"
    by (simp add: connect_one_def)
  also have "\<dots> = (map (\<lambda>j. if j \<in> set order then Some \<lparr>br_AddrInfo = bm_peers ?bm ! j, br_Err = outcome j, br_Duration = dur j\<rparr>
      else rs[i := ?r] ! j) [0..<length (rs[i := ?r])],
     ?bm\<lparr>bm_connectedCount := bm_connectedCount ?bm + int (length (filter (\<lambda>i. outcome i = None) order))\<rparr>)"
    by (rule Cons.IH) (use Cons.prems in auto)
  finally show ?case
    using Cons.prems by (auto simp: nth_list_update intro!: map_cong)
qed

text \<open>A tick that finds every bootstrap peer gone and reaches none of them.\<close>

definition bad_tick :: "'ma BootstrapManager \<Rightarrow> tick \<Rightarrow> bool" where
  "bad_tick bm t \<longleftrightarrow> \<not> tk_cancelled t \<and> list_all (\<lambda>bp. ai_ID bp \<notin> set (tk_connected t) \<and> \<not> tk_dial t (ai_ID bp)) (bm_peers bm)"

lemma bad_tick_step:
  assumes "bad_tick bm t" "bm_peers bm \<noteq> []"
  shows "maintain_tick plat bm t b =
    (if HasNext b then (Some (snd (NextDelay plat (tk_rng t) b)), bm_peers bm) else (None, []))"
proof -
  have "\<not> list_ex (\<lambda>bp. ai_ID bp \<in> set (tk_connected t)) (bm_peers bm)"
    "filter (\<lambda>bp. ai_ID bp \<notin> set (tk_connected t)) (bm_peers bm) = bm_peers bm"
    "\<not> list_ex (\<lambda>bp. tk_dial t (ai_ID bp)) (bm_peers bm)" "\<not> tk_cancelled t"
    using assms(1) by (auto simp: bad_tick_def list_all_iff list_ex_iff intro: filter_True)
  then show ?thesis using assms(2) by (simp add: maintain_tick_def Sleep_cases Let_def)
qed

lemma maintain_gives_up:
  assumes "bm_peers bm \<noteq> []" "0 < MaxRetries (bo_cfg b)" "bo_attempts b + int left = MaxRetries (bo_cfg b)"
    and "list_all (bad_tick bm) ts" "length ts = Suc left"
  shows "maintain plat bm (map CheckTick ts @ rest) b = (True, concat (replicate left (bm_peers bm)))"
  using assms
proof (induction left arbitrary: b ts)
  case 0
  then obtain t where "ts = [t]" "bad_tick bm t" by (auto simp: length_Suc_conv)
  with 0 show ?case by (simp add: bad_tick_step HasNext_def)
next
  case (Suc n)
  then obtain t us where ts: "ts = t # us" "bad_tick bm t" "list_all (bad_tick bm) us" "length us = Suc n"
    by (auto simp: length_Suc_conv [of ts])
  have "maintain plat bm (map CheckTick us @ rest) (snd (NextDelay plat (tk_rng t) b)) = (True, concat (replicate n (bm_peers bm)))"
    using Suc.prems ts by (intro Suc.IH) simp_all
  with Suc.prems ts show ?case by (simp add: bad_tick_step HasNext_def)
qed

section \<open>Properties\<close>

text \<open>C39: \<open>ConnectAll\<close> reports every bootstrap peer in its own slot with the outcome of its own dial, in whatever order
  the dials finish, and counts exactly the successful ones.\<close>

theorem ConnectAll_any_order:
  assumes "distinct order" "set order = {..<length (bm_peers bm)}"
  shows "ConnectAll order outcome dur bm =
    (map (\<lambda>i. Some \<lparr>br_AddrInfo = bm_peers bm ! i, br_Err = outcome i, br_Duration = dur i\<rparr>) [0..<length (bm_peers bm)],
     bm\<lparr>bm_connectedCount := bm_connectedCount bm + int (card {i. i < length (bm_peers bm) \<and> outcome i = None})\<rparr>)"
proof (cases "bm_peers bm = []")
  case True
  then show ?thesis by (simp add: ConnectAll_def)
next
  case False
  let ?n = "length (bm_peers bm)"
  have "length (filter (\<lambda>i. outcome i = None) order) = card (set (filter (\<lambda>i. outcome i = None) order))"
    using assms(1) by (simp add: distinct_card del: set_filter)
  also have "set (filter (\<lambda>i. outcome i = None) order) = {i. i < ?n \<and> outcome i = None}" using assms(2) by auto
  finally have c: "length (filter (\<lambda>i. outcome i = None) order) = card {i. i < ?n \<and> outcome i = None}" .
  have "fold (connect_one outcome dur) order (replicate ?n None, bm) =
      (map (\<lambda>i. Some \<lparr>br_AddrInfo = bm_peers bm ! i, br_Err = outcome i, br_Duration = dur i\<rparr>) [0..<?n],
       bm\<lparr>bm_connectedCount := bm_connectedCount bm + int (card {i. i < ?n \<and> outcome i = None})\<rparr>)"
    using assms by (subst fold_connect) (auto simp: c)
  with False show ?thesis by (simp add: ConnectAll_def)
qed

definition demo_bm :: "string BootstrapManager" where
  "demo_bm = \<lparr>bm_peers = [\<lparr>ai_ID = ''P'', ai_Addrs = [''a'']\<rparr>, \<lparr>ai_ID = ''Q'', ai_Addrs = []\<rparr>],
     bm_backoffCfg = DefaultBackoffConfig, bm_cancelled = False, bm_connectedCount = 0, bm_closed = False\<rparr>"

lemma demo_bm_new: "NewBootstrapManager demo_lib (Some ''me'') [''a'', [], '' Q ''] DefaultBackoffConfig = Inr demo_bm"
  by code_simp

theorem ConnectAll_any_order_witness:
  "map (map_option br_Err) (fst (ConnectAll [1, 0] (\<lambda>i. if i = 0 then None else Some ''refused'') (\<lambda>i. 7) demo_bm)) = [Some None, Some (Some ''refused'')]"
  using ConnectAll_any_order [of "[1, 0]" demo_bm "\<lambda>i. if i = 0 then None else Some ''refused''" "\<lambda>i. 7"]
  by (auto simp: demo_bm_def lessThan_Suc eval_nat_numeral upt_rec)

text \<open>The maintenance loop gives up for good: with a retry limit, once that many ticks in a row have found all
  bootstrap peers gone and dialled them in vain, the next such tick ends the loop, and no later signal makes it dial
  again.\<close>

theorem bootstrap_gives_up:
  assumes "bm_peers bm \<noteq> []" "0 < MaxRetries (bm_backoffCfg bm)"
    and "list_all (bad_tick bm) ts" "int (length ts) = MaxRetries (bm_backoffCfg bm) + 1"
  shows "bm_Start plat (map CheckTick ts @ rest) bm =
    (True, concat (replicate (nat (MaxRetries (bm_backoffCfg bm))) (bm_peers bm)))"
proof -
  let ?b = "NewBackoff (bm_backoffCfg bm)" and ?n = "nat (MaxRetries (bm_backoffCfg bm))"
  have "maintain plat bm (map CheckTick ts @ rest) ?b = (True, concat (replicate ?n (bm_peers bm)))"
    using assms bo_New(3,4) [of "bm_backoffCfg bm"] by (intro maintain_gives_up) simp_all
  with assms(1) show ?thesis by (simp add: bm_Start_def)
qed

definition demo_bad :: tick where
  "demo_bad = \<lparr>tk_connected = [''Z''], tk_rng = 0, tk_cancelled = False, tk_dial = (\<lambda>_. False)\<rparr>"

theorem bootstrap_gives_up_witness:
  "fst (bm_Start 0 (map CheckTick (replicate 6 demo_bad) @ [CheckTick (demo_bad\<lparr>tk_dial := \<lambda>_. True\<rparr>)]) demo_bm)"
  using bootstrap_gives_up [of demo_bm "replicate 6 demo_bad" 0 "[CheckTick (demo_bad\<lparr>tk_dial := \<lambda>_. True\<rparr>)]"]
  by (simp add: demo_bm_def DefaultBackoffConfig_def bad_tick_def demo_bad_def list_all_iff)

end
