(* ===== verification/Dht.thy ===== *)
theory Dht
  imports Framing Bootstrap Sha256
begin

text \<open>
  The Kademlia component: \<^verbatim>\<open>internal/network/p2p/dht.go\<close>. The libp2p host is represented by its id, its
  address list and the text of its id; \<open>encoding/json\<close> on a \<open>DHTMessage\<close> calls the library's encoder of
  \<open>peer.AddrInfo\<close>, so the pair \<open>enc\<close>, \<open>dec\<close> of the message text is an argument. Streams carry frames of the
  theory \<open>Framing\<close>. A nil manager (DHT disabled) is \<open>None\<close>; the
  methods that change the state do nothing then, and are defined on managers. Times come from a clock tape; the orders in which Go
  ranges over its maps are arguments.
\<close>

unbundle bit_operations_syntax

section \<open>Configuration and state\<close>

definition DHTProtocolID :: string where "DHTProtocolID = ''/skall/kad/1.0.0''"
definition DefaultDHTNamespace :: string where "DefaultDHTNamespace = ''skall.rendezvous.v2''"
definition DHTModeAuto :: string where "DHTModeAuto = ''auto''"
definition DHTModeClient :: string where "DHTModeClient = ''client''"
definition DHTModeServer :: string where "DHTModeServer = ''server''"
definition DHTModeDisabled :: string where "DHTModeDisabled = ''disabled''"
definition DefaultKBucketSize :: int where "DefaultKBucketSize = 20"

record DHTConfig =
  dc_Mode :: string
  dc_ProtocolPrefix :: string
  dc_Namespace :: string
  dc_PollInterval :: duration
  dc_RecordTTL :: duration

definition DefaultDHTConfig :: DHTConfig where
  "DefaultDHTConfig =
     \<lparr>dc_Mode = DHTModeAuto, dc_ProtocolPrefix = DHTProtocolID, dc_Namespace = DefaultDHTNamespace,
      dc_PollInterval = 30 * second, dc_RecordTTL = 15 * 60 * second\<rparr>"

definition DHTMsgPing :: string where "DHTMsgPing = ''PING''"
definition DHTMsgPong :: string where "DHTMsgPong = ''PONG''"
definition DHTMsgFindNode :: string where "DHTMsgFindNode = ''FIND_NODE''"
definition DHTMsgFindNodeResp :: string where "DHTMsgFindNodeResp = ''FIND_NODE_RESP''"
definition DHTMsgAdvertise :: string where "DHTMsgAdvertise = ''ADVERTISE''"
definition DHTMsgFindProviders :: string where "DHTMsgFindProviders = ''FIND_PROVIDERS''"
definition DHTMsgFindProvidersResp :: string where "DHTMsgFindProvidersResp = ''FIND_PROVIDERS_RESP''"

record 'ma DHTMessage =
  dht_Type :: string
  dht_Sender :: "'ma AddrInfo"
  dht_Target :: string
  dht_Namespace :: string
  dht_Peers :: "'ma AddrInfo list"
  dht_Timestamp :: time
  dht_TTLSec :: int

record 'ma providerRecord =
  pr_info :: "'ma AddrInfo"
  pr_expiresAt :: time

text \<open>What the manager uses of its libp2p host, and which protocols have a stream handler there.\<close>

record 'ma libhost =
  lh_ID :: string
  lh_String :: string
  lh_Addrs :: "'ma list"
  lh_handlers :: "string list"

record 'ma DHTManager =
  dm_host :: "'ma libhost"
  dm_cfg :: DHTConfig
  dm_routing :: "(string \<times> 'ma AddrInfo) list"
  dm_providers :: "(string \<times> (string \<times> 'ma providerRecord) list) list"
  dm_cancelled :: bool
  dm_closed :: bool

datatype dht_error = ErrUnknownMode string

definition NewDHTManager :: "'ma libhost \<Rightarrow> DHTConfig \<Rightarrow> dht_error + 'ma DHTManager option" where
  "NewDHTManager h cfg =
     (if EqualFold (dc_Mode cfg) DHTModeDisabled then Inr None
      else
        let mode0 = ToLower (TrimSpace (dc_Mode cfg));
            mode = (if mode0 = [] then DHTModeAuto else mode0)
        in if mode \<noteq> DHTModeAuto \<and> mode \<noteq> DHTModeClient \<and> mode \<noteq> DHTModeServer \<and> mode \<noteq> DHTModeDisabled
           then Inl (ErrUnknownMode (dc_Mode cfg))
           else
             let prefix = (if dc_ProtocolPrefix cfg = [] then DHTProtocolID else dc_ProtocolPrefix cfg)
             in Inr (Some
                  \<lparr>dm_host = h\<lparr>lh_handlers := prefix # lh_handlers h\<rparr>,
                   dm_cfg = \<lparr>dc_Mode = mode, dc_ProtocolPrefix = prefix,
                     dc_Namespace = (if dc_Namespace cfg = [] then DefaultDHTNamespace else dc_Namespace cfg),
                     dc_PollInterval = (if dc_PollInterval cfg \<le> 0 then 30 * second else dc_PollInterval cfg),
                     dc_RecordTTL = (if dc_RecordTTL cfg \<le> 0 then 15 * 60 * second else dc_RecordTTL cfg)\<rparr>,
                   dm_routing = [], dm_providers = [], dm_cancelled = False, dm_closed = False\<rparr>))"

definition dm_Config :: "'ma DHTManager option \<Rightarrow> DHTConfig" where
  "dm_Config dmo =
     (case dmo of
        None \<Rightarrow> \<lparr>dc_Mode = DHTModeDisabled, dc_ProtocolPrefix = [], dc_Namespace = [], dc_PollInterval = 0, dc_RecordTTL = 0\<rparr>
      | Some dm \<Rightarrow> dm_cfg dm)"

abbreviation dm_self :: "'ma DHTManager \<Rightarrow> string" where
  "dm_self dm \<equiv> lh_ID (dm_host dm)"

definition self_info :: "'ma DHTManager \<Rightarrow> 'ma AddrInfo" where
  "self_info dm = \<lparr>ai_ID = lh_ID (dm_host dm), ai_Addrs = lh_Addrs (dm_host dm)\<rparr>"

section \<open>Routing table\<close>

definition dm_AddPeer :: "'ma AddrInfo \<Rightarrow> 'ma DHTManager \<Rightarrow> 'ma DHTManager" where
  "dm_AddPeer pi dm =
     (if ai_ID pi = dm_self dm \<or> ai_Addrs pi = [] then dm
      else dm\<lparr>dm_routing := AList.update (ai_ID pi) pi (dm_routing dm)\<rparr>)"

definition dm_RemovePeer :: "string \<Rightarrow> 'ma DHTManager \<Rightarrow> 'ma DHTManager" where
  "dm_RemovePeer pid dm =
     dm\<lparr>dm_routing := AList.delete pid (dm_routing dm),
        dm_providers := map (\<lambda>(ns, m). (ns, AList.delete pid m)) (dm_providers dm)\<rparr>"

definition RoutingTableSize :: "'ma DHTManager option \<Rightarrow> int" where
  "RoutingTableSize dmo = (case dmo of None \<Rightarrow> 0 | Some dm \<Rightarrow> len (dm_routing dm))"

text \<open>\<open>big.Int.SetBytes\<close>, and the distance: the bytes of the digests combined one by one.\<close>

definition SetBytes :: "int list \<Rightarrow> int" where
  "SetBytes bs = foldl (\<lambda>n b. 256 * n + b) 0 bs"

definition digest_bytes :: "string \<Rightarrow> int list" where
  "digest_bytes s = map of_char (sha256 s)"

definition XORKeyDistance :: "string \<Rightarrow> string \<Rightarrow> int" where
  "XORKeyDistance a b = SetBytes (map2 (XOR) (digest_bytes a) (digest_bytes b))"

text \<open>\<open>shuf\<close> is the order of the map; sorting after an arbitrary order also covers the unstable sort.\<close>

definition ClosestPeers :: "((string \<times> 'ma AddrInfo) list \<Rightarrow> (string \<times> 'ma AddrInfo) list) \<Rightarrow> string \<Rightarrow> int
    \<Rightarrow> 'ma DHTManager option \<Rightarrow> 'ma AddrInfo list" where
  "ClosestPeers shuf target cnt dmo =
     (case dmo of
        None \<Rightarrow> []
      | Some dm \<Rightarrow>
          if cnt \<le> 0 then []
          else take (nat cnt) (sort_key (\<lambda>pi. XORKeyDistance target (ai_ID pi)) (map snd (shuf (dm_routing dm)))))"

section \<open>Providers\<close>

definition storeProvider :: "time \<Rightarrow> string \<Rightarrow> 'ma AddrInfo \<Rightarrow> duration \<Rightarrow> 'ma DHTManager \<Rightarrow> 'ma DHTManager" where
  "storeProvider now ns pi ttl dm =
     (if ns = [] \<or> ai_ID pi = [] \<or> ai_Addrs pi = [] then dm
      else
        let bucket = (case map_of (dm_providers dm) ns of None \<Rightarrow> [] | Some m \<Rightarrow> m)
        in dm\<lparr>dm_providers := AList.update ns
                (AList.update (ai_ID pi) \<lparr>pr_info = pi, pr_expiresAt = now + ttl\<rparr> bucket) (dm_providers dm)\<rparr>)"

definition live :: "time \<Rightarrow> string \<times> 'ma providerRecord \<Rightarrow> bool" where
  "live now kv \<longleftrightarrow> \<not> pr_expiresAt (snd kv) < now"

text \<open>\<open>shuf\<close> is the order in which the loop visits the bucket.\<close>

definition getLocalProviders :: "((string \<times> 'ma providerRecord) list \<Rightarrow> (string \<times> 'ma providerRecord) list) \<Rightarrow> time \<Rightarrow> string
    \<Rightarrow> 'ma DHTManager \<Rightarrow> 'ma AddrInfo list \<times> 'ma DHTManager" where
  "getLocalProviders shuf now ns dm =
     (case map_of (dm_providers dm) ns of
        None \<Rightarrow> ([], dm)
      | Some bucket \<Rightarrow>
          (map (pr_info \<circ> snd) (filter (live now) (shuf bucket)),
           dm\<lparr>dm_providers := AList.update ns (filter (live now) bucket) (dm_providers dm)\<rparr>))"

section \<open>Messages\<close>

definition no_info :: "'ma AddrInfo" where
  "no_info = \<lparr>ai_ID = [], ai_Addrs = []\<rparr>"

definition dht_message :: "string \<Rightarrow> 'ma AddrInfo \<Rightarrow> time \<Rightarrow> 'ma DHTMessage" where
  "dht_message t sender now =
     \<lparr>dht_Type = t, dht_Sender = sender, dht_Target = [], dht_Namespace = [], dht_Peers = [], dht_Timestamp = now, dht_TTLSec = 0\<rparr>"

definition zero_dht :: "'ma DHTMessage" where
  "zero_dht = dht_message [] no_info zero_time"

text \<open>The chat message that carries a DHT message: \<open>clk 0\<close> in its id, \<open>clk 1\<close> as its time.\<close>

definition carrier :: "(nat \<Rightarrow> time) \<Rightarrow> 'ma DHTManager \<Rightarrow> string \<Rightarrow> Message" where
  "carrier clk dm data =
     \<lparr>Version = ProtocolVersion, ID = ''dht-'' @ FormatInt (UnixNano (clk 0)), Type = TypeSystem,
      SenderID = lh_String (dm_host dm), RecipientID = [], GroupID = [], Timestamp = clk 1, Body = data\<rparr>"

text \<open>\<open>writeResponse\<close>: the bytes it puts on the stream, nothing when an error is dropped.\<close>

definition writeResponse :: "('ma DHTMessage \<Rightarrow> string option) \<Rightarrow> (nat \<Rightarrow> time) \<Rightarrow> 'ma DHTManager \<Rightarrow> 'ma DHTMessage \<Rightarrow> string" where
  "writeResponse enc clk dm resp =
     (case enc resp of
        None \<Rightarrow> []
      | Some data \<Rightarrow> (case MarshalMessage (carrier clk dm data) of Inl e \<Rightarrow> [] | Inr text \<Rightarrow> frame_of text))"

text \<open>\<open>time.Duration(TTLSec) * time.Second\<close> wraps around.\<close>

definition ttl_of :: "int \<Rightarrow> duration" where
  "ttl_of secs = signed_take_bit 63 (secs * second)"

record 'ma dht_orders =
  do_routing :: "(string \<times> 'ma AddrInfo) list \<Rightarrow> (string \<times> 'ma AddrInfo) list"
  do_bucket :: "(string \<times> 'ma providerRecord) list \<Rightarrow> (string \<times> 'ma providerRecord) list"

text \<open>The part of \<open>handleStream\<close> after decoding; \<open>clk 2\<close> is the time of the switch.\<close>

definition handle_request :: "('ma DHTMessage \<Rightarrow> string option) \<Rightarrow> 'ma dht_orders \<Rightarrow> (nat \<Rightarrow> time) \<Rightarrow> 'ma DHTMessage
    \<Rightarrow> 'ma DHTManager \<Rightarrow> string \<times> 'ma DHTManager" where
  "handle_request enc ord clk req dm0 =
     (let dm = (if ai_Addrs (dht_Sender req) \<noteq> [] then dm_AddPeer (dht_Sender req) dm0 else dm0) in
      if dht_Type req = DHTMsgPing then
        (writeResponse enc clk dm (dht_message DHTMsgPong (self_info dm) (clk 2)), dm)
      else if dht_Type req = DHTMsgAdvertise then
        let ttl = (if ttl_of (dht_TTLSec req) \<le> 0 then dc_RecordTTL (dm_cfg dm) else ttl_of (dht_TTLSec req))
        in ([], storeProvider (clk 2) (dht_Namespace req) (dht_Sender req) ttl dm)
      else if dht_Type req = DHTMsgFindProviders then
        let (providers, dm') = getLocalProviders (do_bucket ord) (clk 2) (dht_Namespace req) dm
        in (writeResponse enc clk dm' ((dht_message DHTMsgFindProvidersResp (self_info dm') (clk 3))
              \<lparr>dht_Namespace := dht_Namespace req, dht_Peers := providers\<rparr>), dm')
      else if dht_Type req = DHTMsgFindNode then
        let closest = ClosestPeers (do_routing ord) (dht_Target req) DefaultKBucketSize (Some dm)
        in (writeResponse enc clk dm ((dht_message DHTMsgFindNodeResp (self_info dm) (clk 3))
              \<lparr>dht_Target := dht_Target req, dht_Peers := closest\<rparr>), dm)
      else ([], dm))"

text \<open>\<open>handleStream\<close> on a stream that delivers \<open>bytes\<close> and then the error \<open>fin\<close>.\<close>

definition dht_handleStream :: "('ma DHTMessage \<Rightarrow> string option) \<Rightarrow> (string \<Rightarrow> 'ma DHTMessage option) \<Rightarrow> 'ma dht_orders
    \<Rightarrow> (nat \<Rightarrow> time) \<Rightarrow> io_error \<Rightarrow> string \<Rightarrow> 'ma DHTManager \<Rightarrow> string \<times> 'ma DHTManager" where
  "dht_handleStream enc dec ord clk fin bytes dm =
     (case ReadMessage fin bytes of
        (Inl e, _) \<Rightarrow> ([], dm)
      | (Inr msg, _) \<Rightarrow> (case dec (Body msg) of None \<Rightarrow> ([], dm) | Some req \<Rightarrow> handle_request enc ord clk req dm))"

text \<open>
  \<open>sendDHTMessage\<close>: \<open>net target\<close> is the error of \<open>NewStream\<close> or the remote end, a function from the bytes
  written to the bytes of its answer and the error after them. With \<open>want\<close> (a response pointer) the result is
  the decoded response, the zero message when the answer is empty.
\<close>

datatype dht_send_error = SendOpen string | SendMarshal | SendWrite proto_error | SendRead frame_error | SendDecode

definition sendDHTMessage :: "('ma DHTMessage \<Rightarrow> string option) \<Rightarrow> (string \<Rightarrow> 'ma DHTMessage option) \<Rightarrow> (nat \<Rightarrow> time)
    \<Rightarrow> (string \<Rightarrow> string + (string \<Rightarrow> string \<times> io_error)) \<Rightarrow> string \<Rightarrow> 'ma DHTMessage \<Rightarrow> bool \<Rightarrow> 'ma DHTManager
    \<Rightarrow> dht_send_error + 'ma DHTMessage" where
  "sendDHTMessage enc dec clk net target req want dm =
     (case net target of
        Inl e \<Rightarrow> Inl (SendOpen e)
      | Inr remote \<Rightarrow>
          (case enc req of
             None \<Rightarrow> Inl SendMarshal
           | Some data \<Rightarrow>
               (case MarshalMessage (carrier clk dm data) of
                  Inl e \<Rightarrow> Inl (SendWrite e)
                | Inr text \<Rightarrow>
                    if \<not> want then Inr zero_dht
                    else
                      let (answer, fin) = remote (frame_of text) in
                      case ReadMessage fin answer of
                        (Inl e, _) \<Rightarrow> if e = FrameIO EOF then Inr zero_dht else Inl (SendRead e)
                      | (Inr resMsg, _) \<Rightarrow> (case dec (Body resMsg) of None \<Rightarrow> Inl SendDecode | Some r \<Rightarrow> Inr r))))"

section \<open>Advertising and finding peers\<close>

text \<open>\<open>Advertise\<close>: the peers the advertisement goes to (each in its own goroutine), the message, and the local record.
  The TTL travels in whole seconds.\<close>

definition Advertise :: "(nat \<Rightarrow> time) \<Rightarrow> string list \<Rightarrow> string \<Rightarrow> duration \<Rightarrow> 'ma DHTManager
    \<Rightarrow> (string list \<times> 'ma DHTMessage) \<times> 'ma DHTManager" where
  "Advertise clk connected ns0 ttl0 dm =
     (let ns = (if ns0 = [] then dc_Namespace (dm_cfg dm) else ns0);
          ttl = (if ttl0 \<le> 0 then dc_RecordTTL (dm_cfg dm) else ttl0);
          msg = (dht_message DHTMsgAdvertise (self_info dm) (clk 0))\<lparr>dht_Namespace := ns, dht_TTLSec := ttl div second\<rparr>
      in ((filter (\<lambda>pid. pid \<noteq> dm_self dm) connected, msg), storeProvider (clk 1) ns (self_info dm) ttl dm))"

text \<open>
  \<open>FindPeers\<close> with a context that is not cancelled and a consumer that keeps reading: what it sends on the
  channel. The local providers come first and stop at the limit; then the answers of the peers, in the order
  \<open>answers\<close> in which they arrive.
\<close>

fun emit_local :: "int \<Rightarrow> string set \<Rightarrow> 'ma AddrInfo list \<Rightarrow> 'ma AddrInfo list \<times> string set \<times> bool" where
  "emit_local limit seen [] = ([], seen, False)"
| "emit_local limit seen (pi # pis) =
     (if ai_ID pi \<in> seen then emit_local limit seen pis
      else
        let seen' = insert (ai_ID pi) seen in
        if limit \<le> int (card seen') - 1 then ([pi], seen', True)
        else case emit_local limit seen' pis of (out, s, stop) \<Rightarrow> (pi # out, s, stop))"

fun emit_answers :: "string set \<Rightarrow> 'ma AddrInfo list \<Rightarrow> 'ma AddrInfo list \<times> string set" where
  "emit_answers seen [] = ([], seen)"
| "emit_answers seen (pi # pis) =
     (if ai_ID pi \<notin> seen \<and> ai_Addrs pi \<noteq> []
      then case emit_answers (insert (ai_ID pi) seen) pis of (out, s) \<Rightarrow> (pi # out, s)
      else emit_answers seen pis)"

definition answer_peers :: "(dht_send_error + 'ma DHTMessage) list \<Rightarrow> 'ma AddrInfo list" where
  "answer_peers answers =
     concat (map (\<lambda>a. case a of Inr r \<Rightarrow> if dht_Type r = DHTMsgFindProvidersResp then dht_Peers r else [] | Inl _ \<Rightarrow> []) answers)"

definition FindPeers :: "((string \<times> 'ma providerRecord) list \<Rightarrow> (string \<times> 'ma providerRecord) list) \<Rightarrow> time
    \<Rightarrow> (dht_send_error + 'ma DHTMessage) list \<Rightarrow> string \<Rightarrow> int \<Rightarrow> 'ma DHTManager option \<Rightarrow> 'ma AddrInfo list \<times> 'ma DHTManager option" where
  "FindPeers shuf now answers ns0 limit0 dmo =
     (case dmo of
        None \<Rightarrow> ([], None)
      | Some dm \<Rightarrow>
          let ns = (if ns0 = [] then dc_Namespace (dm_cfg dm) else ns0);
              limit = (if limit0 \<le> 0 then DefaultKBucketSize else limit0);
              (locals, dm') = getLocalProviders shuf now ns dm;
              (out1, seen, stop) = emit_local limit {dm_self dm} locals
          in if stop then (out1, Some dm')
             else (out1 @ fst (emit_answers seen (answer_peers answers)), Some dm'))"

text \<open>\<open>discoverOnce\<close>: the peers passed to \<open>onPeerFound\<close>.\<close>

definition discoverOnce :: "((string \<times> 'ma providerRecord) list \<Rightarrow> (string \<times> 'ma providerRecord) list) \<Rightarrow> time
    \<Rightarrow> (dht_send_error + 'ma DHTMessage) list \<Rightarrow> 'ma DHTManager \<Rightarrow> 'ma AddrInfo list \<times> 'ma DHTManager" where
  "discoverOnce shuf now answers dm =
     (case FindPeers shuf now answers (dc_Namespace (dm_cfg dm)) DefaultKBucketSize (Some dm) of
        (found, dmo) \<Rightarrow>
          let good = filter (\<lambda>pi. ai_ID pi \<noteq> dm_self dm \<and> ai_Addrs pi \<noteq> []) found
          in (good, fold dm_AddPeer good (case dmo of Some d \<Rightarrow> d | None \<Rightarrow> dm)))"

text \<open>One round of \<open>loop\<close>, with what it observes, and the loop over the signals that wake its \<open>select\<close>: the peers
  passed to \<open>onPeerFound\<close> in all rounds.\<close>

record 'ma dht_tick =
  dt_clk :: "nat \<Rightarrow> time"
  dt_connected :: "string list"
  dt_shuf :: "(string \<times> 'ma providerRecord) list \<Rightarrow> (string \<times> 'ma providerRecord) list"
  dt_answers :: "(dht_send_error + 'ma DHTMessage) list"

definition dht_round :: "'ma dht_tick \<Rightarrow> 'ma DHTManager \<Rightarrow> 'ma AddrInfo list \<times> 'ma DHTManager" where
  "dht_round t dm =
     discoverOnce (dt_shuf t) (dt_clk t 2) (dt_answers t)
       (snd (Advertise (dt_clk t) (dt_connected t) (dc_Namespace (dm_cfg dm)) (dc_RecordTTL (dm_cfg dm)) dm))"

datatype 'ma dht_wake = WakeClosed | WakeParentDone | WakeTick "'ma dht_tick"

fun dht_loop :: "'ma dht_wake list \<Rightarrow> 'ma DHTManager \<Rightarrow> 'ma AddrInfo list \<times> 'ma DHTManager" where
  "dht_loop [] dm = ([], dm)"
| "dht_loop (WakeClosed # ws) dm = ([], dm)"
| "dht_loop (WakeParentDone # ws) dm = ([], dm)"
| "dht_loop (WakeTick t # ws) dm =
     (case dht_round t dm of (found, dm1) \<Rightarrow> (case dht_loop ws dm1 of (later, dm2) \<Rightarrow> (found @ later, dm2)))"

text \<open>\<open>StartDiscovery\<close> runs \<open>loop\<close> in a goroutine: a first round at once, then the loop.\<close>

definition StartDiscovery :: "'ma dht_tick \<Rightarrow> 'ma dht_wake list \<Rightarrow> 'ma DHTManager option \<Rightarrow> 'ma AddrInfo list \<times> 'ma DHTManager option" where
  "StartDiscovery first ws dmo =
     (case dmo of
        None \<Rightarrow> ([], None)
      | Some dm \<Rightarrow> (case dht_loop (WakeTick first # ws) dm of (found, dm') \<Rightarrow> (found, Some dm')))"

definition dm_Close :: "'ma DHTManager option \<Rightarrow> 'ma DHTManager option" where
  "dm_Close dmo =
     (case dmo of
        None \<Rightarrow> None
      | Some dm \<Rightarrow>
          Some (if dm_closed dm then dm
                else dm\<lparr>dm_closed := True, dm_cancelled := True,
                  dm_host := (dm_host dm)\<lparr>lh_handlers := removeAll (dc_ProtocolPrefix (dm_cfg dm)) (lh_handlers (dm_host dm))\<rparr>\<rparr>))"

end
