(* ===== verification/Dht_Laws.thy ===== *)
theory Dht_Laws
  imports Dht
begin

text \<open>
  Properties of the Kademlia component: the XOR distance is a metric on digests, \<open>ClosestPeers\<close> returns the
  nearest peers, the invariant of the routing table and the provider records under every operation, the lifetime
  of provider records, and the request and response between two nodes over the frames of the wire.
\<close>

unbundle bit_operations_syntax

section \<open>The distance\<close>

definition is_byte :: "int \<Rightarrow> bool" where
  "is_byte b \<longleftrightarrow> 0 \<le> b \<and> b < 256"

lemma byte_take_bit: "is_byte b \<Longrightarrow> take_bit 8 b = b"
  by (simp add: is_byte_def take_bit_int_eq_self)

lemma byte_step: "is_byte b \<Longrightarrow> 256 * n + b = concat_bit 8 b n"
  by (simp add: concat_bit_eq byte_take_bit push_bit_eq_mult)

lemma xor_step: "concat_bit 8 x a XOR concat_bit 8 y b = concat_bit 8 (x XOR y) (a XOR b)"
  by (rule bit_eqI) (auto simp: bit_concat_bit_iff bit_xor_iff)

lemma byte_xor: "is_byte x \<Longrightarrow> is_byte y \<Longrightarrow> is_byte (x XOR y)"
proof -
  assume "is_byte x" "is_byte y"
  then have "take_bit 8 (x XOR y) = x XOR y" by (simp add: take_bit_xor byte_take_bit)
  then show ?thesis using take_bit_int_less_exp [of 8 "x XOR y"] take_bit_nonnegative [of 8 "x XOR y"]
    by (simp add: is_byte_def)
qed

lemma SetBytes_xor_acc:
  "length xs = length ys \<Longrightarrow> list_all is_byte xs \<Longrightarrow> list_all is_byte ys \<Longrightarrow>
     foldl (\<lambda>n b. 256 * n + b) (a XOR b) (map2 (XOR) xs ys) =
     foldl (\<lambda>n b. 256 * n + b) a xs XOR foldl (\<lambda>n b. 256 * n + b) b ys"
proof (induction xs ys arbitrary: a b rule: list_induct2)
  case (Cons x xs y ys)
  then have "256 * (a XOR b) + (x XOR y) = (256 * a + x) XOR (256 * b + y)"
    by (simp add: byte_step byte_xor xor_step)
  with Cons show ?case by simp
qed simp

lemma SetBytes_xor:
  "length xs = length ys \<Longrightarrow> list_all is_byte xs \<Longrightarrow> list_all is_byte ys \<Longrightarrow>
     SetBytes (map2 (XOR) xs ys) = SetBytes xs XOR SetBytes ys"
  using SetBytes_xor_acc [of xs ys 0 0] by (simp add: SetBytes_def)

lemma SetBytes_snoc: "SetBytes (xs @ [b]) = 256 * SetBytes xs + b"
  by (simp add: SetBytes_def)

lemma byte_unique:
  assumes "256 * m + x = 256 * n + (y :: int)" "0 \<le> x" "x < 256" "0 \<le> y" "y < 256"
  shows "m = n \<and> x = y"
proof -
  have "(256 * m + x) div 256 = m" "(256 * n + y) div 256 = n" using assms(2-5) by simp_all
  with assms(1) have "m = n" by simp
  with assms(1) show ?thesis by simp
qed

lemma SetBytes_inj:
  "length xs = length ys \<Longrightarrow> list_all is_byte xs \<Longrightarrow> list_all is_byte ys \<Longrightarrow> SetBytes xs = SetBytes ys \<Longrightarrow> xs = ys"
proof (induction xs arbitrary: ys rule: rev_induct)
  case (snoc x xs)
  then obtain ys' y where ys: "ys = ys' @ [y]" by (cases ys rule: rev_cases) auto
  with snoc.prems have b: "0 \<le> x" "x < 256" "0 \<le> y" "y < 256" "256 * SetBytes xs + x = 256 * SetBytes ys' + y"
    by (auto simp: SetBytes_snoc is_byte_def)
  then have "SetBytes xs = SetBytes ys'" "x = y" using byte_unique by blast+
  with snoc ys show ?case by simp
qed simp

lemma digest_bytes_ok: "length (digest_bytes s) = 32" "list_all is_byte (digest_bytes s)"
  by (auto simp: digest_bytes_def list_all_iff is_byte_def)

lemma SetBytes_nonneg: "list_all is_byte xs \<Longrightarrow> 0 \<le> SetBytes xs"
  by (induction xs rule: rev_induct) (auto simp: SetBytes_snoc is_byte_def SetBytes_def [of "[]"])

definition key_of :: "string \<Rightarrow> int" where
  "key_of s = SetBytes (digest_bytes s)"

lemma distance_xor: "XORKeyDistance a b = key_of a XOR key_of b"
  by (simp add: XORKeyDistance_def key_of_def SetBytes_xor digest_bytes_ok)

lemma key_nonneg: "0 \<le> key_of s"
  by (simp add: key_of_def SetBytes_nonneg digest_bytes_ok)

lemma key_inj: "key_of a = key_of b \<longleftrightarrow> sha256 a = sha256 b"
proof
  assume "key_of a = key_of b"
  then have "digest_bytes a = digest_bytes b"
    using SetBytes_inj [of "digest_bytes a" "digest_bytes b"] by (simp add: key_of_def digest_bytes_ok)
  then show "sha256 a = sha256 b"
    unfolding digest_bytes_def by (rule map_inj_on) (metis inj_onI of_char_eq_iff)
qed (simp add: key_of_def digest_bytes_def)

lemma xor_le_add:
  assumes "0 \<le> x" "0 \<le> (y :: int)"
  shows "x XOR y \<le> x + y"
proof -
  have "(x XOR y) + (x AND y) = (x XOR y) OR (x AND y)"
    by (rule disjunctive_add) (simp add: bit_xor_iff bit_and_iff)
  also have "(x XOR y) OR (x AND y) = x OR y" by (rule bit_eqI) (auto simp: bit_xor_iff bit_and_iff bit_or_iff)
  finally have "(x XOR y) + (x AND y) = x OR y" .
  moreover have "(x AND y) + (x OR y) = x + y" by (rule plus_and_or)
  moreover have "0 \<le> x AND y" using assms by simp
  ultimately show ?thesis by linarith
qed

lemma distance_triangle: "XORKeyDistance a c \<le> XORKeyDistance a b + XORKeyDistance b c"
proof -
  have "key_of a XOR key_of c = (key_of a XOR key_of b) XOR (key_of b XOR key_of c)"
    by (rule bit_eqI) (auto simp: bit_xor_iff)
  also have "\<dots> \<le> (key_of a XOR key_of b) + (key_of b XOR key_of c)"
    by (rule xor_le_add) (simp_all add: key_nonneg)
  finally show ?thesis by (simp add: distance_xor)
qed

section \<open>Closest peers\<close>

lemma sorted_take_drop: "sorted (map f xs) \<Longrightarrow> x \<in> set (take n xs) \<Longrightarrow> y \<in> set (drop n xs) \<Longrightarrow> f x \<le> f y"
proof -
  assume "sorted (map f xs)" and x: "x \<in> set (take n xs)" and y: "y \<in> set (drop n xs)"
  then have "sorted (map f (take n xs) @ map f (drop n xs))" by (simp flip: map_append)
  with x y show ?thesis by (auto simp: sorted_append)
qed

section \<open>The invariant\<close>

definition routing_ok :: "string \<Rightarrow> string \<times> 'ma AddrInfo \<Rightarrow> bool" where
  "routing_ok self kv \<longleftrightarrow> fst kv = ai_ID (snd kv) \<and> fst kv \<noteq> self \<and> ai_Addrs (snd kv) \<noteq> []"

definition record_ok :: "string \<times> 'ma providerRecord \<Rightarrow> bool" where
  "record_ok kv \<longleftrightarrow> fst kv = ai_ID (pr_info (snd kv)) \<and> fst kv \<noteq> [] \<and> ai_Addrs (pr_info (snd kv)) \<noteq> []"

definition bucket_ok :: "string \<times> (string \<times> 'ma providerRecord) list \<Rightarrow> bool" where
  "bucket_ok nb \<longleftrightarrow> fst nb \<noteq> [] \<and> distinct (map fst (snd nb)) \<and> list_all record_ok (snd nb)"

definition dht_inv :: "'ma DHTManager \<Rightarrow> bool" where
  "dht_inv dm \<longleftrightarrow> distinct (map fst (dm_routing dm)) \<and> list_all (routing_ok (dm_self dm)) (dm_routing dm)
     \<and> distinct (map fst (dm_providers dm)) \<and> list_all bucket_ok (dm_providers dm)"

lemma list_all_update: "list_all P m \<Longrightarrow> P (k, v) \<Longrightarrow> list_all P (AList.update k v m)"
  by (induction m) auto

lemma list_all_delete: "list_all P m \<Longrightarrow> list_all P (AList.delete k m)"
  by (auto simp: AList.delete_eq list_all_iff)

lemma AddPeer_inv: "dht_inv dm \<Longrightarrow> dht_inv (dm_AddPeer pi dm)"
  by (simp add: dm_AddPeer_def dht_inv_def AList.distinct_update list_all_update routing_ok_def)

lemma RemovePeer_inv: "dht_inv dm \<Longrightarrow> dht_inv (dm_RemovePeer pid dm)"
proof -
  assume i: "dht_inv dm"
  have "bucket_ok (ns, AList.delete pid m)" if "bucket_ok (ns, m)" for ns and m :: "(string \<times> 'a providerRecord) list"
    using that by (simp add: bucket_ok_def AList.distinct_delete list_all_delete)
  then have "list_all bucket_ok (map (\<lambda>(ns, m). (ns, AList.delete pid m)) (dm_providers dm))"
    using i by (auto simp: dht_inv_def list_all_iff)
  with i show ?thesis by (simp add: dm_RemovePeer_def dht_inv_def AList.distinct_delete list_all_delete comp_def case_prod_beta)
qed

lemma bucket_lookup: "dht_inv dm \<Longrightarrow> map_of (dm_providers dm) ns = Some m \<Longrightarrow> bucket_ok (ns, m)"
  by (auto simp: dht_inv_def list_all_iff dest: map_of_SomeD)

lemma storeProvider_inv: "dht_inv dm \<Longrightarrow> dht_inv (storeProvider now ns pi ttl dm)"
  using bucket_lookup [of dm ns]
  by (auto simp: storeProvider_def Let_def dht_inv_def AList.distinct_update bucket_ok_def record_ok_def
      intro!: list_all_update split: option.split)

lemma getLocalProviders_inv: "dht_inv dm \<Longrightarrow> dht_inv (snd (getLocalProviders shuf now ns dm))"
  using bucket_lookup [of dm ns]
  by (auto simp: getLocalProviders_def dht_inv_def AList.distinct_update bucket_ok_def distinct_map_filter list_all_iff [of record_ok]
      intro!: list_all_update split: option.split)

lemma handle_request_inv: "dht_inv dm \<Longrightarrow> dht_inv (snd (handle_request enc ord clk req dm))"
  using getLocalProviders_inv [of "dm_AddPeer (dht_Sender req) dm" "do_bucket ord" "clk 2" "dht_Namespace req"]
    getLocalProviders_inv [of dm "do_bucket ord" "clk 2" "dht_Namespace req"]
  by (auto simp: handle_request_def Let_def AddPeer_inv storeProvider_inv split: prod.split)

lemma fold_AddPeer_inv: "dht_inv dm \<Longrightarrow> dht_inv (fold dm_AddPeer pis dm)"
  by (induction pis arbitrary: dm) (simp_all add: AddPeer_inv)

lemma FindPeers_inv: "dht_inv dm \<Longrightarrow> FindPeers shuf now answers ns l (Some dm) = (out, Some dm') \<Longrightarrow> dht_inv dm'"
  using getLocalProviders_inv [of dm shuf now]
  by (auto simp: FindPeers_def Let_def split: prod.splits if_splits) (metis snd_conv)+

text \<open>Every operation that changes a manager; streams may deliver any bytes.\<close>

inductive dht_step :: "'ma DHTManager \<Rightarrow> 'ma DHTManager \<Rightarrow> bool" where
  dht_add: "dht_step dm (dm_AddPeer pi dm)"
| dht_remove: "dht_step dm (dm_RemovePeer pid dm)"
| dht_stream: "dht_step dm (snd (dht_handleStream enc dec ord clk fin bytes dm))"
| dht_advertise: "dht_step dm (snd (Advertise clk connected ns ttl dm))"
| dht_discover: "dht_step dm (snd (discoverOnce shuf now answers dm))"
| dht_close: "dm_Close (Some dm) = Some dm' \<Longrightarrow> dht_step dm dm'"

definition dht_init :: "'ma DHTManager \<Rightarrow> bool" where
  "dht_init dm \<longleftrightarrow> (\<exists>h cfg. NewDHTManager h cfg = Inr (Some dm))"

abbreviation dht_reachable :: "'ma DHTManager \<Rightarrow> bool" where
  "dht_reachable \<equiv> reach dht_init dht_step"

lemma FindPeers_Some: "\<exists>out dm'. FindPeers shuf now answers ns l (Some dm) = (out, Some dm')"
  by (simp add: FindPeers_def Let_def split: prod.split)

lemma discoverOnce_inv: "dht_inv dm \<Longrightarrow> dht_inv (snd (discoverOnce shuf now answers dm))"
proof -
  assume i: "dht_inv dm"
  obtain out dm' where f: "FindPeers shuf now answers (dc_Namespace (dm_cfg dm)) DefaultKBucketSize (Some dm) = (out, Some dm')"
    using FindPeers_Some by blast
  from FindPeers_inv [OF i f] show ?thesis by (simp add: discoverOnce_def f Let_def fold_AddPeer_inv)
qed

lemma dht_step_inv: "dht_step dm dm' \<Longrightarrow> dht_inv dm \<Longrightarrow> dht_inv dm'"
proof (induction rule: dht_step.induct)
  case (dht_stream dm enc dec ord clk fin bytes)
  then show ?case by (auto simp: dht_handleStream_def handle_request_inv split: prod.split sum.split option.split)
next
  case (dht_close dm dm')
  then show ?case by (auto simp: dm_Close_def dht_inv_def split: if_splits)
qed (simp_all add: AddPeer_inv RemovePeer_inv Advertise_def Let_def storeProvider_inv discoverOnce_inv)

interpretation dht: invariant_system dht_init dht_step dht_inv
proof unfold_locales
  fix s :: "'a DHTManager"
  assume "dht_init s"
  then show "dht_inv s" by (auto simp: dht_init_def NewDHTManager_def Let_def dht_inv_def split: if_splits)
next
  fix s t :: "'a DHTManager"
  assume "dht_inv s" "dht_step s t"
  then show "dht_inv t" by (rule dht_step_inv [rotated])
qed

text \<open>The discovery loop is a sequence of these steps.\<close>

lemma dht_loop_reachable: "dht_reachable dm \<Longrightarrow> dht_reachable (snd (dht_loop ws dm))"
proof (induction ws dm rule: dht_loop.induct)
  case (4 t ws dm)
  let ?a = "snd (Advertise (dt_clk t) (dt_connected t) (dc_Namespace (dm_cfg dm)) (dc_RecordTTL (dm_cfg dm)) dm)"
  have "dht_reachable ?a" by (rule reach_step [OF 4(2) dht_advertise])
  from reach_step [OF this dht_discover] have "dht_reachable (snd (dht_round t dm))" unfolding dht_round_def .
  with 4(1) [OF prod.collapse] show ?case by (simp add: case_prod_beta)
qed simp_all

lemma map_of_filter_distinct:
  "distinct (map fst m) \<Longrightarrow> map_of (filter P m) k = (case map_of m k of Some v \<Rightarrow> if P (k, v) then Some v else None | None \<Rightarrow> None)"
proof (induction m)
  case (Cons kv m)
  obtain j v where kv: "kv = (j, v)" by fastforce
  with Cons have "map_of m j = None" by (auto simp: map_of_eq_None_iff)
  with Cons kv show ?case by auto
qed simp

lemma Body_carrier: "Body (carrier clk dm d) = d"
  by (simp add: carrier_def)

section \<open>What finding peers emits\<close>

lemma emit_local_spec:
  "emit_local limit seen pis = (out, seen', stop) \<Longrightarrow>
     seen' = seen \<union> ai_ID ` set out \<and> distinct (map ai_ID out) \<and> ai_ID ` set out \<inter> seen = {} \<and> set out \<subseteq> set pis"
  by (induction limit seen pis arbitrary: out seen' stop rule: emit_local.induct)
    (fastforce simp: Let_def split: if_splits prod.splits)+

lemma emit_answers_spec:
  "emit_answers seen pis = (out, seen') \<Longrightarrow>
     distinct (map ai_ID out) \<and> ai_ID ` set out \<inter> seen = {} \<and> set out \<subseteq> set pis"
  by (induction seen pis arbitrary: out seen' rule: emit_answers.induct) (fastforce split: if_splits prod.splits)+

lemma emit_answers_all:
  "distinct (map ai_ID pis) \<Longrightarrow> ai_ID ` set pis \<inter> seen = {} \<Longrightarrow> \<forall>pi \<in> set pis. ai_Addrs pi \<noteq> [] \<Longrightarrow> fst (emit_answers seen pis) = pis"
  by (induction seen pis rule: emit_answers.induct) (auto split: prod.split)

section \<open>Properties\<close>

text \<open>C36: In every state the manager can reach, whatever bytes its streams deliver, the routing table holds each peer
  under its own id with at least one address and never the local peer, and every provider record stands under a
  non-empty namespace and its own id, with an address.\<close>

theorem dht_tables_ok:
  assumes "dht_reachable dm"
  shows "(\<forall>k pi. map_of (dm_routing dm) k = Some pi \<longrightarrow> ai_ID pi = k \<and> k \<noteq> dm_self dm \<and> ai_Addrs pi \<noteq> [])
    \<and> (\<forall>ns m k r. map_of (dm_providers dm) ns = Some m \<and> map_of m k = Some r \<longrightarrow>
         ns \<noteq> [] \<and> k \<noteq> [] \<and> ai_ID (pr_info r) = k \<and> ai_Addrs (pr_info r) \<noteq> [])
    \<and> RoutingTableSize (Some dm) = int (card (dom (map_of (dm_routing dm))))"
proof -
  have i: "dht_inv dm" by (rule dht.reach_inv [OF assms])
  have "ns \<noteq> [] \<and> record_ok (k, r)" if "map_of (dm_providers dm) ns = Some m" "map_of m k = Some r" for ns m k r
    using bucket_lookup [OF i that(1)] map_of_SomeD [OF that(2)] by (auto simp: bucket_ok_def list_all_iff)
  moreover have "length (dm_routing dm) = card (dom (map_of (dm_routing dm)))"
    using i by (metis dht_inv_def distinct_card dom_map_of_conv_image_fst length_map set_map)
  moreover have "routing_ok (dm_self dm) (k, pi)" if "map_of (dm_routing dm) k = Some pi" for k pi
    using i map_of_SomeD [OF that] by (auto simp: dht_inv_def list_all_iff)
  ultimately show ?thesis by (auto simp: record_ok_def routing_ok_def RoutingTableSize_def)
qed

text \<open>Two nodes, each knowing nothing but what the steps below tell it.\<close>

definition dht_demo_host :: "string \<Rightarrow> string libhost" where
  "dht_demo_host p = \<lparr>lh_ID = p, lh_String = p, lh_Addrs = [''/ip4/10.0.0.1/tcp/1''], lh_handlers = []\<rparr>"

definition demo_dht :: "string \<Rightarrow> string DHTManager" where
  "demo_dht p = \<lparr>dm_host = (dht_demo_host p)\<lparr>lh_handlers := [DHTProtocolID]\<rparr>, dm_cfg = DefaultDHTConfig,
     dm_routing = [], dm_providers = [], dm_cancelled = False, dm_closed = False\<rparr>"

abbreviation demo_peer :: "string \<Rightarrow> string AddrInfo" where
  "demo_peer p \<equiv> \<lparr>ai_ID = p, ai_Addrs = [''x'']\<rparr>"

lemma demo_dht_eq: "NewDHTManager (dht_demo_host p) DefaultDHTConfig = Inr (Some (demo_dht p))"
proof -
  have "EqualFold ''auto'' ''disabled'' = False" "ToLower (TrimSpace ''auto'') = ''auto''" by code_simp+
  then show ?thesis
    by (simp add: demo_dht_def dht_demo_host_def NewDHTManager_def DefaultDHTConfig_def DHTModeAuto_def DHTModeDisabled_def
        DHTProtocolID_def DefaultDHTNamespace_def second_def Let_def)
qed

lemma demo_dht_reachable: "dht_reachable (demo_dht p)"
  by (rule reach_init) (use demo_dht_eq in \<open>auto simp: dht_init_def\<close>)

lemma demo_dht_fields: "dm_self (demo_dht p) = p" "lh_String (dm_host (demo_dht p)) = p"
  "lh_Addrs (dm_host (demo_dht p)) = [''/ip4/10.0.0.1/tcp/1'']" "dm_routing (demo_dht p) = []" "dm_providers (demo_dht p) = []"
  by (simp_all add: demo_dht_def dht_demo_host_def)

definition demo_dht1 :: "string DHTManager" where
  "demo_dht1 = dm_AddPeer (demo_peer ''Q'') (demo_dht ''B'')"

lemma demo_dht1_reachable: "dht_reachable demo_dht1"
  unfolding demo_dht1_def by (rule reach_step [OF demo_dht_reachable dht_add])

lemma demo_dht1_routing: "dm_routing demo_dht1 = [(''Q'', demo_peer ''Q'')]"
  by (simp add: demo_dht1_def dm_AddPeer_def demo_dht_fields)

theorem dht_tables_ok_witness: "map_of (dm_routing demo_dht1) ''Q'' = Some (demo_peer ''Q'') \<and> ''Q'' \<noteq> dm_self demo_dht1"
  using dht_tables_ok [OF demo_dht1_reachable] by (simp add: demo_dht1_routing)

text \<open>The distance of \<open>XORKeyDistance\<close> is a metric on the digests: zero exactly between keys with the same digest,
  symmetric, and subject to the triangle inequality.\<close>

theorem XORKeyDistance_metric:
  "0 \<le> XORKeyDistance a b \<and> (XORKeyDistance a b = 0 \<longleftrightarrow> sha256 a = sha256 b)
   \<and> XORKeyDistance a b = XORKeyDistance b a \<and> XORKeyDistance a c \<le> XORKeyDistance a b + XORKeyDistance b c"
proof -
  have "key_of a XOR key_of b = 0 \<longleftrightarrow> key_of a = key_of b" by (metis xor_self_eq xor.assoc xor.right_neutral xor.left_neutral)
  then show ?thesis
    using key_inj [of a b] distance_triangle [of a c b] key_nonneg [of a] key_nonneg [of b] xor.commute [of "key_of a" "key_of b"]
    by (simp add: distance_xor)
qed

text \<open>C37: \<open>ClosestPeers\<close> returns the requested number of distinct peers of the routing table (all of them if there are
  fewer), sorted by distance from the target, and no peer it leaves out is closer than one it returns.\<close>

theorem ClosestPeers_nearest:
  fixes target :: string
  assumes "dht_reachable dm" "any_order shuf" "0 < n"
  defines "out \<equiv> ClosestPeers shuf target n (Some dm)"
  shows "length out = min (nat n) (length (dm_routing dm)) \<and> distinct (map ai_ID out) \<and> set out \<subseteq> ran (map_of (dm_routing dm))
    \<and> sorted (map (\<lambda>pi. XORKeyDistance target (ai_ID pi)) out)
    \<and> (\<forall>pi \<in> set out. \<forall>qi \<in> ran (map_of (dm_routing dm)) - set out.
         XORKeyDistance target (ai_ID pi) \<le> XORKeyDistance target (ai_ID qi))"
proof -
  let ?f = "\<lambda>pi. XORKeyDistance target (ai_ID pi)"
  let ?xs = "sort_key ?f (map snd (shuf (dm_routing dm)))"
  have i: "dht_inv dm" by (rule dht.reach_inv [OF assms(1)])
  have out: "out = take (nat n) ?xs" using assms(3) by (simp add: out_def ClosestPeers_def)
  have set: "set ?xs = ran (map_of (dm_routing dm))"
    using i any_order_set [OF assms(2)] by (simp add: dht_inv_def ran_distinct)
  have "mset (map ai_ID ?xs) = mset (map (ai_ID \<circ> snd) (dm_routing dm))"
    using assms(2) by (simp add: any_order_def flip: image_mset.compositionality)
  moreover have "map (ai_ID \<circ> snd) (dm_routing dm) = map fst (dm_routing dm)"
    using i by (auto simp: dht_inv_def list_all_iff routing_ok_def)
  ultimately have "distinct (map ai_ID ?xs)" using i by (metis dht_inv_def mset_eq_imp_distinct_iff)
  then have "distinct (map ai_ID out)" by (simp add: out distinct_take flip: take_map)
  moreover have "sorted (map ?f ?xs)" by simp
  then have "sorted (map ?f out)" by (simp add: out sorted_wrt_take flip: take_map)
  moreover have "qi \<in> set (drop (nat n) ?xs)" if "qi \<in> ran (map_of (dm_routing dm)) - set out" for qi
    using that set append_take_drop_id [of "nat n" ?xs] by (metis DiffE Un_iff out set_append)
  then have "\<forall>pi \<in> set out. \<forall>qi \<in> ran (map_of (dm_routing dm)) - set out. ?f pi \<le> ?f qi"
    using sorted_take_drop [OF \<open>sorted (map ?f ?xs)\<close>, of _ "nat n"] by (simp add: out)
  ultimately show ?thesis
    using set any_order_length [OF assms(2)] set_take_subset [of "nat n" ?xs] by (auto simp: out)
qed

theorem ClosestPeers_nearest_witness: "length (ClosestPeers rev ''t'' 20 (Some demo_dht1)) = 1"
  using ClosestPeers_nearest [OF demo_dht1_reachable any_order_rev, of 20 "''t''"] by (simp add: demo_dht1_routing)

text \<open>An advertisement is found for exactly its lifetime: after a peer with an address was stored under a namespace,
  a lookup there returns it until its expiry time and not later, lookups return nothing that expired, and a lookup
  removes only expired records.\<close>

theorem provider_lifetime:
  assumes "dht_reachable dm" "any_order shuf" "ns \<noteq> []" "ai_ID pi \<noteq> []" "ai_Addrs pi \<noteq> []"
    and "getLocalProviders shuf t ns (storeProvider t0 ns pi ttl dm) = (found, dm')"
  shows "(pi \<in> set found \<longleftrightarrow> t \<le> t0 + ttl)
    \<and> (\<forall>qi \<in> set found. \<exists>r. Option.bind (map_of (dm_providers dm') ns) (\<lambda>m. map_of m (ai_ID qi)) = Some r
         \<and> pr_info r = qi \<and> t \<le> pr_expiresAt r)
    \<and> (\<forall>k. Option.bind (map_of (dm_providers dm') ns) (\<lambda>m. map_of m k) =
         (case Option.bind (map_of (dm_providers (storeProvider t0 ns pi ttl dm)) ns) (\<lambda>m. map_of m k) of
            Some r \<Rightarrow> if t \<le> pr_expiresAt r then Some r else None | None \<Rightarrow> None))"
proof -
  let ?dm = "storeProvider t0 ns pi ttl dm"
  let ?r = "\<lparr>pr_info = pi, pr_expiresAt = t0 + ttl\<rparr>"
  obtain m0 where m: "map_of (dm_providers ?dm) ns = Some (AList.update (ai_ID pi) ?r m0)"
    using assms(3-5) by (auto simp: storeProvider_def Let_def skall_maps)
  let ?m = "AList.update (ai_ID pi) ?r m0"
  have ok: "bucket_ok (ns, ?m)"
    by (rule bucket_lookup [OF storeProvider_inv [OF dht.reach_inv [OF assms(1)]] m])
  then have d: "distinct (map fst ?m)" by (simp add: bucket_ok_def)
  have f: "found = map (pr_info \<circ> snd) (filter (live t) (shuf ?m))"
    and dm': "map_of (dm_providers dm') ns = Some (filter (live t) ?m)"
    using assms(6) m by (auto simp: getLocalProviders_def skall_maps)
  have mem: "qi \<in> set found \<longleftrightarrow> (\<exists>k r. map_of ?m k = Some r \<and> pr_info r = qi \<and> t \<le> pr_expiresAt r)" for qi
    using d by (auto simp: f live_def any_order_set [OF assms(2)] map_of_eq_Some_iff image_iff not_less)
  have key: "k = ai_ID (pr_info r)" if "map_of ?m k = Some r" for k r
    using ok map_of_SomeD [OF that] by (auto simp: bucket_ok_def list_all_iff record_ok_def)
  have filt: "map_of (filter (live t) ?m) k = (case map_of ?m k of Some r \<Rightarrow> if t \<le> pr_expiresAt r then Some r else None | None \<Rightarrow> None)" for k
    using d by (auto simp: map_of_filter_distinct live_def split: option.split)
  have "pi \<in> set found \<longleftrightarrow> t \<le> t0 + ttl"
  proof
    assume "pi \<in> set found"
    then obtain k r where "map_of ?m k = Some r" "pr_info r = pi" "t \<le> pr_expiresAt r" using mem [of pi] by blast
    moreover from this have "k = ai_ID pi" using key by blast
    ultimately show "t \<le> t0 + ttl" by (auto simp: map_of_put)
  next
    assume "t \<le> t0 + ttl"
    moreover have "map_of ?m (ai_ID pi) = Some ?r" by (simp add: map_of_put)
    ultimately show "pi \<in> set found" using mem [of pi] by force
  qed
  moreover have "\<exists>r. map_of (filter (live t) ?m) (ai_ID qi) = Some r \<and> pr_info r = qi \<and> t \<le> pr_expiresAt r" if qi: "qi \<in> set found" for qi
  proof -
    obtain k r where r: "map_of ?m k = Some r" "pr_info r = qi" "t \<le> pr_expiresAt r" using mem [of qi] qi by blast
    moreover from this have "k = ai_ID qi" using key by blast
    ultimately show ?thesis by (simp add: filt)
  qed
  ultimately show ?thesis by (simp add: m dm' filt)
qed

lemma demo_lifetime: "getLocalProviders rev 11 ''ns'' (storeProvider 5 ''ns'' (demo_peer ''Q'') 10 (demo_dht ''B'')) =
    ([demo_peer ''Q''], storeProvider 5 ''ns'' (demo_peer ''Q'') 10 (demo_dht ''B''))"
  by (simp add: getLocalProviders_def storeProvider_def demo_dht_fields live_def)

theorem provider_lifetime_witness: "demo_peer ''Q'' \<in> set [demo_peer ''Q''] \<longleftrightarrow> (11 :: time) \<le> 5 + 10"
  using provider_lifetime [OF demo_dht_reachable any_order_rev _ _ _ demo_lifetime] by simp


definition demo_req :: "string DHTMessage" where
  "demo_req = (dht_message DHTMsgFindProviders (self_info (demo_dht ''A'')) (unix_epoch + 4))\<lparr>dht_Namespace := ''ns''\<rparr>"

definition demo_store :: "string DHTManager" where
  "demo_store = storeProvider (unix_epoch + 1) ''ns'' (demo_peer ''Q'') second (demo_dht ''B'')"

definition demo_clk :: "nat \<Rightarrow> time" where
  "demo_clk n = unix_epoch + int n"

definition demo_resp :: "string DHTMessage" where
  "demo_resp = (dht_message DHTMsgFindProvidersResp (self_info demo_store) (demo_clk 3))
     \<lparr>dht_Namespace := ''ns'', dht_Peers := [demo_peer ''Q'']\<rparr>"

definition demo_enc :: "string DHTMessage \<Rightarrow> string option" where
  "demo_enc m = (if m = demo_req then Some ''q'' else if m = demo_resp then Some ''r'' else None)"

definition demo_dec :: "string \<Rightarrow> string DHTMessage option" where
  "demo_dec t = (if t = ''q'' then Some demo_req else if t = ''r'' then Some demo_resp else None)"

lemma demo_codec: "demo_enc m = Some t \<Longrightarrow> demo_dec t = Some m"
  by (auto simp: demo_enc_def demo_dec_def split: if_splits)

lemma demo_store_fields: "dm_host demo_store = dm_host (demo_dht ''B'')"
  "fst (getLocalProviders (\<lambda>xs. xs) (demo_clk 2) ''ns'' demo_store) = [demo_peer ''Q'']"
  by (simp_all add: demo_store_def storeProvider_def getLocalProviders_def demo_dht_fields live_def demo_clk_def second_def)

lemma demo_carriers: "sendable (carrier demo_clk (demo_dht ''A'') ''q'')" "sendable (carrier demo_clk demo_store ''r'')"
proof -
  let ?m = "\<lambda>p d. \<lparr>Version = ProtocolVersion, ID = ''dht-'' @ FormatInt (UnixNano (demo_clk 0)), Type = TypeSystem,
      SenderID = p, RecipientID = [], GroupID = [], Timestamp = demo_clk 1, Body = d\<rparr>"
  have "Validate (?m ''A'' ''q'') = None \<and> utf8_message (?m ''A'' ''q'') \<and> printable_time (demo_clk 1)" by code_simp
  then show "sendable (carrier demo_clk (demo_dht ''A'') ''q'')"
    by (simp add: sendable_def carrier_def demo_dht_fields)
  have "Validate (?m ''B'' ''r'') = None \<and> utf8_message (?m ''B'' ''r'') \<and> printable_time (demo_clk 1)" by code_simp
  then show "sendable (carrier demo_clk demo_store ''r'')"
    by (simp add: sendable_def carrier_def demo_store_fields demo_dht_fields)
qed

lemma demo_ne: "demo_resp \<noteq> demo_req"
  by (simp add: demo_req_def demo_resp_def dht_message_def DHTMsgFindProviders_def DHTMsgFindProvidersResp_def)


text \<open>What \<open>FindPeers\<close> delivers has no peer twice and never the local one; but the limit only holds for the local
  records: every peer with an address that the answers contain is delivered, however many.\<close>

theorem FindPeers_limit:
  assumes "map_of (dm_providers dm) ns = None" "ns \<noteq> []" "dht_Type resp = DHTMsgFindProvidersResp"
    and "distinct (map ai_ID (dht_Peers resp))" "dm_self dm \<notin> ai_ID ` set (dht_Peers resp)" "\<forall>pi \<in> set (dht_Peers resp). ai_Addrs pi \<noteq> []"
  shows "fst (FindPeers shuf now [Inr resp] ns limit (Some dm)) = dht_Peers resp"
  using assms emit_answers_all [of "dht_Peers resp" "{dm_self dm}"]
  by (auto simp: FindPeers_def Let_def getLocalProviders_def answer_peers_def)

theorem FindPeers_limit_witness:
  "length (fst (FindPeers rev 0 [Inr (demo_resp\<lparr>dht_Peers := [demo_peer ''Q'', demo_peer ''R'']\<rparr>)] ''other'' 1 (Some (demo_dht ''B'')))) = 2"
  by (subst FindPeers_limit) (simp_all add: demo_dht_fields demo_resp_def dht_message_def)

text \<open>The sender that a DHT message names is believed: one advertisement from anybody replaces the address under which
  another peer is known in the routing table and among the providers of a namespace.\<close>

theorem dht_sender_spoofed:
  assumes "dht_Type req = DHTMsgAdvertise" "dht_Sender req = \<lparr>ai_ID = victim, ai_Addrs = [evil]\<rparr>"
    and "dht_Namespace req = ns" "ns \<noteq> []" "victim \<noteq> []" "victim \<noteq> dm_self dm"
    and "handle_request enc ord clk req dm = (answer, dm')"
  shows "map_of (dm_routing dm') victim = Some \<lparr>ai_ID = victim, ai_Addrs = [evil]\<rparr>
    \<and> (\<exists>m r. map_of (dm_providers dm') ns = Some m \<and> map_of m victim = Some r \<and> ai_Addrs (pr_info r) = [evil])"
proof -
  have "DHTMsgAdvertise \<noteq> DHTMsgPing" by (simp add: DHTMsgAdvertise_def DHTMsgPing_def)
  with assms show ?thesis
    by (auto simp: handle_request_def Let_def dm_AddPeer_def storeProvider_def skall_maps)
qed

theorem dht_sender_spoofed_witness:
  "map_of (dm_routing (snd (handle_request demo_enc \<lparr>do_routing = rev, do_bucket = rev\<rparr> demo_clk
      (demo_req\<lparr>dht_Type := DHTMsgAdvertise, dht_Sender := \<lparr>ai_ID = ''Q'', ai_Addrs = [''evil'']\<rparr>\<rparr>) demo_dht1))) ''Q''
     = Some \<lparr>ai_ID = ''Q'', ai_Addrs = [''evil'']\<rparr>"
  by (rule conjunct1 [OF dht_sender_spoofed [where ns = "''ns''", OF _ _ _ _ _ _ prod.collapse [symmetric]]])
    (simp_all add: demo_req_def demo_dht1_def dm_AddPeer_def demo_dht_fields dht_message_def)

end
