(* ===== verification/Tcp_Server.thy ===== *)
theory Tcp_Server
  imports Framing
begin

text \<open>
  The TCP server: \<^verbatim>\<open>internal/network/tcp.go\<close> and the \<open>clientConn\<close> of \<^verbatim>\<open>client.go\<close>. Connections are
  objects named by numbers, in a store \<open>sv_conns\<close>; the maps of the server refer to them. A call that holds the
  lock, and one iteration of a read or write loop, is one operation; the two halves of \<open>enqueue\<close> are also
  given as separate steps, because a \<open>close\<close> can come between them.
\<close>

section \<open>Connections\<close>

definition maxConnections :: nat where "maxConnections = 256"
definition readDeadline :: duration where "readDeadline = 30 * second"

record clientConn =
  cc_peerID :: string
  cc_displayName :: string
  cc_writeCh :: "Message chan"
  cc_closed :: bool
  cc_closedN :: bool
  cc_connOpen :: bool
  cc_reading :: bool
  cc_writing :: bool

text \<open>\<open>cc_closed\<close> stands for the channel \<open>closed\<close> and for \<open>once\<close>; \<open>cc_reading\<close> and \<open>cc_writing\<close> say that the loop has
  not returned yet (the wait group counts them).\<close>

definition newClientConn :: clientConn where
  "newClientConn = \<lparr>cc_peerID = [], cc_displayName = [], cc_writeCh = make_chan 16, cc_closed = False, cc_closedN = False, cc_connOpen = True,
     cc_reading = True, cc_writing = True\<rparr>"

text \<open>The two halves of \<open>enqueue\<close>: the test of \<open>closedN\<close> and the non-blocking send.\<close>

definition enq_check :: "clientConn \<Rightarrow> bool" where
  "enq_check c = (\<not> cc_closedN c)"

definition enq_send :: "Message \<Rightarrow> clientConn \<Rightarrow> send_outcome \<times> clientConn" where
  "enq_send m c = (case try_send m (cc_writeCh c) of (r, ch) \<Rightarrow> (r, c\<lparr>cc_writeCh := ch\<rparr>))"

definition cc_enqueue :: "Message \<Rightarrow> clientConn \<Rightarrow> send_outcome \<times> clientConn" where
  "cc_enqueue m c = (if enq_check c then enq_send m c else (Dropped, c))"

text \<open>\<open>once.Do\<close> runs its body the first time only.\<close>

definition cc_close :: "clientConn \<Rightarrow> clientConn" where
  "cc_close c =
     (if cc_closed c then c
      else c\<lparr>cc_closedN := True, cc_closed := True, cc_writeCh := close_chan (cc_writeCh c), cc_connOpen := False\<rparr>)"

section \<open>The server\<close>

record Server =
  sv_address :: string
  sv_listener :: "string option"
  sv_clients :: "nat list"
  sv_peers :: "(string \<times> nat) list"
  sv_conns :: "(nat \<times> clientConn) list"
  sv_next :: nat
  sv_accepting :: bool
  sv_pending :: bool
  sv_closed :: bool
  sv_panicked :: bool

text \<open>\<open>sv_accepting\<close>: the listener is open; \<open>sv_pending\<close>: \<open>Serve\<close> holds a connection that \<open>Accept\<close> returned and that it
  has not admitted or refused yet.\<close>

definition NewServer :: "string \<Rightarrow> Server" where
  "NewServer address = \<lparr>sv_address = address, sv_listener = None, sv_clients = [], sv_peers = [], sv_conns = [],
     sv_next = 0, sv_accepting = False, sv_pending = False, sv_closed = False, sv_panicked = False\<rparr>"

text \<open>\<open>net.Listen\<close> gives an error or the address bound.\<close>

definition Listen :: "string + string \<Rightarrow> Server \<Rightarrow> string option \<times> Server" where
  "Listen bound s = (case bound of Inl e \<Rightarrow> (Some e, s) | Inr a \<Rightarrow> (None, s\<lparr>sv_listener := Some a, sv_accepting := True\<rparr>))"

definition sv_Addr :: "Server \<Rightarrow> string" where
  "sv_Addr s = (case sv_listener s of None \<Rightarrow> sv_address s | Some a \<Rightarrow> a)"

definition ActiveConnections :: "Server \<Rightarrow> int" where
  "ActiveConnections s = len (sv_clients s)"

definition upd_conn :: "nat \<Rightarrow> (clientConn \<Rightarrow> clientConn) \<Rightarrow> Server \<Rightarrow> Server" where
  "upd_conn i f s =
     (case map_of (sv_conns s) i of None \<Rightarrow> s | Some c \<Rightarrow> s\<lparr>sv_conns := AList.update i (f c) (sv_conns s)\<rparr>)"

definition addClient :: "nat \<Rightarrow> Server \<Rightarrow> Server" where
  "addClient i s = s\<lparr>sv_clients := List.insert i (sv_clients s)\<rparr>"

definition removeClient :: "nat \<Rightarrow> Server \<Rightarrow> Server" where
  "removeClient i s =
     (let s1 = s\<lparr>sv_clients := removeAll i (sv_clients s)\<rparr>;
          s2 = (case map_of (sv_conns s) i of
                  None \<Rightarrow> s1
                | Some c \<Rightarrow>
                    if cc_peerID c \<noteq> [] \<and> map_of (sv_peers s) (cc_peerID c) = Some i
                    then s1\<lparr>sv_peers := AList.delete (cc_peerID c) (sv_peers s1)\<rparr> else s1)
      in upd_conn i cc_close s2)"

definition registerPeer :: "nat \<Rightarrow> string \<Rightarrow> Server \<Rightarrow> Server" where
  "registerPeer i peerID s = s\<lparr>sv_peers := AList.update peerID i (sv_peers s)\<rparr>"

text \<open>\<open>enqueue\<close> on connection \<open>i\<close> in one piece; a send on a closed channel panics.\<close>

definition sv_enqueue :: "nat \<Rightarrow> Message \<Rightarrow> Server \<Rightarrow> bool \<times> Server" where
  "sv_enqueue i m s =
     (case map_of (sv_conns s) i of
        None \<Rightarrow> (False, s)
      | Some c \<Rightarrow>
          (case cc_enqueue m c of
             (Sent, c') \<Rightarrow> (True, s\<lparr>sv_conns := AList.update i c' (sv_conns s)\<rparr>)
           | (Dropped, c') \<Rightarrow> (False, s)
           | (SendPanic, c') \<Rightarrow> (False, s\<lparr>sv_panicked := True\<rparr>)))"

definition system_message :: "(nat \<Rightarrow> time) \<Rightarrow> string \<Rightarrow> string \<Rightarrow> Message" where
  "system_message clk recipient body =
     \<lparr>Version = ProtocolVersion, ID = FormatInt (UnixNano (clk 0)), Type = TypeSystem, SenderID = ''server'',
      RecipientID = recipient, GroupID = [], Timestamp = clk 1, Body = body\<rparr>"

definition send_to :: "Message \<Rightarrow> nat \<Rightarrow> Server \<Rightarrow> Server" where
  "send_to m i s = (case sv_enqueue i m s of (True, s') \<Rightarrow> s' | (False, s') \<Rightarrow> removeClient i s')"

text \<open>\<open>shuf\<close> is the order in which the map of clients is visited.\<close>

definition broadcast :: "(nat list \<Rightarrow> nat list) \<Rightarrow> (nat \<Rightarrow> time) \<Rightarrow> nat \<Rightarrow> Message \<Rightarrow> Server \<Rightarrow> Server" where
  "broadcast shuf clk sender m s =
     (if TrimSpace (RecipientID m) \<noteq> [] then
        (case map_of (sv_peers s) (RecipientID m) of
           None \<Rightarrow>
             snd (sv_enqueue sender
                    (system_message clk (SenderID m) (''delivery failed: peer '' @ RecipientID m @ '' unknown or offline'')) s)
         | Some recipient \<Rightarrow>
             (case sv_enqueue recipient m s of
                (True, s') \<Rightarrow> s'
              | (False, s') \<Rightarrow>
                  snd (sv_enqueue sender
                         (system_message clk (SenderID m) (''delivery failed: peer '' @ RecipientID m @ '' disconnected''))
                         (removeClient recipient s'))))
      else fold (send_to m) (filter (\<lambda>i. i \<noteq> sender) (shuf (sv_clients s))) s)"

text \<open>One iteration of \<open>Serve\<close>: the outcome of \<open>Accept\<close> is an error (closed listener or another) or a connection,
  which is then refused or admitted.\<close>

datatype accept_outcome = AcceptClosed | AcceptError string | Accepted

datatype serve_next = ServeReturns "string option" | ServeContinues

definition serve_accept :: "accept_outcome \<Rightarrow> Server \<Rightarrow> serve_next \<times> Server" where
  "serve_accept acc s =
     (if sv_listener s = None then (ServeReturns (Some ''network server is not listening''), s)
      else case acc of
        AcceptClosed \<Rightarrow> (ServeReturns None, s)
      | AcceptError e \<Rightarrow> (ServeReturns (if sv_closed s then None else Some e), s)
      | Accepted \<Rightarrow> (ServeContinues, s\<lparr>sv_pending := True\<rparr>))"

definition serve_admit :: "Server \<Rightarrow> Server" where
  "serve_admit s =
     (let s0 = s\<lparr>sv_pending := False\<rparr>
      in if maxConnections \<le> length (sv_clients s) then s0
         else addClient (sv_next s)
                (s0\<lparr>sv_conns := AList.update (sv_next s) newClientConn (sv_conns s), sv_next := Suc (sv_next s)\<rparr>))"

text \<open>What \<open>readLoop\<close> does with a message.\<close>

definition handle_message :: "(nat list \<Rightarrow> nat list) \<Rightarrow> (nat \<Rightarrow> time) \<Rightarrow> nat \<Rightarrow> Message \<Rightarrow> Server \<Rightarrow> Server" where
  "handle_message shuf clk i m s =
     (if Validate m \<noteq> None then s
      else
        let s1 = (if Type m = TypeJoin
                  then registerPeer i (SenderID m) (upd_conn i (\<lambda>c. c\<lparr>cc_peerID := SenderID m, cc_displayName := Body m\<rparr>) s)
                  else s)
        in broadcast shuf clk i m s1)"

text \<open>One iteration of \<open>readLoop\<close> on the bytes that arrive until the deadline or the end of the connection: the rest
  of the stream, or \<open>None\<close> when the loop ends and the connection is removed.\<close>

definition read_loop_end :: "nat \<Rightarrow> Server \<Rightarrow> Server" where
  "read_loop_end i s = upd_conn i (\<lambda>c. c\<lparr>cc_reading := False\<rparr>) (removeClient i s)"

definition read_once :: "(nat list \<Rightarrow> nat list) \<Rightarrow> (nat \<Rightarrow> time) \<Rightarrow> io_error \<Rightarrow> nat \<Rightarrow> string \<Rightarrow> Server \<Rightarrow> string option \<times> Server" where
  "read_once shuf clk fin i bytes s =
     (if (case map_of (sv_conns s) i of None \<Rightarrow> True | Some c \<Rightarrow> \<not> cc_connOpen c) then (None, read_loop_end i s)
      else case ReadMessage fin bytes of
        (Inl e, rest) \<Rightarrow> (None, read_loop_end i s)
      | (Inr m, rest) \<Rightarrow> (Some rest, handle_message shuf clk i m s))"

text \<open>One iteration of \<open>writeLoop\<close>: \<open>ok\<close> tells whether the write succeeds, \<open>pick\<close> which ready case the \<open>select\<close>
  takes when the connection is closed. The result has the message written.\<close>

definition write_loop_end :: "nat \<Rightarrow> Server \<Rightarrow> Server" where
  "write_loop_end i s = upd_conn i (\<lambda>c. c\<lparr>cc_writing := False\<rparr>) (removeClient i s)"

definition write_once :: "bool \<Rightarrow> bool \<Rightarrow> nat \<Rightarrow> Server \<Rightarrow> Message option \<times> Server" where
  "write_once ok pick i s =
     (case map_of (sv_conns s) i of
        None \<Rightarrow> (None, s)
      | Some c \<Rightarrow>
          if cc_closed c \<and> pick then (None, write_loop_end i s)
          else case recv (cc_writeCh c) of
             (RecvClosed, ch) \<Rightarrow> (None, write_loop_end i s)
           | (RecvBlocks, ch) \<Rightarrow> (None, s)
           | (Received m, ch) \<Rightarrow>
               let s1 = upd_conn i (\<lambda>c. c\<lparr>cc_writeCh := ch\<rparr>) s
               in if ok \<and> cc_connOpen c then (Some m, s1) else (None, write_loop_end i s1))"

text \<open>The once-only part of \<open>Shutdown\<close>; after it the call waits until no loop runs. \<open>closeErr\<close> is what closing the
  listener returns, other than that it is closed already.\<close>

definition sv_Shutdown :: "string option \<Rightarrow> Server \<Rightarrow> string option \<times> Server" where
  "sv_Shutdown closeErr s =
     (if sv_closed s then (None, s)
      else (if sv_listener s = None then None else closeErr,
            fold (\<lambda>i. upd_conn i cc_close) (sv_clients s) (s\<lparr>sv_closed := True, sv_accepting := False\<rparr>)))"

definition wg_done :: "Server \<Rightarrow> bool" where
  "wg_done s = list_all (\<lambda>(i, c). \<not> cc_reading c \<and> \<not> cc_writing c) (sv_conns s)"

text \<open>\<open>StartServer\<close>: the outcome of listening, then what comes first, the return of \<open>Serve\<close> or a signal; after a signal
  the result of \<open>Shutdown\<close> and then that of \<open>Serve\<close>.\<close>

datatype start_event = ServeDone "string option" | Signalled

definition StartServer :: "string + string \<Rightarrow> start_event \<Rightarrow> string option \<Rightarrow> string option \<Rightarrow> string \<Rightarrow> string option" where
  "StartServer bound ev closeErr serveErr address =
     (case Listen bound (NewServer address) of
        (Some e, s) \<Rightarrow> Some e
      | (None, s) \<Rightarrow>
          (case ev of
             ServeDone e \<Rightarrow> e
           | Signalled \<Rightarrow> (case sv_Shutdown closeErr s of (Some e, s') \<Rightarrow> Some e | (None, s') \<Rightarrow> serveErr)))"

end
