(* ===== verification/Tcp_Laws.thy ===== *)
theory Tcp_Laws
  imports Tcp_Server
begin

text \<open>
  Laws of the TCP server. The step relation has one step per access to shared state: a test of the limit, a
  registration, one \<open>enqueue\<close>, one removal, one receive of a write loop, so that broadcasts of several read loops
  interleave in every way; the loop bodies are sequences of such steps (\<open>read_once_steps\<close>, \<open>write_once_steps\<close>).
  The invariant bounds connections and queues. A last section takes the two halves of \<open>enqueue\<close> apart.
\<close>

section \<open>Invariant\<close>

definition conn_ok :: "clientConn \<Rightarrow> bool" where
  "conn_ok c \<longleftrightarrow> chan_ok (cc_writeCh c) \<and> chan_cap (cc_writeCh c) = 16 \<and> chan_closed (cc_writeCh c) = cc_closedN c
     \<and> cc_closed c = cc_closedN c \<and> cc_connOpen c = (\<not> cc_closedN c)"

definition sv_inv :: "Server \<Rightarrow> bool" where
  "sv_inv s \<longleftrightarrow> distinct (sv_clients s) \<and> length (sv_clients s) \<le> maxConnections
     \<and> (\<forall>i c. map_of (sv_conns s) i = Some c \<longrightarrow> i < sv_next s \<and> conn_ok c \<and> (i \<notin> set (sv_clients s) \<longrightarrow> cc_closed c))
     \<and> (\<forall>i \<in> set (sv_clients s). map_of (sv_conns s) i \<noteq> None)
     \<and> (\<forall>p i. map_of (sv_peers s) p = Some i \<longrightarrow> map_of (sv_conns s) i \<noteq> None)
     \<and> \<not> sv_panicked s"

lemma conn_ok_new [simp]: "conn_ok newClientConn"
  by (simp add: conn_ok_def newClientConn_def)

lemma conn_ok_close [simp]: "conn_ok c \<Longrightarrow> conn_ok (cc_close c)"
  by (simp add: conn_ok_def cc_close_def)

lemma conn_ok_fields [simp]:
  "conn_ok (c\<lparr>cc_peerID := p, cc_displayName := n\<rparr>) = conn_ok c" "conn_ok (c\<lparr>cc_reading := b\<rparr>) = conn_ok c"
  "conn_ok (c\<lparr>cc_writing := b\<rparr>) = conn_ok c"
  by (simp_all add: conn_ok_def)

lemma cc_close_sel [simp]: "cc_closed (cc_close c)" "cc_peerID (cc_close c) = cc_peerID c"
  by (simp_all add: cc_close_def)

lemma cc_enqueue_ok:
  assumes "conn_ok c"
  shows "conn_ok (snd (cc_enqueue m c))" "fst (cc_enqueue m c) \<noteq> SendPanic" "cc_closed (snd (cc_enqueue m c)) = cc_closed c"
    and "fst (cc_enqueue m c) = Dropped \<Longrightarrow> snd (cc_enqueue m c) = c"
  using assms by (auto simp: cc_enqueue_def enq_check_def enq_send_def conn_ok_def try_send_def chan_ok_def)

lemma update_same: "map_of m k = Some v \<Longrightarrow> AList.update k v m = m"
  by (induction m) auto

lemma upd_conn_sel [simp]:
  "sv_clients (upd_conn i f s) = sv_clients s" "sv_peers (upd_conn i f s) = sv_peers s"
  "sv_next (upd_conn i f s) = sv_next s" "sv_panicked (upd_conn i f s) = sv_panicked s"
  "sv_closed (upd_conn i f s) = sv_closed s" "sv_pending (upd_conn i f s) = sv_pending s"
  "sv_accepting (upd_conn i f s) = sv_accepting s" "sv_listener (upd_conn i f s) = sv_listener s"
  by (simp_all add: upd_conn_def split: option.split)

lemma map_of_upd_conn [simp]:
  "map_of (sv_conns (upd_conn i f s)) j = (if j = i then map_option f (map_of (sv_conns s) i) else map_of (sv_conns s) j)"
  by (simp add: upd_conn_def map_of_put split: option.split)

lemma sv_inv_conn:
  assumes "sv_inv s" "map_of (sv_conns s) i = Some c"
  shows "conn_ok c" "i < sv_next s"
  using assms by (auto simp: sv_inv_def)

lemma sv_inv_upd:
  assumes "sv_inv s"
    and "\<And>c. map_of (sv_conns s) i = Some c \<Longrightarrow> conn_ok c \<Longrightarrow> conn_ok (f c) \<and> (cc_closed c \<longrightarrow> cc_closed (f c))"
  shows "sv_inv (upd_conn i f s)"
proof -
  have "j < sv_next s \<and> conn_ok d \<and> (j \<notin> set (sv_clients s) \<longrightarrow> cc_closed d)"
    if d: "map_of (sv_conns (upd_conn i f s)) j = Some d" for j d
  proof (cases "j = i")
    case True
    then obtain c where "map_of (sv_conns s) i = Some c" "d = f c" using d by auto
    then show ?thesis using assms True by (auto simp: sv_inv_def)
  next
    case False
    then show ?thesis using assms(1) d by (simp add: sv_inv_def)
  qed
  then show ?thesis using assms(1) by (auto simp: sv_inv_def)
qed

lemma sv_enqueue_eq:
  assumes "sv_inv s"
  shows "snd (sv_enqueue i m s) = upd_conn i (\<lambda>c. snd (cc_enqueue m c)) s"
    and "fst (sv_enqueue i m s) \<longleftrightarrow> (\<exists>c. map_of (sv_conns s) i = Some c \<and> fst (cc_enqueue m c) = Sent)"
proof -
  have "snd (sv_enqueue i m s) = upd_conn i (\<lambda>c. snd (cc_enqueue m c)) s
    \<and> (fst (sv_enqueue i m s) \<longleftrightarrow> (\<exists>c. map_of (sv_conns s) i = Some c \<and> fst (cc_enqueue m c) = Sent))"
  proof (cases "map_of (sv_conns s) i")
    case None
    then show ?thesis by (simp add: sv_enqueue_def upd_conn_def)
  next
    case (Some c)
    note q = cc_enqueue_ok [OF sv_inv_conn(1) [OF assms Some], of m]
    obtain r d where e: "cc_enqueue m c = (r, d)" by force
    have same: "r = Dropped \<Longrightarrow> s\<lparr>sv_conns := AList.update i c (sv_conns s)\<rparr> = s"
      by (simp add: update_same [OF Some])
    show ?thesis
      using q same Some e by (cases r) (simp_all add: sv_enqueue_def upd_conn_def)
  qed
  then show "snd (sv_enqueue i m s) = upd_conn i (\<lambda>c. snd (cc_enqueue m c)) s"
    and "fst (sv_enqueue i m s) \<longleftrightarrow> (\<exists>c. map_of (sv_conns s) i = Some c \<and> fst (cc_enqueue m c) = Sent)"
    by blast+
qed

lemma sv_inv_enqueue: "sv_inv s \<Longrightarrow> sv_inv (snd (sv_enqueue i m s))"
  by (simp add: sv_enqueue_eq sv_inv_upd cc_enqueue_ok)

text \<open>What a removal changes: the client and at most one peer entry go, and the connection is closed.\<close>

lemma removeClient_sel [simp]:
  "sv_clients (removeClient i s) = removeAll i (sv_clients s)" "sv_next (removeClient i s) = sv_next s"
  "sv_panicked (removeClient i s) = sv_panicked s" "sv_closed (removeClient i s) = sv_closed s"
  by (simp_all add: removeClient_def Let_def split: option.split)

lemma conns_removeClient [simp]:
  "map_of (sv_conns (removeClient i s)) j =
     (if j = i then map_option cc_close (map_of (sv_conns s) i) else map_of (sv_conns s) j)"
  by (simp add: removeClient_def Let_def split: option.split)

lemma peers_removeClient: "map_of (sv_peers (removeClient i s)) p = Some j \<Longrightarrow> map_of (sv_peers s) p = Some j"
  by (auto simp: removeClient_def Let_def map_of_del split: option.splits if_splits)

lemma sv_inv_remove:
  assumes "sv_inv s"
  shows "sv_inv (removeClient i s)"
proof -
  have "j < sv_next s \<and> conn_ok d \<and> (j \<notin> set (removeAll i (sv_clients s)) \<longrightarrow> cc_closed d)"
    if "map_of (sv_conns (removeClient i s)) j = Some d" for j d
    using assms that by (auto simp: sv_inv_def split: if_splits)
  moreover have "length (removeAll i (sv_clients s)) \<le> maxConnections"
    using assms by (auto simp: sv_inv_def removeAll_filter_not_eq intro: le_trans [OF length_filter_le])
  ultimately show ?thesis
    using assms by (auto simp: sv_inv_def distinct_removeAll dest: peers_removeClient)
qed

lemma sv_inv_register:
  assumes "sv_inv s" "map_of (sv_conns s) i \<noteq> None"
  shows "sv_inv (registerPeer i p s)"
  using assms by (simp add: sv_inv_def registerPeer_def map_of_put)

lemma sv_inv_admit:
  assumes "sv_inv s"
  shows "sv_inv (serve_admit s)"
proof (cases "maxConnections \<le> length (sv_clients s)")
  case True
  then show ?thesis using assms by (simp add: serve_admit_def Let_def sv_inv_def)
next
  case False
  have "sv_next s \<notin> set (sv_clients s)"
    using assms sv_inv_conn(2) [OF assms] by (force simp: sv_inv_def)
  then show ?thesis
    using assms False by (auto simp: serve_admit_def Let_def addClient_def sv_inv_def map_of_put less_Suc_eq)
qed

section \<open>Steps\<close>

inductive sv_step :: "Server \<Rightarrow> Server \<Rightarrow> bool" where
  st_listen: "sv_step s (snd (Listen bound s))"
| st_accept: "sv_accepting s \<or> acc \<noteq> Accepted \<Longrightarrow> sv_step s (snd (serve_accept acc s))"
| st_admit: "sv_pending s \<Longrightarrow> sv_step s (serve_admit s)"
| st_identity: "sv_step s (upd_conn i (\<lambda>c. c\<lparr>cc_peerID := p, cc_displayName := n\<rparr>) s)"
| st_register: "map_of (sv_conns s) i \<noteq> None \<Longrightarrow> sv_step s (registerPeer i p s)"
| st_enqueue: "sv_step s (snd (sv_enqueue i m s))"
| st_remove: "sv_step s (removeClient i s)"
| st_dequeue: "map_of (sv_conns s) i = Some c \<Longrightarrow> recv (cc_writeCh c) = (Received m, ch) \<Longrightarrow>
    sv_step s (upd_conn i (\<lambda>c. c\<lparr>cc_writeCh := ch\<rparr>) s)"
| st_read_end: "sv_step s (upd_conn i (\<lambda>c. c\<lparr>cc_reading := False\<rparr>) s)"
| st_write_end: "sv_step s (upd_conn i (\<lambda>c. c\<lparr>cc_writing := False\<rparr>) s)"
| st_stop: "sv_step s (s\<lparr>sv_closed := True, sv_accepting := False\<rparr>)"
| st_close: "sv_step s (upd_conn i cc_close s)"

definition sv_reachable :: "Server \<Rightarrow> bool" where
  "sv_reachable = reach (\<lambda>s. \<exists>a. s = NewServer a) sv_step"

lemma sv_inv_new: "sv_inv (NewServer a)"
  by (simp add: sv_inv_def NewServer_def)

lemma sv_inv_fields:
  "sv_inv s \<Longrightarrow> sv_inv (snd (Listen bound s))" "sv_inv s \<Longrightarrow> sv_inv (snd (serve_accept acc s))"
  "sv_inv s \<Longrightarrow> sv_inv (s\<lparr>sv_closed := True, sv_accepting := False\<rparr>)"
  by (auto simp: Listen_def serve_accept_def sv_inv_def split: sum.split accept_outcome.split)

lemma sv_inv_step: "sv_step s t \<Longrightarrow> sv_inv s \<Longrightarrow> sv_inv t"
proof (induction rule: sv_step.induct)
  case (st_dequeue s i c m ch)
  have ch: "chan_closed ch = chan_closed (cc_writeCh c)" "chan_cap ch = chan_cap (cc_writeCh c)"
    "chan_ok (cc_writeCh c) \<Longrightarrow> chan_ok ch"
    using recv_chan [of "cc_writeCh c"] st_dequeue(2) by simp_all
  from st_dequeue show ?case
    by (intro sv_inv_upd) (auto simp: conn_ok_def ch)
qed (simp_all add: sv_inv_fields sv_inv_admit sv_inv_register sv_inv_enqueue sv_inv_remove sv_inv_upd)

interpretation tcp: invariant_system "\<lambda>s. \<exists>a. s = NewServer a" sv_step sv_inv
  by unfold_locales (auto simp: sv_inv_new intro: sv_inv_step)

lemma sv_reachable_inv: "sv_reachable s \<Longrightarrow> sv_inv s"
  unfolding sv_reachable_def by (rule tcp.reach_inv)

lemma sv_reachable_steps: "sv_step\<^sup>*\<^sup>* s t \<Longrightarrow> sv_reachable s \<Longrightarrow> sv_reachable t"
  unfolding sv_reachable_def by (induction rule: rtranclp_induct) (auto intro: reach_step)

section \<open>The loops are made of steps\<close>

lemma enqueue_steps: "sv_step\<^sup>*\<^sup>* s (snd (sv_enqueue i m s))"
  by (rule r_into_rtranclp) (rule st_enqueue)

lemma remove_steps: "sv_step\<^sup>*\<^sup>* s (removeClient i s)"
  by (rule r_into_rtranclp) (rule st_remove)

lemma enqueue_remove_steps: "sv_enqueue i m s = (b, s') \<Longrightarrow> sv_step\<^sup>*\<^sup>* s (removeClient j s')"
  using rtranclp_trans [OF enqueue_steps [of s i m] remove_steps] by simp

lemma send_to_steps: "sv_step\<^sup>*\<^sup>* s (send_to m i s)"
  using enqueue_steps [of s i m] by (auto simp: send_to_def split: prod.split bool.split intro: enqueue_remove_steps)

lemma fold_steps: "(\<And>i s. sv_step\<^sup>*\<^sup>* s (f i s)) \<Longrightarrow> sv_step\<^sup>*\<^sup>* s (fold f is s)"
  by (induction "is" arbitrary: s) (auto intro: rtranclp_trans)

lemma broadcast_steps: "sv_step\<^sup>*\<^sup>* s (broadcast shuf clk i m s)"
proof (cases "TrimSpace (RecipientID m) = []")
  case True
  then show ?thesis by (simp add: broadcast_def fold_steps send_to_steps)
next
  case False
  have "sv_step\<^sup>*\<^sup>* s (snd (sv_enqueue i n (removeClient r s')))" if "sv_enqueue r m s = (b, s')" for r n b s'
    by (rule rtranclp_trans [OF enqueue_remove_steps [OF that] enqueue_steps])
  moreover have "sv_step\<^sup>*\<^sup>* s s'" if "sv_enqueue r m s = (b, s')" for r b s'
    using enqueue_steps [of s r m] that by simp
  ultimately show ?thesis
    using False by (auto simp: broadcast_def enqueue_steps split: option.split prod.split bool.split)
qed

lemma handle_message_steps:
  assumes "map_of (sv_conns s) i \<noteq> None"
  shows "sv_step\<^sup>*\<^sup>* s (handle_message shuf clk i m s)"
proof -
  let ?s1 = "upd_conn i (\<lambda>c. c\<lparr>cc_peerID := SenderID m, cc_displayName := Body m\<rparr>) s"
  have "sv_step s ?s1" by (rule st_identity)
  moreover have "sv_step ?s1 (registerPeer i (SenderID m) ?s1)"
    using assms by (intro st_register) simp
  ultimately have "sv_step\<^sup>*\<^sup>* s (registerPeer i (SenderID m) ?s1)" by simp
  from rtranclp_trans [OF this broadcast_steps] broadcast_steps show ?thesis
    by (simp add: handle_message_def Let_def)
qed

lemma read_loop_end_steps: "sv_step\<^sup>*\<^sup>* s (read_loop_end i s)"
  unfolding read_loop_end_def by (rule rtranclp_trans [OF remove_steps r_into_rtranclp]) (rule st_read_end)

lemma write_loop_end_steps: "sv_step\<^sup>*\<^sup>* s (write_loop_end i s)"
  unfolding write_loop_end_def by (rule rtranclp_trans [OF remove_steps r_into_rtranclp]) (rule st_write_end)

lemma read_once_steps: "sv_step\<^sup>*\<^sup>* s (snd (read_once shuf clk fin i bytes s))"
  by (auto simp: read_once_def read_loop_end_steps handle_message_steps split: option.split prod.split sum.split)

lemma write_once_steps: "sv_step\<^sup>*\<^sup>* s (snd (write_once ok pick i s))"
proof (cases "map_of (sv_conns s) i")
  case None
  then show ?thesis by (simp add: write_once_def)
next
  case (Some c)
  have "sv_step s (upd_conn i (\<lambda>c. c\<lparr>cc_writeCh := ch\<rparr>) s)" if "recv (cc_writeCh c) = (Received m, ch)" for m ch
    by (rule st_dequeue [OF Some that])
  then show ?thesis
    using Some by (auto simp: write_once_def Let_def write_loop_end_steps split: prod.split recv_outcome.split
        intro: converse_rtranclp_into_rtranclp)
qed

lemma sv_Shutdown_steps: "sv_step\<^sup>*\<^sup>* s (snd (sv_Shutdown e s))"
proof -
  have "sv_step\<^sup>*\<^sup>* t (fold (\<lambda>i. upd_conn i cc_close) is t)" for "is" t
    by (rule fold_steps) (simp add: r_into_rtranclp st_close)
  then show ?thesis
    by (auto simp: sv_Shutdown_def intro: converse_rtranclp_into_rtranclp st_stop)
qed

lemmas sv_loops_reachable = sv_reachable_steps [OF read_once_steps] sv_reachable_steps [OF write_once_steps]
  sv_reachable_steps [OF broadcast_steps] sv_reachable_steps [OF sv_Shutdown_steps]

section \<open>Delivery\<close>

text \<open>What a broadcast does to the connection of a recipient: the message is queued, or the connection is closed.\<close>

definition has_room :: "clientConn \<Rightarrow> bool" where
  "has_room c \<longleftrightarrow> \<not> cc_closed c \<and> length (chan_buf (cc_writeCh c)) < 16"

definition queue_msg :: "Message \<Rightarrow> clientConn \<Rightarrow> clientConn" where
  "queue_msg m c = c\<lparr>cc_writeCh := (cc_writeCh c)\<lparr>chan_buf := chan_buf (cc_writeCh c) @ [m]\<rparr>\<rparr>"

definition offer :: "Message \<Rightarrow> clientConn \<Rightarrow> clientConn" where
  "offer m c = (if has_room c then queue_msg m c else cc_close c)"

lemma cc_enqueue_room:
  assumes "conn_ok c"
  shows "cc_enqueue m c = (if has_room c then (Sent, queue_msg m c) else (Dropped, c))"
  using assms
  by (auto simp: cc_enqueue_def enq_check_def enq_send_def try_send_def conn_ok_def has_room_def queue_msg_def)

lemma send_to_conns:
  assumes "sv_inv s" "map_of (sv_conns s) i = Some c"
  shows "map_of (sv_conns (send_to m i s)) j = (if j = i then Some (offer m c) else map_of (sv_conns s) j)"
    and "sv_clients (send_to m i s) = (if has_room c then sv_clients s else removeAll i (sv_clients s))"
proof -
  note r = cc_enqueue_room [OF sv_inv_conn(1) [OF assms]]
  obtain b s' where e: "sv_enqueue i m s = (b, s')" by force
  have b: "b = has_room c" and s': "s' = upd_conn i (\<lambda>c. snd (cc_enqueue m c)) s"
    using sv_enqueue_eq [OF assms(1), of i m] e assms(2) by (auto simp: r)
  show "map_of (sv_conns (send_to m i s)) j = (if j = i then Some (offer m c) else map_of (sv_conns s) j)"
    and "sv_clients (send_to m i s) = (if has_room c then sv_clients s else removeAll i (sv_clients s))"
    using assms(2) by (simp_all add: send_to_def e b s' offer_def r split: bool.split)
qed

lemma sv_inv_send_to: "sv_inv s \<Longrightarrow> sv_inv (send_to m i s)"
  using sv_inv_enqueue [of s i m] by (auto simp: send_to_def split: prod.split bool.split intro: sv_inv_remove)

lemma fold_send_to:
  assumes "sv_inv s" "distinct is" "\<forall>i \<in> set is. map_of (sv_conns s) i \<noteq> None"
  shows "map_of (sv_conns (fold (send_to m) is s)) j =
      (if j \<in> set is then map_option (offer m) (map_of (sv_conns s) j) else map_of (sv_conns s) j)
    \<and> (j \<in> set (sv_clients (fold (send_to m) is s)) \<longleftrightarrow>
        j \<in> set (sv_clients s) \<and> (j \<in> set is \<longrightarrow> (\<exists>c. map_of (sv_conns s) j = Some c \<and> has_room c)))"
  using assms
proof (induction "is" arbitrary: s)
  case (Cons i "is")
  then obtain c where c: "map_of (sv_conns s) i = Some c" by auto
  note st = send_to_conns [OF Cons.prems(1) c, of m]
  have p: "sv_inv (send_to m i s)" "distinct is" "\<forall>k \<in> set is. map_of (sv_conns (send_to m i s)) k \<noteq> None" "i \<notin> set is"
    using Cons.prems by (auto simp: sv_inv_send_to st)
  from Cons.IH [OF p(1-3)] c p(4) show ?case by (auto simp: st split: if_splits)
qed simp

lemma broadcast_recipients:
  fixes i :: nat
  assumes "sv_inv s" "any_order shuf"
  defines "is \<equiv> filter (\<lambda>j. j \<noteq> i) (shuf (sv_clients s))"
  shows "distinct is" "set is = set (sv_clients s) - {i}" "\<forall>j \<in> set is. map_of (sv_conns s) j \<noteq> None"
  using assms by (auto simp: sv_inv_def any_order_distinct any_order_set)

lemma broadcast_all:
  assumes "sv_inv s" "any_order shuf" "TrimSpace (RecipientID m) = []"
  shows "map_of (sv_conns (broadcast shuf clk i m s)) j =
      (if j \<in> set (sv_clients s) \<and> j \<noteq> i then map_option (offer m) (map_of (sv_conns s) j) else map_of (sv_conns s) j)
    \<and> (j \<in> set (sv_clients (broadcast shuf clk i m s)) \<longleftrightarrow>
        j \<in> set (sv_clients s) \<and> (j \<noteq> i \<longrightarrow> (\<exists>c. map_of (sv_conns s) j = Some c \<and> has_room c)))"
proof -
  note r = broadcast_recipients [OF assms(1,2), of i]
  from fold_send_to [OF assms(1) r(1) r(3), of m j] show ?thesis
    unfolding broadcast_def r(2) using assms(3) by auto
qed


text \<open>Direct delivery: a message with a registered recipient is queued on that one connection if it has room, and
  then no other connection changes; if it has not, the recipient is disconnected. In every other case the sender is
  told, by a system message addressed to it, if its own queue has room.\<close>

theorem direct_delivers:
  assumes "sv_reachable s" "TrimSpace (RecipientID m) \<noteq> []" "map_of (sv_conns s) i = Some c" "i \<noteq> r"
    and "map_of (sv_peers s) (RecipientID m) = Some r" "map_of (sv_conns s) r = Some rcv"
  shows "map_of (sv_conns (broadcast shuf clk i m s)) j =
      (if j = r then Some (if has_room rcv then queue_msg m rcv else cc_close rcv)
       else if j = i \<and> \<not> has_room rcv \<and> has_room c
         then Some (queue_msg (system_message clk (SenderID m) (''delivery failed: peer '' @ RecipientID m @ '' disconnected'')) c)
       else map_of (sv_conns s) j)"
proof -
  note inv = sv_reachable_inv [OF assms(1)]
  note room = cc_enqueue_room [OF sv_inv_conn(1) [OF inv assms(6)]] cc_enqueue_room [OF sv_inv_conn(1) [OF inv assms(3)]]
  obtain b s' where e: "sv_enqueue r m s = (b, s')" by force
  have b: "b = has_room rcv" and s': "s' = upd_conn r (\<lambda>c. snd (cc_enqueue m c)) s"
    using sv_enqueue_eq [OF inv, of r m] e assms(6) by (auto simp: room)
  show ?thesis
  proof (cases "has_room rcv")
    case True
    then show ?thesis using assms(2,5,6) by (simp add: broadcast_def e b s' room)
  next
    case False
    have inv': "sv_inv (removeClient r s')" using sv_inv_enqueue [OF inv, of r m] e by (simp add: sv_inv_remove)
    show ?thesis
      using False assms(2-6) by (simp add: broadcast_def e b s' sv_enqueue_eq(1) [OF inv' [unfolded s']] room)
  qed
qed


section \<open>Races and takeovers\<close>

text \<open>C40: The two halves of \<open>enqueue\<close> do not belong together: when a connection is removed (its read loop ended) between
  another client's test of \<open>closedN\<close>, which passes, and its send, the send is on a closed channel and panics.\<close>

theorem enqueue_close_race:
  assumes "sv_reachable s" "map_of (sv_conns s) i = Some c" "\<not> cc_closed c"
  shows "enq_check c \<and> (\<exists>d. map_of (sv_conns (removeClient i s)) i = Some d \<and> fst (enq_send m d) = SendPanic
    \<and> fst (cc_enqueue m d) = Dropped)"
  using assms(2,3) sv_inv_conn(1) [OF sv_reachable_inv [OF assms(1)] assms(2)]
  by (simp add: conn_ok_def enq_check_def enq_send_def cc_enqueue_def try_send_def cc_close_def)

lemma peers_keep:
  "map_of (sv_peers s) p = Some i \<Longrightarrow> j \<noteq> i \<Longrightarrow> map_of (sv_peers (removeClient j s)) p = Some i"
  by (auto simp: removeClient_def Let_def map_of_del split: option.split)

lemma peers_enqueue [simp]: "sv_peers (snd (sv_enqueue j m s)) = sv_peers s"
  by (simp add: sv_enqueue_def split: option.split prod.split send_outcome.split)

lemma peers_send_to:
  assumes "map_of (sv_peers s) p = Some i" "j \<noteq> i"
  shows "map_of (sv_peers (send_to m j s)) p = Some i"
proof -
  obtain b s' where e: "sv_enqueue j m s = (b, s')" by force
  then have "map_of (sv_peers s') p = Some i" using peers_enqueue [of j m s] assms(1) by simp
  then show ?thesis using assms(2) by (simp add: send_to_def e peers_keep split: bool.split)
qed

lemma peers_fold:
  "map_of (sv_peers s) p = Some i \<Longrightarrow> i \<notin> set is \<Longrightarrow> map_of (sv_peers (fold (send_to m) is s)) p = Some i"
  by (induction "is" arbitrary: s) (auto simp: peers_send_to)

text \<open>A join is believed: after any connection has joined under an id, direct messages to that id go to it, whoever was
  registered with the id before.\<close>

lemma join_takes_over:
  assumes "Validate m = None" "Type m = TypeJoin" "TrimSpace (RecipientID m) = []"
  shows "map_of (sv_peers (handle_message shuf clk i m s)) (SenderID m) = Some i"
  using assms by (auto simp: handle_message_def Let_def broadcast_def registerPeer_def map_of_put intro!: peers_fold)

text \<open>A connection that has joined under two ids leaves the first one behind when it goes: the entry refers to a closed
  connection for good.\<close>

lemma rejoin_leaves_entry:
  assumes "map_of (sv_conns s) i = Some c" "map_of (sv_peers s) p = Some i" "cc_peerID c \<noteq> p"
  shows "map_of (sv_peers (removeClient i s)) p = Some i
    \<and> (\<exists>d. map_of (sv_conns (removeClient i s)) i = Some d \<and> cc_closed d)"
  using assms by (auto simp: removeClient_def Let_def map_of_del)

section \<open>Witnesses\<close>

text \<open>Three clients, the second of which has joined as \<open>bob\<close>.\<close>

definition demo_server :: Server where
  "demo_server =
     registerPeer 1 ''bob'' (upd_conn 1 (\<lambda>c. c\<lparr>cc_peerID := ''bob'', cc_displayName := ''Bob''\<rparr>)
       (serve_admit (snd (serve_accept Accepted (serve_admit (snd (serve_accept Accepted
         (serve_admit (snd (serve_accept Accepted (snd (Listen (Inr ''[::]:7777'') (NewServer '':7777'')))))))))))))"

lemma accept_admit_reachable:
  assumes "sv_reachable s" "sv_accepting s" "sv_listener s \<noteq> None"
  shows "sv_reachable (serve_admit (snd (serve_accept Accepted s)))"
proof -
  have "sv_step s (snd (serve_accept Accepted s))"
    using assms(2) by (intro st_accept) simp
  moreover have "sv_step (snd (serve_accept Accepted s)) (serve_admit (snd (serve_accept Accepted s)))"
    using assms(3) by (intro st_admit) (auto simp: serve_accept_def)
  ultimately have "sv_step\<^sup>*\<^sup>* s (serve_admit (snd (serve_accept Accepted s)))" by simp
  from sv_reachable_steps [OF this assms(1)] show ?thesis .
qed

lemma admit_accepting [simp]:
  "sv_accepting (serve_admit (snd (serve_accept Accepted s))) = sv_accepting s"
  "sv_listener (serve_admit (snd (serve_accept Accepted s))) = sv_listener s"
  by (simp_all add: serve_admit_def serve_accept_def addClient_def Let_def)

lemma demo_server_eq:
  "demo_server = \<lparr>sv_address = '':7777'', sv_listener = Some ''[::]:7777'', sv_clients = [2, 1, 0], sv_peers = [(''bob'', 1)],
     sv_conns = [(0, newClientConn), (1, newClientConn\<lparr>cc_peerID := ''bob'', cc_displayName := ''Bob''\<rparr>), (2, newClientConn)],
     sv_next = 3, sv_accepting = True, sv_pending = False, sv_closed = False, sv_panicked = False\<rparr>"
  by (simp add: demo_server_def serve_admit_def serve_accept_def addClient_def NewServer_def Listen_def upd_conn_def
      registerPeer_def maxConnections_def)

lemma demo_server_reachable: "sv_reachable demo_server"
proof -
  let ?s0 = "snd (Listen (Inr ''[::]:7777'') (NewServer '':7777''))"
  have "sv_step (NewServer '':7777'') ?s0" by (rule st_listen)
  moreover have "sv_reachable (NewServer '':7777'')"
    unfolding sv_reachable_def by (rule reach_init) blast
  ultimately have r0: "sv_reachable ?s0" using sv_reachable_steps by blast
  have a: "sv_accepting ?s0" "sv_listener ?s0 \<noteq> None" by (simp_all add: Listen_def)
  let ?s1 = "serve_admit (snd (serve_accept Accepted ?s0))"
  let ?s2 = "serve_admit (snd (serve_accept Accepted ?s1))"
  let ?s3 = "serve_admit (snd (serve_accept Accepted ?s2))"
  have r3: "sv_reachable ?s3" by (intro accept_admit_reachable r0) (simp_all only: a admit_accepting not_False_eq_True)
  let ?s4 = "upd_conn 1 (\<lambda>c. c\<lparr>cc_peerID := ''bob'', cc_displayName := ''Bob''\<rparr>) ?s3"
  have "sv_step ?s3 ?s4" by (rule st_identity)
  moreover have "map_of (sv_conns ?s4) 1 \<noteq> None"
    by (simp add: serve_admit_def serve_accept_def addClient_def NewServer_def Listen_def maxConnections_def map_of_put)
  then have "sv_step ?s4 (registerPeer 1 ''bob'' ?s4)" by (rule st_register)
  ultimately have "sv_step\<^sup>*\<^sup>* ?s3 demo_server" unfolding demo_server_def by simp
  from sv_reachable_steps [OF this r3] show ?thesis .
qed

definition demo_text :: "string \<Rightarrow> Message" where
  "demo_text r = \<lparr>Version = ProtocolVersion, ID = ''1'', Type = TypeChat, SenderID = ''ann'', RecipientID = r, GroupID = [],
     Timestamp = 0, Body = ''hi''\<rparr>"

lemma demo_conns [simp]:
  "map_of (sv_conns demo_server) 0 = Some newClientConn"
  "map_of (sv_conns demo_server) (Suc 0) = Some (newClientConn\<lparr>cc_peerID := ''bob'', cc_displayName := ''Bob''\<rparr>)"
  "map_of (sv_conns demo_server) 2 = Some newClientConn"
  by (simp_all add: demo_server_eq)

lemma new_room [simp]: "has_room newClientConn" "\<not> cc_closed newClientConn"
  by (simp_all add: has_room_def newClientConn_def make_chan_def)


theorem direct_delivers_witness:
  "map_of (sv_conns (broadcast rev (\<lambda>_. 0) 0 (demo_text ''bob'') demo_server)) 2 = Some newClientConn"
proof -
  have "TrimSpace ''bob'' \<noteq> []" by code_simp
  then show ?thesis
    using direct_delivers [OF demo_server_reachable, of "demo_text ''bob''" 0 newClientConn 1 _ rev "\<lambda>_. 0" 2]
    by (simp add: demo_text_def demo_server_eq)
qed


theorem enqueue_close_race_witness:
  "\<exists>d. map_of (sv_conns (removeClient 0 demo_server)) 0 = Some d \<and> fst (enq_send (demo_text []) d) = SendPanic"
  using enqueue_close_race [OF demo_server_reachable demo_conns(1) new_room(2), of "demo_text []"] by blast

end
