(* ===== verification/Tcp_Client.thy ===== *)
theory Tcp_Client
  imports Tcp_Laws Store_Laws
begin

text \<open>
  The terminal client of the TCP mode: \<open>StartClient\<close> of \<^verbatim>\<open>internal/network/client.go\<close>. Its receiving goroutine
  and its input loop share the database and the table of peers; one received message and one input line are one
  operation each. What the client prints is the list \<open>tc_shown\<close>; \<open>wr\<close> is the connection as a writer.
\<close>

section \<open>State\<close>

datatype shown = Line string | Warning string store_error

record TcpClient =
  tc_db :: Db
  tc_peers :: "(string \<times> string) list"
  tc_conn :: "nat \<times> string"
  tc_shown :: "shown list"

definition say :: "shown list \<Rightarrow> TcpClient \<Rightarrow> TcpClient" where
  "say ls c = c\<lparr>tc_shown := tc_shown c @ ls\<rparr>"

text \<open>A store call whose error is only printed; \<open>dup\<close> tells whether \<open>ErrDuplicateMessage\<close> is passed over.\<close>

definition try_store :: "bool \<Rightarrow> string \<Rightarrow> (Db \<Rightarrow> store_error option \<times> Db) \<Rightarrow> TcpClient \<Rightarrow> TcpClient" where
  "try_store dup what f c =
     (case f (tc_db c) of
        (None, d) \<Rightarrow> c\<lparr>tc_db := d\<rparr>
      | (Some e, d) \<Rightarrow> (if dup \<and> e = ErrDuplicateMessage then c\<lparr>tc_db := d\<rparr> else say [Warning what e] (c\<lparr>tc_db := d\<rparr>)))"

section \<open>Sending\<close>

definition persistOutbound :: "writer \<Rightarrow> faults tape \<Rightarrow> time tape \<Rightarrow> Message \<Rightarrow> TcpClient \<Rightarrow> (write_result \<times> TcpClient) option" where
  "persistOutbound wr drv clk payload c =
     (let c1 = try_store True ''failed to persist outgoing message''
                 (InsertMessage (drv 0) (\<lambda>_. clk 0) payload DirectionOutbound StatusPending) c
      in Option.bind (WriteMessage wr payload (tc_conn c1)) (\<lambda>(r, conn).
           let c2 = c1\<lparr>tc_conn := conn\<rparr>
           in Some (r, if r = Wrote
                then try_store False ''failed to mark outgoing message as sent''
                       (UpdateMessageStatus (drv 1) (\<lambda>_. clk 1) (ID payload) StatusSent) c2
                else try_store False ''failed to mark outgoing message as failed''
                       (UpdateMessageStatus (drv 1) (\<lambda>_. clk 1) (ID payload) StatusFailed) c2)))"

definition join_message :: "time \<Rightarrow> Identity \<Rightarrow> Message" where
  "join_message now loc =
     \<lparr>Version = ProtocolVersion, ID = FormatInt (UnixNano now), Type = TypeJoin, SenderID = i_PeerID loc, RecipientID = [],
      GroupID = [], Timestamp = now, Body = i_DisplayName loc\<rparr>"

definition chat_message :: "time \<Rightarrow> string \<Rightarrow> string \<Rightarrow> string \<Rightarrow> Message" where
  "chat_message now sender recipient body =
     \<lparr>Version = ProtocolVersion, ID = FormatInt (UnixNano now), Type = TypeChat, SenderID = sender, RecipientID = recipient,
      GroupID = [], Timestamp = now, Body = body\<rparr>"

section \<open>Receiving\<close>

text \<open>The four cases of the receiving goroutine; \<open>drv 0\<close> and \<open>drv 1\<close> are the faults of the first and second call.\<close>

definition handle_incoming :: "faults tape \<Rightarrow> time tape \<Rightarrow> Message \<Rightarrow> TcpClient \<Rightarrow> TcpClient" where
  "handle_incoming drv clk m c =
     (if Type m = TypeJoin then
        say [Line (''Peer joined: '' @ Body m @ '' ('' @ SenderID m @ '')'')]
          (try_store True ''failed to persist join message'' (InsertMessage (drv 1) (\<lambda>_. clk 1) m DirectionInbound StatusReceived)
            (try_store False ''failed to persist peer join'' (UpsertPeer (drv 0) (\<lambda>_. clk 0) (SenderID m) (Body m) (Timestamp m))
              (c\<lparr>tc_peers := AList.update (SenderID m) (Body m) (tc_peers c)\<rparr>)))
      else if Type m = TypeLeave then
        say [Line (''Peer left: '' @ SenderID m @ '' ('' @ Body m @ '')'')]
          (try_store True ''failed to persist leave message'' (InsertMessage (drv 1) (\<lambda>_. clk 1) m DirectionInbound StatusReceived)
            (try_store False ''failed to persist peer leave'' (UpsertPeer (drv 0) (\<lambda>_. clk 0) (SenderID m) (SenderID m) (Timestamp m))
              (c\<lparr>tc_peers := AList.delete (SenderID m) (tc_peers c)\<rparr>)))
      else if Type m = TypeSystem then
        say [Line (''System: '' @ Body m)]
          (try_store True ''failed to persist system message''
             (InsertMessage (drv 0) (\<lambda>_. clk 0) m DirectionInbound
                (if Contains (ToLower (Body m)) ''delivery failed'' then StatusFailed else StatusReceived)) c)
      else
        let name = (case map_of (tc_peers c) (SenderID m) of None \<Rightarrow> [] | Some n \<Rightarrow> n);
            name' = (if name = [] then SenderID m else name)
        in say [Line (name' @ '': '' @ Body m)]
             (try_store True ''failed to persist inbound message'' (InsertMessage (drv 1) (\<lambda>_. clk 1) m DirectionInbound StatusReceived)
               (try_store False ''failed to persist peer metadata'' (UpsertPeer (drv 0) (\<lambda>_. clk 0) (SenderID m) name' (Timestamp m)) c)))"

lemma ReadMessage_shorter: "ReadMessage fin s = (Inr m, rest) \<Longrightarrow> length rest < length s"
  by (auto simp: ReadMessage_def ReadFull_def frameHeaderSize_def Let_def split: if_splits sum.splits prod.splits)

text \<open>The goroutine over the bytes that arrive: it takes messages until the first error, which it prints unless
  it is the end of the stream; the error is the result. The \<open>k\<close>-th message has its own \<open>drv k\<close> and \<open>clk k\<close>.\<close>

function receive_loop :: "(nat \<Rightarrow> faults tape) \<Rightarrow> (nat \<Rightarrow> time tape) \<Rightarrow> io_error \<Rightarrow> nat \<Rightarrow> string \<Rightarrow> TcpClient \<Rightarrow> frame_error \<times> TcpClient" where
  "receive_loop drv clk fin k bytes c =
     (case ReadMessage fin bytes of
        (Inl e, rest) \<Rightarrow> (e, c)
      | (Inr m, rest) \<Rightarrow> receive_loop drv clk fin (Suc k) rest (handle_incoming (drv k) (clk k) m c))"
  by pat_completeness auto
termination
  by (relation "measure (\<lambda>(drv, clk, fin, k, bytes, c). length bytes)") (auto dest: ReadMessage_shorter [OF sym])

declare receive_loop.simps [simp del]

section \<open>Input lines\<close>

text \<open>\<open>strings.Fields\<close>: the maximal runs without white space. \<open>cur\<close> is the word being read.\<close>

function Fields_from :: "string \<Rightarrow> string \<Rightarrow> string list" where
  "Fields_from cur s =
     (case s of
        [] \<Rightarrow> (if cur = [] then [] else [cur])
      | b # t \<Rightarrow>
          (case find (\<lambda>w. w \<noteq> [] \<and> has_prefix s w) space_runes of
             None \<Rightarrow> Fields_from (cur @ [b]) t
           | Some w \<Rightarrow> (if cur = [] then [] else [cur]) @ Fields_from [] (drop (length w) s)))"
  by pat_completeness auto
termination
  by (relation "measure (\<lambda>(cur, s). length s)") (auto simp: find_Some_iff)

declare Fields_from.simps [simp del]

definition Fields :: "string \<Rightarrow> string list" where
  "Fields s = Fields_from [] s"

datatype line_next = NextLine | ClientReturns write_result

text \<open>What a line asks for, before anything is sent.\<close>

datatype command = NoInput | ShowPeers | BadUsage | EmptyBody | SendTo string string | UnknownCommand | SendAll string

definition parse_line :: "string \<Rightarrow> command" where
  "parse_line raw =
     (let line = TrimSpace raw in
      if line = [] then NoInput
      else if has_prefix line ''/'' then
        let parts = Fields line in
        if hd parts = ''/peers'' then ShowPeers
        else if hd parts = ''/msg'' then
          if length parts < 3 then BadUsage
          else let peer = parts ! 1; body = TrimSpace (drop (length (hd parts) + 1 + length peer) line)
               in if body = [] then EmptyBody else SendTo peer body
        else UnknownCommand
      else SendAll line)"

text \<open>A write error ends the client. \<open>clk 0\<close> is \<open>now\<close>; \<open>shuf\<close> is the order of the map of peers.\<close>

definition after_write :: "(write_result \<times> TcpClient) option \<Rightarrow> (line_next \<times> TcpClient) option" where
  "after_write r = map_option (\<lambda>(w, c). (if w = Wrote then NextLine else ClientReturns w, c)) r"

definition handle_line :: "((string \<times> string) list \<Rightarrow> (string \<times> string) list) \<Rightarrow> writer \<Rightarrow> faults tape \<Rightarrow> time tape \<Rightarrow> string \<Rightarrow>
    string \<Rightarrow> TcpClient \<Rightarrow> (line_next \<times> TcpClient) option" where
  "handle_line shuf wr drv clk senderID raw c =
     (case parse_line raw of
        NoInput \<Rightarrow> Some (NextLine, c)
      | ShowPeers \<Rightarrow>
          Some (NextLine, say (if tc_peers c = [] then [Line ''No peers connected'']
                               else map (\<lambda>(i, name). Line (name @ '' ('' @ i @ '')'')) (shuf (tc_peers c))) c)
      | BadUsage \<Rightarrow> Some (NextLine, say [Line ''Usage: /msg <peer-id> <message>''] c)
      | EmptyBody \<Rightarrow> Some (NextLine, say [Line ''empty message''] c)
      | SendTo peer body \<Rightarrow>
          after_write (persistOutbound wr (\<lambda>k. drv (Suc k)) (\<lambda>k. clk (Suc (Suc k))) (chat_message (clk 0) senderID peer body)
            (try_store False ''failed to persist target peer'' (UpsertPeer (drv 0) (\<lambda>_. clk 1) peer peer (clk 0)) c))
      | UnknownCommand \<Rightarrow> Some (NextLine, say [Line ''unknown command''] c)
      | SendAll line \<Rightarrow>
          after_write (persistOutbound wr drv (\<lambda>k. clk (Suc k)) (chat_message (clk 0) senderID [] line) c))"

text \<open>The beginning of \<open>StartClient\<close> up to the input loop: identity row, dial, join message.\<close>

datatype start_error = StartStore store_error | StartDial string | StartJoin write_result

definition client_start :: "writer \<Rightarrow> faults tape \<Rightarrow> time tape \<Rightarrow> store_error option \<Rightarrow> string option \<Rightarrow> Identity \<Rightarrow> string \<Rightarrow> Db \<Rightarrow>
    (start_error + TcpClient) option" where
  "client_start wr drv clk opened dial loc address d =
     (case opened of
        Some e \<Rightarrow> Some (Inl (StartStore e))
      | None \<Rightarrow>
          (case UpsertIdentityMetadata (drv 0) (\<lambda>_. clk 0) loc d of
             (Some e, d') \<Rightarrow> Some (Inl (StartStore e))
           | (None, d') \<Rightarrow>
               (case dial of
                  Some e \<Rightarrow> Some (Inl (StartDial e))
                | None \<Rightarrow>
                    map_option (\<lambda>(r, c). if r = Wrote then Inr c else Inl (StartJoin r))
                      (persistOutbound wr (\<lambda>k. drv (Suc k)) (\<lambda>k. clk (Suc (Suc k))) (join_message (clk 1) loc)
                        \<lparr>tc_db = d', tc_peers = [], tc_conn = (0, []), tc_shown = [Line (''Connected to '' @ address)]\<rparr>))))"

section \<open>Words of a line\<close>

lemma visible_starts_clean: "visible b \<Longrightarrow> starts_clean space_runes (b # s)"
  using visible_not_space space_rune_nonempty by (fastforce simp: starts_clean_def has_prefix_iff prefix_def Cons_eq_append_conv)

lemma visible_ends_clean: "visible b \<Longrightarrow> starts_clean (map rev space_runes) (b # s)"
proof -
  assume b: "visible b"
  have "\<not> prefix (rev w) (b # s)" if "w \<in> set space_runes" for w
    using visible_not_space [OF b that] space_rune_nonempty [OF that] by (cases w rule: rev_cases) auto
  then show ?thesis by (auto simp: starts_clean_def has_prefix_iff)
qed

lemma visible_edges_trimmed:
  assumes "s \<noteq> []" "visible (hd s)" "visible (last s)"
  shows "TrimSpace s = s"
proof -
  have "starts_clean space_runes s" using visible_starts_clean [OF assms(2), of "tl s"] assms(1) by simp
  moreover have "starts_clean (map rev space_runes) (rev s)"
    using visible_ends_clean [OF assms(3), of "tl (rev s)"] assms(1) by (simp add: hd_rev [symmetric])
  ultimately show ?thesis by (simp add: TrimSpace_def TrimLeft_def TrimRight_def strip_clean)
qed

lemma find_blank: "find (\<lambda>w. w \<noteq> [] \<and> has_prefix (CHR 0x20 # s) w) space_runes = Some [CHR 0x20]"
  by (simp add: space_runes_def has_prefix_def)

lemma TrimSpace_blanks [simp]: "TrimSpace (replicate n (CHR 0x20) @ s) = TrimSpace s"
proof (induction n)
  case (Suc n)
  have "strip space_runes (CHR 0x20 # t) = strip space_runes t" for t
    by (subst strip.simps) (simp add: find_blank)
  with Suc show ?case by (simp add: TrimSpace_def TrimLeft_def)
qed simp

lemma Fields_word: "list_all visible w \<Longrightarrow> Fields_from cur (w @ s) = Fields_from (cur @ w) s"
proof (induction w arbitrary: cur)
  case (Cons b w)
  then have "find (\<lambda>x. x \<noteq> [] \<and> has_prefix (b # w @ s) x) space_runes = None"
    by (simp add: find_prefix_None visible_starts_clean)
  then have "Fields_from cur (b # w @ s) = Fields_from (cur @ [b]) (w @ s)"
    by (simp add: Fields_from.simps [of cur "b # w @ s"])
  with Cons show ?case by simp
qed simp

lemma Fields_blank: "Fields_from cur (CHR 0x20 # s) = (if cur = [] then [] else [cur]) @ Fields_from [] s"
  by (simp add: Fields_from.simps [of cur "CHR 0x20 # s"] find_blank)

lemma Fields_blanks: "Fields_from [] (replicate n (CHR 0x20) @ s) = Fields_from [] s"
  by (induction n) (simp_all add: Fields_blank)

lemma Fields_last: "list_all visible w \<Longrightarrow> w \<noteq> [] \<Longrightarrow> Fields_from [] w = [w]"
  using Fields_word [of w "[]" "[]"] by (simp add: Fields_from.simps [of w "[]"])

lemma Fields_msg:
  assumes "list_all visible p" "p \<noteq> []" "list_all visible b" "b \<noteq> []"
  shows "Fields (''/msg'' @ CHR 0x20 # replicate n (CHR 0x20) @ p @ CHR 0x20 # b) = [''/msg'', p, b]"
proof -
  have "list_all visible ''/msg''" by code_simp
  from Fields_word [OF this, of "[]"] show ?thesis
    using assms unfolding Fields_def by (simp add: Fields_blank Fields_blanks Fields_word Fields_last del: append_Cons)
qed

text \<open>The body of \<open>/msg\<close> is cut at a fixed distance from the start of the line: with one blank before the peer id
  the body is what was typed, and with \<open>n\<close> more blanks the last \<open>n\<close> bytes of the peer id (all of it, at most) are sent
  to the peer in front of the body.\<close>

theorem msg_command_body:
  assumes "list_all visible p" "p \<noteq> []" "list_all visible b" "b \<noteq> []"
  shows "parse_line (''/msg'' @ CHR 0x20 # replicate n (CHR 0x20) @ p @ CHR 0x20 # b) =
    SendTo p (if n = 0 then b else drop (length p - n) p @ CHR 0x20 # b)"
proof -
  let ?line = "''/msg'' @ CHR 0x20 # replicate n (CHR 0x20) @ p @ CHR 0x20 # b"
  let ?q = "drop (length p - n) p"
  have vis: "visible (last b)" "TrimSpace b = b"
    using assms(3,4) visible_trimmed [OF assms(3)] by (auto simp: list_all_iff)
  have line: "TrimSpace ?line = ?line"
    by (rule visible_edges_trimmed) (use assms(4) vis(1) in \<open>simp_all add: visible_def\<close>)
  have "drop (length p) (replicate n (CHR 0x20) @ p @ CHR 0x20 # b) = replicate (n - length p) (CHR 0x20) @ ?q @ CHR 0x20 # b"
    by (simp add: drop_replicate)
  then have cut: "TrimSpace (drop (length ''/msg'' + 1 + length p) ?line) = TrimSpace (?q @ CHR 0x20 # b)" by simp
  have "TrimSpace (?q @ CHR 0x20 # b) = (if n = 0 then b else ?q @ CHR 0x20 # b)"
  proof (cases "n = 0")
    case True
    then show ?thesis using TrimSpace_blanks [of 1 b] vis(2) by simp
  next
    case False
    then have "length p - n < length p" using assms(2) by simp
    then have "?q \<noteq> []" by (simp add: not_le)
    moreover have "list_all visible ?q" using assms(1) by (auto simp: list_all_iff dest: in_set_dropD)
    ultimately have "visible (hd ?q)" by (simp add: list_all_iff)
    with \<open>?q \<noteq> []\<close> False vis(1) assms(4) show ?thesis by (simp add: visible_edges_trimmed)
  qed
  moreover have "(if n = 0 then b else ?q @ CHR 0x20 # b) \<noteq> []" using assms(4) by simp
  ultimately show ?thesis
    unfolding parse_line_def Let_def line Fields_msg [OF assms] using cut
    by (simp add: has_prefix_def del: drop_append)
qed

theorem msg_command_body_witness:
  "parse_line ''/msg bob hi'' = SendTo ''bob'' ''hi'' \<and> parse_line ''/msg  bob hi'' = SendTo ''bob'' ''b hi''"
proof -
  have v: "list_all visible ''bob''" "list_all visible ''hi''" by code_simp+
  show ?thesis
    using msg_command_body [OF v(1) _ v(2), of 0] msg_command_body [OF v(1) _ v(2), of 1] by simp
qed

section \<open>From a line to the other clients\<close>

text \<open>A line for everybody, or for one peer, makes a message that can be sent.\<close>

lemma chat_message_sendable:
  assumes "list_all visible sender" "sender \<noteq> []" "length sender \<le> 512" "valid_utf8 r" "length r \<le> 512"
    and "valid_utf8 body" "TrimSpace body \<noteq> []" "length body \<le> 65536" "printable_time now" "now \<noteq> 0"
  shows "sendable (chat_message now sender r body)"
proof -
  have "TrimSpace sender \<noteq> []" using visible_trimmed [OF assms(1)] assms(2) by auto
  moreover have "length (FormatInt (UnixNano now)) \<le> 256" using FormatInt_length [OF UnixNano_int64, of now] by simp
  ultimately have "well_formed (chat_message now sender r body)"
    using assms by (simp add: well_formed_def chat_message_def ProtocolVersion_def TypeChat_def)
  then show ?thesis
    using assms visible_utf8 [OF FormatInt_visible [of "UnixNano now"]] visible_utf8 [OF assms(1)]
    by (simp add: sendable_def Validate_iff utf8_message_def chat_message_def)
qed

lemma try_store_sel [simp]: "tc_conn (try_store dup what f c) = tc_conn c" "tc_peers (try_store dup what f c) = tc_peers c"
  by (simp_all add: try_store_def say_def split: prod.split option.split)

lemma persistOutbound_writes:
  assumes "progressive wr" "faultless wr" "sendable m"
  shows "\<exists>c'. persistOutbound wr drv clk m c = Some (Wrote, c') \<and> snd (tc_conn c') = snd (tc_conn c) @ message_frame m"
proof -
  obtain k where "WriteMessage wr m (tc_conn c) = Some (Wrote, k, snd (tc_conn c) @ message_frame m)"
    using WriteMessage_sendable [OF assms] by blast
  then show ?thesis by (simp add: persistOutbound_def Let_def)
qed

text \<open>A relayed message arrives: the receiving loop takes the frame and handles the message.\<close>

lemma receive_loop_frame:
  "sendable m \<Longrightarrow> receive_loop drv clk EOF k (message_frame m) c = (FrameIO EOF, handle_incoming (drv k) (clk k) m c)"
  using ReadMessage_message_frame [of m EOF "[]"]
  by (simp add: receive_loop.simps [of drv clk EOF k "message_frame m"] receive_loop.simps [of drv clk EOF "Suc k" "[]"]
      ReadMessage_def ReadFull_def frameHeaderSize_def)

lemma parse_SendAll:
  assumes "parse_line raw = SendAll line"
  shows "line = TrimSpace raw" "TrimSpace line \<noteq> []"
proof -
  show line: "line = TrimSpace raw" using assms by (simp add: parse_line_def Let_def split: if_splits)
  then show "TrimSpace line \<noteq> []" using assms by (simp add: parse_line_def Let_def split: if_splits)
qed

text \<open>C2: From keyboard to keyboard: a line that is not a command is written to the connection as one frame; the server reads
  that frame from its end, and queues the message for each other client whose queue has room; and the client that
  gets the frame handles the message.\<close>

theorem line_reaches_clients:
  assumes "progressive wr" "faultless wr" "parse_line raw = SendAll line" "valid_utf8 line" "length line \<le> 65536"
    and "list_all visible sender" "sender \<noteq> []" "length sender \<le> 512" "printable_time (clk 0)" "clk 0 \<noteq> 0"
    and "sv_reachable s" "any_order shuf" "map_of (sv_conns s) i = Some ci" "cc_connOpen ci"
    and "j \<in> set (sv_clients s)" "j \<noteq> i" "map_of (sv_conns s) j = Some cj" "has_room cj"
  shows "\<exists>m c' s'. Body m = line \<and> SenderID m = sender
    \<and> handle_line ord wr drv clk sender raw c = Some (NextLine, c') \<and> snd (tc_conn c') = snd (tc_conn c) @ message_frame m
    \<and> read_once shuf clk' fin i (message_frame m @ rest) s = (Some rest, s') \<and> map_of (sv_conns s') j = Some (queue_msg m cj)
    \<and> receive_loop drv2 clk2 EOF k (message_frame m) c2 = (FrameIO EOF, handle_incoming (drv2 k) (clk2 k) m c2)"
proof -
  let ?m = "chat_message (clk 0) sender [] line"
  have m: "sendable ?m"
    using assms(4-10) parse_SendAll(2) [OF assms(3)] by (intro chat_message_sendable) simp_all
  then have valid: "Validate ?m = None" by (simp add: sendable_def)
  obtain c' where c': "persistOutbound wr drv (\<lambda>k. clk (Suc k)) ?m c = Some (Wrote, c')"
    "snd (tc_conn c') = snd (tc_conn c) @ message_frame ?m"
    using persistOutbound_writes [OF assms(1,2) m] by blast
  have line: "handle_line ord wr drv clk sender raw c = Some (NextLine, c')"
    using assms(3) c'(1) by (simp add: handle_line_def after_write_def)
  have hm: "handle_message shuf clk' i ?m s = broadcast shuf clk' i ?m s"
    using valid by (simp add: handle_message_def chat_message_def TypeChat_def TypeJoin_def)
  have read: "read_once shuf clk' fin i (message_frame ?m @ rest) s = (Some rest, broadcast shuf clk' i ?m s)"
    using assms(13,14) hm by (simp add: read_once_def ReadMessage_message_frame [OF m])
  have "TrimSpace (RecipientID ?m) = []" by (simp add: chat_message_def)
  from broadcast_all [OF sv_reachable_inv [OF assms(11)] assms(12) this, of clk' i j] assms(15-18)
  have "map_of (sv_conns (broadcast shuf clk' i ?m s)) j = Some (queue_msg ?m cj)" by (simp add: offer_def)
  moreover have "Body ?m = line" "SenderID ?m = sender" by (simp_all add: chat_message_def)
  ultimately show ?thesis using line c'(2) read receive_loop_frame [OF m] by blast
qed

definition demo_client :: TcpClient where
  "demo_client = \<lparr>tc_db = empty_db, tc_peers = [], tc_conn = (0, []), tc_shown = []\<rparr>"

definition demo_conn_writer :: writer where
  "demo_conn_writer k data = (length data, None)"

theorem line_reaches_clients_witness:
  "\<exists>m c' s'. Body m = ''hi'' \<and> SenderID m = ''ann''
    \<and> handle_line (\<lambda>xs. xs) demo_conn_writer (\<lambda>_ _. None) (\<lambda>_. 5) ''ann'' ''hi'' demo_client = Some (NextLine, c')
    \<and> snd (tc_conn c') = snd (tc_conn demo_client) @ message_frame m
    \<and> read_once rev (\<lambda>_. 5) EOF 0 (message_frame m @ []) demo_server = (Some [], s')
    \<and> map_of (sv_conns s') 2 = Some (queue_msg m newClientConn)
    \<and> receive_loop (\<lambda>_ _ _. None) (\<lambda>_ _. 5) EOF 0 (message_frame m) demo_client
       = (FrameIO EOF, handle_incoming (\<lambda>_ _. None) (\<lambda>_. 5) m demo_client)"
proof -
  have w: "progressive demo_conn_writer" "faultless demo_conn_writer"
    by (simp_all add: progressive_def faultless_def demo_conn_writer_def)
  have c: "parse_line ''hi'' = SendAll ''hi''" "valid_utf8 ''hi''" "list_all visible ''ann''" "printable_time 5"
    by code_simp+
  have n: "cc_connOpen newClientConn" by (simp add: newClientConn_def)
  have j: "2 \<in> set (sv_clients demo_server)" by (simp add: demo_server_eq)
  show ?thesis
    by (rule line_reaches_clients [OF w c(1,2) _ c(3) _ _ _ _ demo_server_reachable any_order_rev demo_conns(1) n j _ demo_conns(3) new_room(1)])
      (simp_all add: c(4))
qed

end
