(* ===== verification/Go_Files.thy ===== *)
theory Go_Files
  imports Go_Json
begin

text \<open>
  What the program uses of \<open>os\<close> and \<open>encoding/base64\<close>. A file system maps paths to contents; each
  call has an argument for its fault. A failed \<open>os.WriteFile\<close> may leave anything in the file, because it truncates the
  file before it writes. \<open>os.Getenv\<close> is a function from names to values, and \<open>os.UserConfigDir\<close> a value or an error.
\<close>

section \<open>Files\<close>

datatype fs_error = FsNotExist | FsPermission | FsOther string

type_synonym files = "(string \<times> string) list"

definition ReadFile :: "fs_error option \<Rightarrow> string \<Rightarrow> files \<Rightarrow> fs_error + string" where
  "ReadFile fault path fs =
     (case fault of
        Some e \<Rightarrow> Inl e
      | None \<Rightarrow> (case map_of fs path of None \<Rightarrow> Inl FsNotExist | Some d \<Rightarrow> Inr d))"

text \<open>The fault of a write has the contents it leaves, if it got as far as opening the file.\<close>

definition WriteFile :: "(fs_error \<times> string option) option \<Rightarrow> string \<Rightarrow> string \<Rightarrow> files \<Rightarrow> fs_error option \<times> files" where
  "WriteFile fault path data fs =
     (case fault of
        None \<Rightarrow> (None, AList.update path data fs)
      | Some (e, left) \<Rightarrow> (Some e, (case left of None \<Rightarrow> fs | Some d \<Rightarrow> AList.update path d fs)))"

text \<open>The faults of one \<open>Save\<close>: of \<open>MkdirAll\<close>, \<open>WriteFile\<close> and \<open>Chmod\<close>.\<close>

record save_faults =
  sf_mkdir :: "fs_error option"
  sf_write :: "(fs_error \<times> string option) option"
  sf_chmod :: "fs_error option"

definition no_save_faults :: save_faults where
  "no_save_faults = \<lparr>sf_mkdir = None, sf_write = None, sf_chmod = None\<rparr>"

section \<open>Base64\<close>

definition b64_alphabet :: string where
  "b64_alphabet = ''ABCDEFGHIJKLMNOPQRSTUVWXYZabcdefghijklmnopqrstuvwxyz0123456789+/''"

definition b64_char :: "int \<Rightarrow> char" where
  "b64_char n = b64_alphabet ! nat n"

definition b64_val :: "char \<Rightarrow> int option" where
  "b64_val c =
     (if byte_in 65 90 c then Some (of_char c - 65)
      else if byte_in 97 122 c then Some (of_char c - 71)
      else if byte_in 48 57 c then Some (of_char c + 4)
      else if c = CHR ''+'' then Some 62
      else if c = CHR ''/'' then Some 63 else None)"

fun b64_encode :: "string \<Rightarrow> string" where
  "b64_encode [] = []"
| "b64_encode [x] =
     (let a = of_char x in [b64_char (a div 4), b64_char (a mod 4 * 16), CHR ''='', CHR ''=''])"
| "b64_encode [x, y] =
     (let a = of_char x; b = of_char y
      in [b64_char (a div 4), b64_char (a mod 4 * 16 + b div 16), b64_char (b mod 16 * 4), CHR ''=''])"
| "b64_encode (x # y # z # s) =
     (let a = of_char x; b = of_char y; c = of_char z
      in b64_char (a div 4) # b64_char (a mod 4 * 16 + b div 16) # b64_char (b mod 16 * 4 + c div 64) # b64_char (c mod 64) # b64_encode s)"

text \<open>\<open>StdEncoding.Decode\<close>: line breaks are skipped, padding ends the text, trailing bits are not checked.\<close>

fun b64_quanta :: "string \<Rightarrow> string option" where
  "b64_quanta [] = Some []"
| "b64_quanta (w # x # y # z # s) =
     (case (b64_val w, b64_val x) of
        (Some p, Some q) \<Rightarrow>
          (if y = CHR ''='' then (if z = CHR ''='' \<and> s = [] then Some [char_of (p * 4 + q div 16)] else None)
           else case b64_val y of
             None \<Rightarrow> None
           | Some r \<Rightarrow>
               (if z = CHR ''='' then (if s = [] then Some [char_of (p * 4 + q div 16), char_of (q mod 16 * 16 + r div 4)] else None)
                else case b64_val z of
                  None \<Rightarrow> None
                | Some t \<Rightarrow> map_option (\<lambda>rest. char_of (p * 4 + q div 16) # char_of (q mod 16 * 16 + r div 4) # char_of (r mod 4 * 64 + t) # rest)
                    (b64_quanta s)))
      | _ \<Rightarrow> None)"
| "b64_quanta _ = None"

definition b64_decode :: "string \<Rightarrow> string option" where
  "b64_decode s = b64_quanta (filter (\<lambda>c. c \<noteq> CHR 0x0A \<and> c \<noteq> CHR 0x0D) s)"

lemma b64_table: "list_all (\<lambda>n. b64_val (b64_alphabet ! n) = Some (int n) \<and> visible (b64_alphabet ! n) \<and> b64_alphabet ! n \<noteq> CHR ''=''
    \<and> esc (b64_alphabet ! n) = [b64_alphabet ! n]) [0..<64]"
  by code_simp

lemma b64_char_props:
  assumes "0 \<le> n" "n < 64"
  shows "b64_val (b64_char n) = Some n" "visible (b64_char n)" "b64_char n \<noteq> CHR ''=''" "esc (b64_char n) = [b64_char n]"
proof -
  have "nat n \<in> set [0..<64]" using assms by auto
  then have "b64_val (b64_alphabet ! nat n) = Some (int (nat n)) \<and> visible (b64_alphabet ! nat n) \<and> b64_alphabet ! nat n \<noteq> CHR ''=''
      \<and> esc (b64_alphabet ! nat n) = [b64_alphabet ! nat n]"
    using b64_table unfolding list_all_iff by blast
  then show "b64_val (b64_char n) = Some n" "visible (b64_char n)" "b64_char n \<noteq> CHR ''=''" "esc (b64_char n) = [b64_char n]"
    using assms(1) by (simp_all add: b64_char_def)
qed

text \<open>The four values of three bytes are in range and give the bytes back.\<close>

lemma sextets:
  fixes a b c :: int
  assumes "0 \<le> a" "a < 256" "0 \<le> b" "b < 256" "0 \<le> c" "c < 256"
  shows "0 \<le> a div 4" "a div 4 < 64" "0 \<le> a mod 4 * 16" "a mod 4 * 16 < 64"
    "0 \<le> a mod 4 * 16 + b div 16" "a mod 4 * 16 + b div 16 < 64" "0 \<le> b mod 16 * 4" "b mod 16 * 4 < 64"
    "0 \<le> b mod 16 * 4 + c div 64" "b mod 16 * 4 + c div 64 < 64" "0 \<le> c mod 64" "c mod 64 < 64"
    "a div 4 * 4 + a mod 4 * 16 div 16 = a" "a div 4 * 4 + (a mod 4 * 16 + b div 16) div 16 = a"
    "(a mod 4 * 16 + b div 16) mod 16 * 16 + b mod 16 * 4 div 4 = b"
    "(a mod 4 * 16 + b div 16) mod 16 * 16 + (b mod 16 * 4 + c div 64) div 4 = b"
    "(b mod 16 * 4 + c div 64) mod 4 * 64 + c mod 64 = c"
proof -
  have r: "0 \<le> a div 4" "a div 4 < 64" "0 \<le> b div 16" "b div 16 < 16" "0 \<le> c div 64" "c div 64 < 4"
    using assms by (simp_all add: int_div_less_self zdiv_mono1 div_less_iff_less_mult)
  have m: "0 \<le> a mod 4" "a mod 4 < 4" "0 \<le> b mod 16" "b mod 16 < 16" "0 \<le> c mod 64" "c mod 64 < 64" by simp_all
  show "0 \<le> a div 4" "a div 4 < 64" "0 \<le> a mod 4 * 16" "a mod 4 * 16 < 64"
    "0 \<le> a mod 4 * 16 + b div 16" "a mod 4 * 16 + b div 16 < 64" "0 \<le> b mod 16 * 4" "b mod 16 * 4 < 64"
    "0 \<le> b mod 16 * 4 + c div 64" "b mod 16 * 4 + c div 64 < 64" "0 \<le> c mod 64" "c mod 64 < 64"
    using r m by linarith+
  have d: "(a mod 4 * 16 + b div 16) div 16 = a mod 4" "(a mod 4 * 16 + b div 16) mod 16 = b div 16"
    "(b mod 16 * 4 + c div 64) div 4 = b mod 16" "(b mod 16 * 4 + c div 64) mod 4 = c div 64"
    using r by (simp_all add: div_pos_pos_trivial mod_pos_pos_trivial)
  show "a div 4 * 4 + a mod 4 * 16 div 16 = a" "a div 4 * 4 + (a mod 4 * 16 + b div 16) div 16 = a"
    "(a mod 4 * 16 + b div 16) mod 16 * 16 + b mod 16 * 4 div 4 = b"
    "(a mod 4 * 16 + b div 16) mod 16 * 16 + (b mod 16 * 4 + c div 64) div 4 = b"
    "(b mod 16 * 4 + c div 64) mod 4 * 64 + c mod 64 = c"
    unfolding d by simp_all
qed

text \<open>Decoding the characters of three bytes, of two and of one.\<close>

lemma quantum:
  fixes a b c :: int
  assumes "0 \<le> a" "a < 256" "0 \<le> b" "b < 256" "0 \<le> c" "c < 256"
  shows "b64_quanta (b64_char (a div 4) # b64_char (a mod 4 * 16 + b div 16) # b64_char (b mod 16 * 4 + c div 64) # b64_char (c mod 64) # s) =
      map_option (\<lambda>rest. char_of a # char_of b # char_of c # rest) (b64_quanta s)"
    and "b64_quanta [b64_char (a div 4), b64_char (a mod 4 * 16 + b div 16), b64_char (b mod 16 * 4), CHR ''=''] = Some [char_of a, char_of b]"
    and "b64_quanta [b64_char (a div 4), b64_char (a mod 4 * 16), CHR ''='', CHR ''=''] = Some [char_of a]"
proof -
  note q = sextets [OF assms]
  note v = b64_char_props(1) [OF q(1,2)] b64_char_props(1) [OF q(3,4)] b64_char_props(1) [OF q(5,6)] b64_char_props(1) [OF q(7,8)]
    b64_char_props(1) [OF q(9,10)] b64_char_props(1) [OF q(11,12)]
  note n = b64_char_props(3) [OF q(7,8)] b64_char_props(3) [OF q(9,10)] b64_char_props(3) [OF q(11,12)]
  show "b64_quanta (b64_char (a div 4) # b64_char (a mod 4 * 16 + b div 16) # b64_char (b mod 16 * 4 + c div 64) # b64_char (c mod 64) # s) =
      map_option (\<lambda>rest. char_of a # char_of b # char_of c # rest) (b64_quanta s)"
    by (simp only: b64_quanta.simps v option.case prod.case n if_False q(13-17))
  show "b64_quanta [b64_char (a div 4), b64_char (a mod 4 * 16 + b div 16), b64_char (b mod 16 * 4), CHR ''=''] = Some [char_of a, char_of b]"
    by (simp only: b64_quanta.simps v option.case prod.case n if_False if_True q(13-17) simp_thms refl)
  show "b64_quanta [b64_char (a div 4), b64_char (a mod 4 * 16), CHR ''='', CHR ''=''] = Some [char_of a]"
    by (simp only: b64_quanta.simps v option.case prod.case if_True q(13-17) simp_thms)
qed

lemma b64_quanta_encode: "b64_quanta (b64_encode s) = Some s"
proof (induction s rule: b64_encode.induct)
  case (2 x)
  show ?case unfolding b64_encode.simps Let_def by (subst quantum(3) [of _ 0 0]) simp_all
next
  case (3 x y)
  show ?case unfolding b64_encode.simps Let_def by (subst quantum(2) [of _ _ 0]) simp_all
next
  case (4 x y z s)
  show ?case unfolding b64_encode.simps Let_def by (subst quantum(1)) (simp_all add: 4)
qed simp

lemma b64_pad: "visible (CHR ''='')" "esc (CHR ''='') = ''=''"
  by (simp_all add: visible_def esc_def byte_in_def)

lemma b64_encode_chars: "list_all (\<lambda>c. visible c \<and> esc c = [c]) (b64_encode s)"
proof (induction s rule: b64_encode.induct)
  case (2 x)
  note q = sextets(1-12) [of "of_char x" 0 0]
  show ?case unfolding b64_encode.simps Let_def list.pred_inject
    by (intro conjI b64_char_props(2,4) q b64_pad TrueI of_char_int) simp_all
next
  case (3 x y)
  note q = sextets(1-12) [of "of_char x" "of_char y" 0]
  show ?case unfolding b64_encode.simps Let_def list.pred_inject
    by (intro conjI b64_char_props(2,4) q b64_pad TrueI of_char_int) simp_all
next
  case (4 x y z s)
  note q = sextets(1-12) [of "of_char x" "of_char y" "of_char z"]
  show ?case unfolding b64_encode.simps Let_def list.pred_inject
    by (intro conjI b64_char_props(2,4) q of_char_int 4 [OF refl refl refl])
qed simp

lemma b64_visible: "list_all visible (b64_encode s)"
  using b64_encode_chars [of s] by (simp add: list_all_iff)

lemma b64_decode_encode [simp]: "b64_decode (b64_encode s) = Some s"
proof -
  have "visible c \<Longrightarrow> c \<noteq> CHR 0x0A \<and> c \<noteq> CHR 0x0D" for c by (auto simp: visible_def)
  then have "filter (\<lambda>c. c \<noteq> CHR 0x0A \<and> c \<noteq> CHR 0x0D) (b64_encode s) = b64_encode s"
    using b64_visible [of s] by (auto simp: filter_id_conv list_all_iff)
  then show ?thesis by (simp add: b64_decode_def b64_quanta_encode)
qed

text \<open>Base64 text needs no escape, so that writing it between quotes, as the encoder does, is writing it as a string.\<close>

lemma quote_body_b64: "quote_body (b64_encode s) = b64_encode s"
proof -
  have "list_all (\<lambda>c. visible c \<and> esc c = [c]) t \<Longrightarrow> quote_body t = t" for t
    by (induction t) (simp_all add: visible_def byte_in_def Let_def)
  then show ?thesis using b64_encode_chars by blast
qed

definition jbytes :: "string \<Rightarrow> json" where
  "jbytes s = JStr (b64_encode s)"

text \<open>A byte slice is read from base64 text, from \<open>null\<close>, or from an array of small numbers.\<close>

fun dec_uint8 :: "char \<Rightarrow> json \<Rightarrow> char option" where
  "dec_uint8 old JNull = Some old"
| "dec_uint8 old (JNum l) =
     (if list_all is_digit l \<and> l \<noteq> [] \<and> digits_val l < 256 then Some (char_of (digits_val l)) else None)"
| "dec_uint8 old _ = None"

fun dec_bytes :: "json \<Rightarrow> string \<Rightarrow> string option" where
  "dec_bytes (JStr r) old = b64_decode (unquote r)"
| "dec_bytes v old = dec_slice dec_uint8 (CHR 0x00) v old"

lemma dec_jbytes [simp]: "dec_bytes (jbytes s) old = Some s"
  using unquote_quote_body [OF visible_utf8 [OF b64_visible [of s]]] by (simp add: jbytes_def quote_body_b64)

lemma jok_jbytes [simp]: "jok (jbytes s)"
  using raw_ok_quote_body [of "b64_encode s"] by (simp add: jbytes_def quote_body_b64)

lemma jdepth_jbytes [simp]: "jdepth (jbytes s) = 0"
  by (simp add: jbytes_def)

end
