(* ===== verification/Config.thy ===== *)
theory Config
  imports Go_Files Peer_Addr
begin

text \<open>
  \<^verbatim>\<open>internal/config/config.go\<close>: the configuration file. \<open>env\<close> is the environment and \<open>ucd\<close> what \<open>os.UserConfigDir\<close>
  returns; multiaddresses are parsed by the library argument \<open>lib\<close>, whose error texts are \<open>ltext\<close>. \<open>Validate\<close> also
  repairs: it returns the error and the changed configuration.

  A decoded slice reuses the elements of the slice it replaces, so a \<open>null\<close> element keeps the default at its index.
\<close>

section \<open>Configuration\<close>

record NetworkConfig =
  n_ListenAddrs :: "string list"
  n_AdvertisedAddrs :: "string list"
  n_EnableMDNS :: bool
  n_BootstrapPeers :: "string list"
  n_EnableRelay :: bool
  n_EnableHolePunch :: bool
  n_EnableAutoNAT :: bool
  n_DHTMode :: string
  n_DHTNamespace :: string

record UIConfig =
  u_Theme :: string
  u_ShowTimestamps :: bool

record Config =
  c_DataDir :: string
  c_Username :: string
  c_DisplayName :: string
  c_Network :: NetworkConfig
  c_UI :: UIConfig

definition DefaultConfig :: "(string \<Rightarrow> string) \<Rightarrow> string + string \<Rightarrow> Config" where
  "DefaultConfig env ucd =
     (let dataDir = TrimSpace (env ''SKALL_DATA_DIR'');
          configDir = (case ucd of Inl _ \<Rightarrow> [] | Inr d \<Rightarrow> d);
          dir = (if dataDir \<noteq> [] then dataDir else if configDir = [] then ''.skall'' else JoinPath [configDir, ''skall''])
      in \<lparr>c_DataDir = dir, c_Username = [], c_DisplayName = [],
          c_Network = \<lparr>n_ListenAddrs = [''/ip4/0.0.0.0/tcp/0''], n_AdvertisedAddrs = [], n_EnableMDNS = True, n_BootstrapPeers = [],
            n_EnableRelay = False, n_EnableHolePunch = False, n_EnableAutoNAT = False, n_DHTMode = ''auto'',
            n_DHTNamespace = ''skall.rendezvous.v2''\<rparr>,
          c_UI = \<lparr>u_Theme = ''default'', u_ShowTimestamps = True\<rparr>\<rparr>)"

datatype cfg_error =
    CfgNoConfigDir string
  | CfgRead fs_error
  | CfgDecode
  | CfgListen string multiaddr_error
  | CfgAdvertised string multiaddr_error
  | CfgDHTMode string
  | CfgMkdir fs_error
  | CfgWrite fs_error
  | CfgChmod fs_error

definition DefaultConfigPath :: "(string \<Rightarrow> string) \<Rightarrow> string + string \<Rightarrow> cfg_error + string" where
  "DefaultConfigPath env ucd =
     (let override = TrimSpace (env ''SKALL_CONFIG_PATH'') in
      if override \<noteq> [] then Inr override
      else case ucd of Inl e \<Rightarrow> Inl (CfgNoConfigDir e) | Inr d \<Rightarrow> Inr (JoinPath [d, ''skall'', ''config.json'']))"

section \<open>Validation\<close>

fun first_bad :: "'ma p2p_lib \<Rightarrow> string list \<Rightarrow> (string \<times> multiaddr_error) option" where
  "first_bad lib [] = None"
| "first_bad lib (a # as) = (case ValidateMultiaddr lib a of Some e \<Rightarrow> Some (a, e) | None \<Rightarrow> first_bad lib as)"

definition known_modes :: "string list" where
  "known_modes = [[], ''auto'', ''client'', ''server'', ''disabled'']"

definition cfg_data_dir :: "(string \<Rightarrow> string) \<Rightarrow> string \<Rightarrow> string" where
  "cfg_data_dir env dir =
     (let override = TrimSpace (env ''SKALL_DATA_DIR'');
          d = TrimSpace (if override \<noteq> [] then override else dir)
      in if d = [] then JoinPath [''.'', ''.skall''] else d)"

definition cfg_defaults :: "NetworkConfig \<Rightarrow> NetworkConfig" where
  "cfg_defaults n =
     (let n1 = (if ToLower (TrimSpace (n_DHTMode n)) = [] then n\<lparr>n_DHTMode := ''auto''\<rparr> else n)
      in if n_DHTNamespace n1 = [] then n1\<lparr>n_DHTNamespace := ''skall.rendezvous.v2''\<rparr> else n1)"

definition cfg_listen :: "NetworkConfig \<Rightarrow> NetworkConfig" where
  "cfg_listen n = (if n_ListenAddrs n = [] then n\<lparr>n_ListenAddrs := [''/ip4/0.0.0.0/tcp/0'']\<rparr> else n)"

definition cfg_theme :: "UIConfig \<Rightarrow> UIConfig" where
  "cfg_theme u = (if u_Theme u = [] then u\<lparr>u_Theme := ''default''\<rparr> else u)"

definition cfg_Validate :: "'ma p2p_lib \<Rightarrow> (string \<Rightarrow> string) \<Rightarrow> Config \<Rightarrow> cfg_error option \<times> Config" where
  "cfg_Validate lib env c =
     (let c1 = c\<lparr>c_DataDir := cfg_data_dir env (c_DataDir c)\<rparr>;
          n = cfg_listen (c_Network c1);
          c2 = c1\<lparr>c_Network := n\<rparr>
      in case first_bad lib (n_ListenAddrs n) of
           Some (a, e) \<Rightarrow> (Some (CfgListen a e), c2)
         | None \<Rightarrow> (case first_bad lib (n_AdvertisedAddrs n) of
           Some (a, e) \<Rightarrow> (Some (CfgAdvertised a e), c2)
         | None \<Rightarrow>
             if ToLower (TrimSpace (n_DHTMode n)) \<notin> set known_modes then (Some (CfgDHTMode (n_DHTMode n)), c2)
             else (None, c2\<lparr>c_Network := cfg_defaults n,
                     c_UI := cfg_theme (c_UI c2)\<rparr>)))"

section \<open>The file\<close>

definition jbool :: "bool \<Rightarrow> json" where
  "jbool b = JBool b"

definition jstrs :: "string list \<Rightarrow> json" where
  "jstrs xs = JArr (map jstr xs)"

definition opt_str :: "string \<Rightarrow> string \<Rightarrow> (string \<times> json) list" where
  "opt_str k s = (if s = [] then [] else [(k, jstr s)])"

definition opt_strs :: "string \<Rightarrow> string list \<Rightarrow> (string \<times> json) list" where
  "opt_strs k xs = (if xs = [] then [] else [(k, jstrs xs)])"

definition network_json :: "NetworkConfig \<Rightarrow> json" where
  "network_json n =
     jobj ([(''listen_addresses'', jstrs (n_ListenAddrs n))] @ opt_strs ''advertised_addresses'' (n_AdvertisedAddrs n)
       @ [(''enable_mdns'', jbool (n_EnableMDNS n))] @ opt_strs ''bootstrap_peers'' (n_BootstrapPeers n)
       @ [(''enable_relay'', jbool (n_EnableRelay n)), (''enable_hole_punch'', jbool (n_EnableHolePunch n)),
          (''enable_autonat'', jbool (n_EnableAutoNAT n)), (''dht_mode'', jstr (n_DHTMode n))]
       @ opt_str ''dht_namespace'' (n_DHTNamespace n))"

definition ui_json :: "UIConfig \<Rightarrow> json" where
  "ui_json u = jobj [(''theme'', jstr (u_Theme u)), (''show_timestamps'', jbool (u_ShowTimestamps u))]"

definition config_json :: "Config \<Rightarrow> json" where
  "config_json c =
     jobj ([(''data_dir'', jstr (c_DataDir c))] @ opt_str ''username'' (c_Username c) @ opt_str ''display_name'' (c_DisplayName c)
       @ [(''network'', network_json (c_Network c)), (''ui'', ui_json (c_UI c))])"

definition network_fields :: "string list" where
  "network_fields = [''listen_addresses'', ''advertised_addresses'', ''enable_mdns'', ''bootstrap_peers'', ''enable_relay'',
     ''enable_hole_punch'', ''enable_autonat'', ''dht_mode'', ''dht_namespace'']"

definition dec_strings :: "json \<Rightarrow> string list \<Rightarrow> string list option" where
  "dec_strings v old = dec_slice (\<lambda>o1 w. dec_string w o1) [] v old"

definition set_network_field :: "string \<Rightarrow> json \<Rightarrow> NetworkConfig \<Rightarrow> NetworkConfig option" where
  "set_network_field k v n =
     (if k = ''listen_addresses'' then map_option (\<lambda>x. n\<lparr>n_ListenAddrs := x\<rparr>) (dec_strings v (n_ListenAddrs n))
      else if k = ''advertised_addresses'' then map_option (\<lambda>x. n\<lparr>n_AdvertisedAddrs := x\<rparr>) (dec_strings v (n_AdvertisedAddrs n))
      else if k = ''enable_mdns'' then map_option (\<lambda>x. n\<lparr>n_EnableMDNS := x\<rparr>) (dec_bool v (n_EnableMDNS n))
      else if k = ''bootstrap_peers'' then map_option (\<lambda>x. n\<lparr>n_BootstrapPeers := x\<rparr>) (dec_strings v (n_BootstrapPeers n))
      else if k = ''enable_relay'' then map_option (\<lambda>x. n\<lparr>n_EnableRelay := x\<rparr>) (dec_bool v (n_EnableRelay n))
      else if k = ''enable_hole_punch'' then map_option (\<lambda>x. n\<lparr>n_EnableHolePunch := x\<rparr>) (dec_bool v (n_EnableHolePunch n))
      else if k = ''enable_autonat'' then map_option (\<lambda>x. n\<lparr>n_EnableAutoNAT := x\<rparr>) (dec_bool v (n_EnableAutoNAT n))
      else if k = ''dht_mode'' then map_option (\<lambda>x. n\<lparr>n_DHTMode := x\<rparr>) (dec_string v (n_DHTMode n))
      else map_option (\<lambda>x. n\<lparr>n_DHTNamespace := x\<rparr>) (dec_string v (n_DHTNamespace n)))"

definition ui_fields :: "string list" where
  "ui_fields = [''theme'', ''show_timestamps'']"

definition set_ui_field :: "string \<Rightarrow> json \<Rightarrow> UIConfig \<Rightarrow> UIConfig option" where
  "set_ui_field k v u =
     (if k = ''theme'' then map_option (\<lambda>x. u\<lparr>u_Theme := x\<rparr>) (dec_string v (u_Theme u))
      else map_option (\<lambda>x. u\<lparr>u_ShowTimestamps := x\<rparr>) (dec_bool v (u_ShowTimestamps u)))"

definition config_fields :: "string list" where
  "config_fields = [''data_dir'', ''username'', ''display_name'', ''network'', ''ui'']"

definition set_config_field :: "string \<Rightarrow> json \<Rightarrow> Config \<Rightarrow> Config option" where
  "set_config_field k v c =
     (if k = ''data_dir'' then map_option (\<lambda>x. c\<lparr>c_DataDir := x\<rparr>) (dec_string v (c_DataDir c))
      else if k = ''username'' then map_option (\<lambda>x. c\<lparr>c_Username := x\<rparr>) (dec_string v (c_Username c))
      else if k = ''display_name'' then map_option (\<lambda>x. c\<lparr>c_DisplayName := x\<rparr>) (dec_string v (c_DisplayName c))
      else if k = ''network'' then map_option (\<lambda>x. c\<lparr>c_Network := x\<rparr>) (decode_struct network_fields set_network_field v (c_Network c))
      else map_option (\<lambda>x. c\<lparr>c_UI := x\<rparr>) (decode_struct ui_fields set_ui_field v (c_UI c)))"

definition cfg_Load :: "'ma p2p_lib \<Rightarrow> (string \<Rightarrow> string) \<Rightarrow> string + string \<Rightarrow> fs_error option \<Rightarrow> string \<Rightarrow> files \<Rightarrow> cfg_error + Config" where
  "cfg_Load lib env ucd fault path fs =
     (case ReadFile fault path fs of
        Inl e \<Rightarrow> Inl (CfgRead e)
      | Inr data \<Rightarrow>
          (case Option.bind (Parse data) (\<lambda>v. decode_struct config_fields set_config_field v (DefaultConfig env ucd)) of
             None \<Rightarrow> Inl CfgDecode
           | Some c \<Rightarrow> (case cfg_Validate lib env c of (Some e, c') \<Rightarrow> Inl e | (None, c') \<Rightarrow> Inr c')))"

definition cfg_Save :: "'ma p2p_lib \<Rightarrow> (string \<Rightarrow> string) \<Rightarrow> save_faults \<Rightarrow> string \<Rightarrow> Config \<Rightarrow> files \<Rightarrow> cfg_error option \<times> files" where
  "cfg_Save lib env fl path c fs =
     (case cfg_Validate lib env c of
        (Some e, c') \<Rightarrow> (Some e, fs)
      | (None, c') \<Rightarrow> (case sf_mkdir fl of
        Some e \<Rightarrow> (Some (CfgMkdir e), fs)
      | None \<Rightarrow> (case WriteFile (sf_write fl) path (print_indent (config_json c')) fs of
        (Some e, fs') \<Rightarrow> (Some (CfgWrite e), fs')
      | (None, fs') \<Rightarrow> (case sf_chmod fl of
        None \<Rightarrow> (None, fs')
      | Some e \<Rightarrow> (if e = FsPermission then None else Some (CfgChmod e), fs')))))"

text \<open>Whether the text of an error contains \<open>no such file\<close>. \<open>%q\<close> writes a line feed as a backslash and an \<open>n\<close>; its
  other escapes cannot be part of that phrase. The text of a read error has the path, and that of a decoding error names only types and fields.\<close>

definition quoted :: "string \<Rightarrow> string" where
  "quoted s = concat (map (\<lambda>c. if c = CHR 0x0A then [CHR 0x5C, CHR ''n''] else [c]) s)"

definition says_no_file :: "(string \<Rightarrow> string) \<Rightarrow> string \<Rightarrow> cfg_error \<Rightarrow> bool" where
  "says_no_file ltext path e =
     (case e of
        CfgRead FsNotExist \<Rightarrow> True
      | CfgRead FsPermission \<Rightarrow> Contains path ''no such file''
      | CfgRead (FsOther t) \<Rightarrow> Contains path ''no such file'' \<or> Contains t ''no such file''
      | CfgListen a e' \<Rightarrow> Contains (quoted a) ''no such file'' \<or> (e' = MultiaddrInvalid \<and> Contains (ltext a) ''no such file'')
      | CfgAdvertised a e' \<Rightarrow> Contains (quoted a) ''no such file'' \<or> (e' = MultiaddrInvalid \<and> Contains (ltext a) ''no such file'')
      | CfgDHTMode m \<Rightarrow> Contains (quoted m) ''no such file''
      | _ \<Rightarrow> False)"

definition cfg_LoadOrCreate :: "'ma p2p_lib \<Rightarrow> (string \<Rightarrow> string) \<Rightarrow> (string \<Rightarrow> string) \<Rightarrow> string + string \<Rightarrow> fs_error option \<Rightarrow> save_faults \<Rightarrow>
    files \<Rightarrow> (cfg_error + Config) \<times> files" where
  "cfg_LoadOrCreate lib ltext env ucd rf fl fs =
     (case DefaultConfigPath env ucd of
        Inl _ \<Rightarrow> (Inr (DefaultConfig env ucd), fs)
      | Inr path \<Rightarrow>
          (case cfg_Load lib env ucd rf path fs of
             Inr c \<Rightarrow> (Inr c, fs)
           | Inl e \<Rightarrow>
               if e \<noteq> CfgRead FsNotExist \<and> \<not> says_no_file ltext path e then (Inl e, fs)
               else (Inr (DefaultConfig env ucd), snd (cfg_Save lib env fl path (DefaultConfig env ucd) fs))))"

section \<open>Round trip\<close>

lemma dec_jbool [simp]: "dec_bool (jbool b) old = Some b" "jok (jbool b)" "jdepth (jbool b) = 0"
  by (simp_all add: jbool_def)

lemma dec_jstrs [simp]: "list_all valid_utf8 xs \<Longrightarrow> dec_strings (jstrs xs) old = Some xs"
proof -
  have "list_all valid_utf8 xs \<Longrightarrow> dec_elems (\<lambda>o1 w. dec_string w o1) [] (map jstr xs) old = Some xs"
    by (induction xs arbitrary: old) simp_all
  then show "list_all valid_utf8 xs \<Longrightarrow> dec_strings (jstrs xs) old = Some xs" by (simp add: dec_strings_def jstrs_def)
qed

lemma jok_jstrs [simp]: "jok (jstrs xs)"
proof -
  have "jok_elems (map jstr xs)" by (induction xs) simp_all
  then show ?thesis by (simp add: jstrs_def)
qed

lemma jdepth_jstrs [simp]: "jdepth (jstrs xs) = 1"
proof -
  have "jdepth_elems (map jstr xs) = 0" by (induction xs) simp_all
  then show ?thesis by (simp add: jstrs_def)
qed

lemma config_fields_utf8: "list_all valid_utf8 network_fields" "list_all valid_utf8 ui_fields" "list_all valid_utf8 config_fields"
  by code_simp+

lemma Parse_config: "Parse (print_indent (config_json c)) = Some (config_json c)"
  by (rule Parse_print_indent)
    (simp_all add: config_json_def network_json_def ui_json_def opt_str_def opt_strs_def jdepth_jobj maxNestingDepth_def)

definition utf8_network :: "NetworkConfig \<Rightarrow> bool" where
  "utf8_network n \<longleftrightarrow> list_all valid_utf8 (n_ListenAddrs n @ n_AdvertisedAddrs n @ n_BootstrapPeers n @ [n_DHTMode n, n_DHTNamespace n])"

definition utf8_config :: "Config \<Rightarrow> bool" where
  "utf8_config c \<longleftrightarrow> list_all valid_utf8 [c_DataDir c, c_Username c, c_DisplayName c, u_Theme (c_UI c)] \<and> utf8_network (c_Network c)"

lemma network_field_simps:
  "set_network_field ''listen_addresses'' v n = map_option (\<lambda>x. n\<lparr>n_ListenAddrs := x\<rparr>) (dec_strings v (n_ListenAddrs n))"
  "set_network_field ''advertised_addresses'' v n = map_option (\<lambda>x. n\<lparr>n_AdvertisedAddrs := x\<rparr>) (dec_strings v (n_AdvertisedAddrs n))"
  "set_network_field ''enable_mdns'' v n = map_option (\<lambda>x. n\<lparr>n_EnableMDNS := x\<rparr>) (dec_bool v (n_EnableMDNS n))"
  "set_network_field ''bootstrap_peers'' v n = map_option (\<lambda>x. n\<lparr>n_BootstrapPeers := x\<rparr>) (dec_strings v (n_BootstrapPeers n))"
  "set_network_field ''enable_relay'' v n = map_option (\<lambda>x. n\<lparr>n_EnableRelay := x\<rparr>) (dec_bool v (n_EnableRelay n))"
  "set_network_field ''enable_hole_punch'' v n = map_option (\<lambda>x. n\<lparr>n_EnableHolePunch := x\<rparr>) (dec_bool v (n_EnableHolePunch n))"
  "set_network_field ''enable_autonat'' v n = map_option (\<lambda>x. n\<lparr>n_EnableAutoNAT := x\<rparr>) (dec_bool v (n_EnableAutoNAT n))"
  "set_network_field ''dht_mode'' v n = map_option (\<lambda>x. n\<lparr>n_DHTMode := x\<rparr>) (dec_string v (n_DHTMode n))"
  "set_network_field ''dht_namespace'' v n = map_option (\<lambda>x. n\<lparr>n_DHTNamespace := x\<rparr>) (dec_string v (n_DHTNamespace n))"
  by (simp_all add: set_network_field_def)

lemma network_fields_mem:
  "''listen_addresses'' \<in> set network_fields" "''advertised_addresses'' \<in> set network_fields" "''enable_mdns'' \<in> set network_fields"
  "''bootstrap_peers'' \<in> set network_fields" "''enable_relay'' \<in> set network_fields" "''enable_hole_punch'' \<in> set network_fields"
  "''enable_autonat'' \<in> set network_fields" "''dht_mode'' \<in> set network_fields" "''dht_namespace'' \<in> set network_fields"
  by (simp_all add: network_fields_def)

lemma decode_network:
  assumes "utf8_network n" "n_DHTNamespace n \<noteq> []" "n_AdvertisedAddrs d = []" "n_BootstrapPeers d = []"
  shows "decode_struct network_fields set_network_field (network_json n) d = Some n"
  using assms
  by (simp add: network_json_def opt_str_def opt_strs_def utf8_network_def config_fields_utf8 network_fields_mem network_field_simps)

lemma decode_ui: "valid_utf8 (u_Theme u) \<Longrightarrow> decode_struct ui_fields set_ui_field (ui_json u) d = Some u"
proof -
  have "''theme'' \<in> set ui_fields" "''show_timestamps'' \<in> set ui_fields" by (simp_all add: ui_fields_def)
  then show "valid_utf8 (u_Theme u) \<Longrightarrow> decode_struct ui_fields set_ui_field (ui_json u) d = Some u"
    by (simp add: ui_json_def set_ui_field_def config_fields_utf8)
qed

lemma decode_config:
  assumes "utf8_config c" "n_DHTNamespace (c_Network c) \<noteq> []"
  shows "decode_struct config_fields set_config_field (config_json c) (DefaultConfig env ucd) = Some c"
proof -
  have "''data_dir'' \<in> set config_fields" "''username'' \<in> set config_fields" "''display_name'' \<in> set config_fields"
    "''network'' \<in> set config_fields" "''ui'' \<in> set config_fields" by (simp_all add: config_fields_def)
  then show ?thesis
    using assms decode_network decode_ui
    by (simp add: config_json_def opt_str_def utf8_config_def config_fields_utf8 set_config_field_def DefaultConfig_def Let_def)
qed

lemma cfg_data_dir_idem: "cfg_data_dir env (cfg_data_dir env d) = cfg_data_dir env d"
proof -
  have "TrimSpace (JoinPath [''.'', ''.skall'']) = JoinPath [''.'', ''.skall'']" by code_simp
  then show ?thesis by (simp add: cfg_data_dir_def Let_def)
qed

lemma cfg_repairs:
  "cfg_listen (cfg_defaults (cfg_listen n)) = cfg_defaults (cfg_listen n)"
  "cfg_defaults (cfg_defaults n) = cfg_defaults n" "n_DHTNamespace (cfg_defaults n) \<noteq> []"
  "n_ListenAddrs (cfg_defaults n) = n_ListenAddrs n" "n_AdvertisedAddrs (cfg_defaults n) = n_AdvertisedAddrs n"
  "cfg_theme (cfg_theme u) = cfg_theme u"
  "ToLower (TrimSpace (n_DHTMode n)) \<in> set known_modes \<Longrightarrow> ToLower (TrimSpace (n_DHTMode (cfg_defaults n))) \<in> set known_modes"
proof -
  have auto: "ToLower (TrimSpace ''auto'') = ''auto''" by code_simp
  show "cfg_listen (cfg_defaults (cfg_listen n)) = cfg_defaults (cfg_listen n)" by (simp add: cfg_listen_def cfg_defaults_def Let_def)
  show "cfg_defaults (cfg_defaults n) = cfg_defaults n" by (simp add: cfg_defaults_def Let_def auto)
  show "n_DHTNamespace (cfg_defaults n) \<noteq> []" by (simp add: cfg_defaults_def Let_def)
  show "n_ListenAddrs (cfg_defaults n) = n_ListenAddrs n" "n_AdvertisedAddrs (cfg_defaults n) = n_AdvertisedAddrs n"
    by (simp_all add: cfg_defaults_def Let_def)
  show "cfg_theme (cfg_theme u) = cfg_theme u" by (simp add: cfg_theme_def)
  show "ToLower (TrimSpace (n_DHTMode n)) \<in> set known_modes \<Longrightarrow> ToLower (TrimSpace (n_DHTMode (cfg_defaults n))) \<in> set known_modes"
    by (auto simp: cfg_defaults_def Let_def auto known_modes_def)
qed

lemma cfg_Validate_ok:
  "cfg_Validate lib env c = (None, c') \<longleftrightarrow>
     first_bad lib (n_ListenAddrs (cfg_listen (c_Network c))) = None \<and> first_bad lib (n_AdvertisedAddrs (cfg_listen (c_Network c))) = None
     \<and> ToLower (TrimSpace (n_DHTMode (cfg_listen (c_Network c)))) \<in> set known_modes
     \<and> c' = c\<lparr>c_DataDir := cfg_data_dir env (c_DataDir c), c_Network := cfg_defaults (cfg_listen (c_Network c)), c_UI := cfg_theme (c_UI c)\<rparr>"
  by (auto simp: cfg_Validate_def Let_def split: option.split)

text \<open>What passes validation once passes it again unchanged.\<close>

lemma cfg_Validate_idem:
  assumes "cfg_Validate lib env c = (None, c')"
  shows "cfg_Validate lib env c' = (None, c')" "n_DHTNamespace (c_Network c') \<noteq> []"
  using assms by (auto simp: cfg_Validate_ok cfg_repairs cfg_data_dir_idem)

text \<open>C17: A saved configuration is what is loaded: when \<open>Save\<close> accepts a configuration whose texts are UTF-8, loading the
  file gives exactly the configuration that validation made of it (its repairs included), whatever the defaults are,
  and saving and loading that again changes nothing.\<close>

theorem config_roundtrip:
  assumes "cfg_Validate lib env c = (None, c')" "utf8_config c'"
  shows "\<exists>fs'. cfg_Save lib env no_save_faults path c fs = (None, fs') \<and> cfg_Load lib env ucd None path fs' = Inr c'
    \<and> cfg_Save lib env no_save_faults path c' fs' = (None, fs')"
proof -
  note idem = cfg_Validate_idem [OF assms(1)]
  let ?fs = "AList.update path (print_indent (config_json c')) fs"
  have "cfg_Save lib env no_save_faults path c fs = (None, ?fs)"
    using assms(1) by (simp add: cfg_Save_def no_save_faults_def WriteFile_def)
  moreover have "cfg_Load lib env ucd None path ?fs = Inr c'"
    using idem decode_config [OF assms(2) idem(2)] by (simp add: cfg_Load_def ReadFile_def Parse_config map_of_put)
  moreover have "cfg_Save lib env no_save_faults path c' ?fs = (None, ?fs)"
    using idem(1) by (simp add: cfg_Save_def no_save_faults_def WriteFile_def)
  ultimately show ?thesis by blast
qed

text \<open>A configuration that asks for the address \<open>a\<close> that the demonstration library knows, with blanks and an empty theme.\<close>

definition demo_config :: Config where
  "demo_config = \<lparr>c_DataDir = '' /data '', c_Username = [], c_DisplayName = ''Ann'',
     c_Network = \<lparr>n_ListenAddrs = ['' a ''], n_AdvertisedAddrs = [], n_EnableMDNS = False, n_BootstrapPeers = [''x''], n_EnableRelay = True,
       n_EnableHolePunch = False, n_EnableAutoNAT = False, n_DHTMode = '' Disabled '', n_DHTNamespace = []\<rparr>,
     c_UI = \<lparr>u_Theme = [], u_ShowTimestamps = True\<rparr>\<rparr>"

definition demo_valid_config :: Config where
  "demo_valid_config = demo_config\<lparr>c_DataDir := ''/data'', c_Network := (c_Network demo_config)\<lparr>n_DHTNamespace := ''skall.rendezvous.v2''\<rparr>,
     c_UI := \<lparr>u_Theme = ''default'', u_ShowTimestamps = True\<rparr>\<rparr>"

lemma demo_config_valid: "cfg_Validate demo_lib (\<lambda>_. []) demo_config = (None, demo_valid_config)" "utf8_config demo_valid_config"
  by code_simp+

theorem config_roundtrip_witness:
  "\<exists>fs'. cfg_Save demo_lib (\<lambda>_. []) no_save_faults ''/c.json'' demo_config [] = (None, fs')
    \<and> cfg_Load demo_lib (\<lambda>_. []) (Inl ''none'') None ''/c.json'' fs' = Inr demo_valid_config"
  using config_roundtrip [OF demo_config_valid] by blast

text \<open>A rejected configuration whose offending value contains the words \<open>no such file\<close> is taken for a missing file: it is
  replaced by the defaults, without an error.\<close>

lemma lookalike_error_overwrites:
  assumes "DefaultConfigPath env ucd = Inr path" "cfg_Load lib env ucd rf path fs = Inl (CfgDHTMode m)"
    and "Contains m ''no such file''" "CHR 0x0A \<notin> set m" "cfg_Validate lib env (DefaultConfig env ucd) = (None, c')"
  shows "\<exists>fs'. cfg_LoadOrCreate lib ltext env ucd rf no_save_faults fs = (Inr (DefaultConfig env ucd), fs')
    \<and> map_of fs' path = Some (print_indent (config_json c'))"
proof -
  have "CHR 0x0A \<notin> set t \<Longrightarrow> quoted t = t" for t by (induction t) (auto simp: quoted_def)
  then show ?thesis
    using assms
    by (simp add: cfg_LoadOrCreate_def says_no_file_def cfg_Save_def no_save_faults_def WriteFile_def map_of_put)
qed

end
