(* ===== verification/Identity_Store.thy ===== *)
theory Identity_Store
  imports Go_Files Identity
begin

text \<open>
  \<^verbatim>\<open>internal/identity/store.go\<close>: the identity file, JSON with the keys in base64. The laws say that an identity
  that was saved is loaded again unchanged, so that a peer keeps its id, and that an existing file is never replaced.
\<close>

section \<open>The JSON text of an identity\<close>

definition identity_fields :: "string list" where
  "identity_fields = [''version'', ''peer_id'', ''username'', ''display_name'', ''created_at'', ''public_key'', ''private_key'']"

definition identity_json :: "Identity \<Rightarrow> json" where
  "identity_json i =
     jobj [(''version'', jint (i_Version i)), (''peer_id'', jstr (i_PeerID i)), (''username'', jstr (i_Username i)),
           (''display_name'', jstr (i_DisplayName i)), (''created_at'', jtime (i_CreatedAt i)),
           (''public_key'', jbytes (i_PublicKey i)), (''private_key'', jbytes (i_PrivateKey i))]"

definition set_identity_field :: "string \<Rightarrow> json \<Rightarrow> Identity \<Rightarrow> Identity option" where
  "set_identity_field n v i =
     (if n = ''version'' then map_option (\<lambda>x. i\<lparr>i_Version := x\<rparr>) (dec_int v (i_Version i))
      else if n = ''peer_id'' then map_option (\<lambda>x. i\<lparr>i_PeerID := x\<rparr>) (dec_string v (i_PeerID i))
      else if n = ''username'' then map_option (\<lambda>x. i\<lparr>i_Username := x\<rparr>) (dec_string v (i_Username i))
      else if n = ''display_name'' then map_option (\<lambda>x. i\<lparr>i_DisplayName := x\<rparr>) (dec_string v (i_DisplayName i))
      else if n = ''created_at'' then map_option (\<lambda>x. i\<lparr>i_CreatedAt := x\<rparr>) (dec_time v (i_CreatedAt i))
      else if n = ''public_key'' then map_option (\<lambda>x. i\<lparr>i_PublicKey := x\<rparr>) (dec_bytes v (i_PublicKey i))
      else map_option (\<lambda>x. i\<lparr>i_PrivateKey := x\<rparr>) (dec_bytes v (i_PrivateKey i)))"

definition zero_identity :: Identity where
  "zero_identity = \<lparr>i_Version = 0, i_PeerID = [], i_Username = [], i_DisplayName = [], i_CreatedAt = zero_time, i_PublicKey = [], i_PrivateKey = []\<rparr>"

section \<open>The store\<close>

datatype id_store_error = IdFile fs_error | IdDecode | IdEncode | IdInvalid identity_error | IdNoConfigDir string

text \<open>\<open>ucd\<close> is what \<open>os.UserConfigDir\<close> returns.\<close>

definition id_DefaultPath :: "(string \<Rightarrow> string) \<Rightarrow> string + string \<Rightarrow> id_store_error + string" where
  "id_DefaultPath env ucd =
     (let override = TrimSpace (env ''SKALL_IDENTITY_PATH''); dataDir = TrimSpace (env ''SKALL_DATA_DIR'') in
      if override \<noteq> [] then Inr override
      else if dataDir \<noteq> [] then Inr (JoinPath [dataDir, ''identity.json''])
      else case ucd of Inl e \<Rightarrow> Inl (IdNoConfigDir e) | Inr d \<Rightarrow> Inr (JoinPath [d, ''skall'', ''identity.json'']))"

record id_Store =
  ids_path :: string

definition id_NewStore :: "string \<Rightarrow> id_Store" where
  "id_NewStore path = \<lparr>ids_path = path\<rparr>"

definition DefaultStore :: "(string \<Rightarrow> string) \<Rightarrow> string + string \<Rightarrow> id_store_error + id_Store" where
  "DefaultStore env ucd = (case id_DefaultPath env ucd of Inl e \<Rightarrow> Inl e | Inr p \<Rightarrow> Inr (id_NewStore p))"

definition id_Load :: "fs_error option \<Rightarrow> id_Store \<Rightarrow> files \<Rightarrow> id_store_error + Identity" where
  "id_Load fault st fs =
     (case ReadFile fault (ids_path st) fs of
        Inl e \<Rightarrow> Inl (IdFile e)
      | Inr data \<Rightarrow>
          (case Option.bind (Parse data) (\<lambda>v. decode_struct identity_fields set_identity_field v zero_identity) of
             None \<Rightarrow> Inl IdDecode
           | Some i \<Rightarrow> (case ValidateIdentity i of Some e \<Rightarrow> Inl (IdInvalid e) | None \<Rightarrow> Inr i)))"

definition id_Save :: "save_faults \<Rightarrow> id_Store \<Rightarrow> Identity \<Rightarrow> files \<Rightarrow> id_store_error option \<times> files" where
  "id_Save fl st i fs =
     (case ValidateIdentity i of
        Some e \<Rightarrow> (Some (IdInvalid e), fs)
      | None \<Rightarrow> (case sf_mkdir fl of
        Some e \<Rightarrow> (Some (IdFile e), fs)
      | None \<Rightarrow>
          if \<not> printable_time (i_CreatedAt i) then (Some IdEncode, fs)
          else case WriteFile (sf_write fl) (ids_path st) (print_indent (identity_json i)) fs of
            (Some e, fs') \<Rightarrow> (Some (IdFile e), fs')
          | (None, fs') \<Rightarrow>
              (case sf_chmod fl of
                 None \<Rightarrow> (None, fs')
               | Some e \<Rightarrow> (if e = FsPermission then None else Some (IdFile e), fs'))))"

definition id_LoadOrCreate :: "(string \<Rightarrow> string) \<Rightarrow> string option \<Rightarrow> time \<Rightarrow> fs_error option \<Rightarrow> save_faults \<Rightarrow> id_Store \<Rightarrow> files
    \<Rightarrow> (id_store_error + Identity) \<times> files" where
  "id_LoadOrCreate pub seed now rf fl st fs =
     (case id_Load rf st fs of
        Inr i \<Rightarrow> (Inr i, fs)
      | Inl e \<Rightarrow>
          if e \<noteq> IdFile FsNotExist then (Inl e, fs)
          else case Generate pub seed now of
            Inl e' \<Rightarrow> (Inl (IdInvalid e'), fs)
          | Inr i \<Rightarrow> (case id_Save fl st i fs of (Some e', fs') \<Rightarrow> (Inl e', fs') | (None, fs') \<Rightarrow> (Inr i, fs')))"

section \<open>Round trip\<close>

lemma identity_fields_utf8: "list_all valid_utf8 identity_fields"
  by code_simp

lemma set_identity_simps:
  "set_identity_field ''version'' v i = map_option (\<lambda>x. i\<lparr>i_Version := x\<rparr>) (dec_int v (i_Version i))"
  "set_identity_field ''peer_id'' v i = map_option (\<lambda>x. i\<lparr>i_PeerID := x\<rparr>) (dec_string v (i_PeerID i))"
  "set_identity_field ''username'' v i = map_option (\<lambda>x. i\<lparr>i_Username := x\<rparr>) (dec_string v (i_Username i))"
  "set_identity_field ''display_name'' v i = map_option (\<lambda>x. i\<lparr>i_DisplayName := x\<rparr>) (dec_string v (i_DisplayName i))"
  "set_identity_field ''created_at'' v i = map_option (\<lambda>x. i\<lparr>i_CreatedAt := x\<rparr>) (dec_time v (i_CreatedAt i))"
  "set_identity_field ''public_key'' v i = map_option (\<lambda>x. i\<lparr>i_PublicKey := x\<rparr>) (dec_bytes v (i_PublicKey i))"
  "set_identity_field ''private_key'' v i = map_option (\<lambda>x. i\<lparr>i_PrivateKey := x\<rparr>) (dec_bytes v (i_PrivateKey i))"
  by (simp_all add: set_identity_field_def)

lemma Parse_identity: "Parse (print_indent (identity_json i)) = Some (identity_json i)"
  by (rule Parse_print_indent) (simp_all add: identity_json_def jdepth_jobj maxNestingDepth_def)

lemma decode_identity:
  assumes "ValidateIdentity i = None" "valid_utf8 (i_Username i)" "valid_utf8 (i_DisplayName i)" "printable_time (i_CreatedAt i)"
  shows "decode_struct identity_fields set_identity_field (identity_json i) zero_identity = Some i"
proof -
  have v: "in_int64 (i_Version i)" "i_PeerID i = hex (sha256 (i_PublicKey i))"
    using assms(1) by (auto simp: ValidateIdentity_iff in_int64_def)
  then have "valid_utf8 (i_PeerID i)" using visible_utf8 [OF hex_visible] by simp
  moreover have "{''version'', ''peer_id'', ''username'', ''display_name'', ''created_at'', ''public_key'', ''private_key''} \<subseteq> set identity_fields"
    by (simp add: identity_fields_def)
  ultimately show ?thesis
    using assms(2-4) v(1) by (simp add: identity_json_def identity_fields_utf8 set_identity_simps zero_identity_def)
qed

lemma Load_Save:
  assumes "ValidateIdentity i = None" "valid_utf8 (i_Username i)" "valid_utf8 (i_DisplayName i)" "printable_time (i_CreatedAt i)"
  shows "fst (id_Save no_save_faults st i fs) = None" "id_Load None st (snd (id_Save no_save_faults st i fs)) = Inr i"
  using assms decode_identity [OF assms] Parse_identity [of i]
  by (simp_all add: id_Save_def id_Load_def no_save_faults_def WriteFile_def ReadFile_def map_of_put)

text \<open>What \<open>Generate\<close> makes can be written and read back: its names are ASCII.\<close>

lemma Generate_storable:
  assumes "Generate pub seed now = Inr i"
  shows "ValidateIdentity i = None" "valid_utf8 (i_Username i)" "valid_utf8 (i_DisplayName i)" "i_CreatedAt i = now"
proof -
  have "list_all visible (''user-'' @ shortPeerID (PeerIDFromPublicKey k))" "list_all visible (''SKALL-'' @ shortPeerID (PeerIDFromPublicKey k))" for k
    using short_id_visible [of k] by (simp_all add: visible_def)
  note u = this [THEN visible_utf8]
  show "ValidateIdentity i = None" "valid_utf8 (i_Username i)" "valid_utf8 (i_DisplayName i)" "i_CreatedAt i = now"
    using assms u by (auto simp: Generate_def Let_def split: option.splits)
qed

text \<open>C16: A peer keeps its identity: when no identity file exists, \<open>LoadOrCreate\<close> creates one that passes validation and
  returns it, and every later \<open>LoadOrCreate\<close> that can read the file returns the same identity and leaves the files
  alone, whatever the random source would give.\<close>

theorem identity_survives_restart:
  assumes "map_of fs (ids_path st) = None" "length sd = 32" "\<And>s. length (pub s) = 32" "now \<noteq> 0" "printable_time now"
  shows "\<exists>i fs'. id_LoadOrCreate pub (Some sd) now None no_save_faults st fs = (Inr i, fs') \<and> ValidateIdentity i = None
    \<and> i_PeerID i = PeerIDFromPublicKey (pub sd)
    \<and> (\<forall>pub' seed' now' fl. id_LoadOrCreate pub' seed' now' None fl st fs' = (Inr i, fs'))"
proof -
  obtain i where i: "Generate pub (Some sd) now = Inr i" "i_PeerID i = PeerIDFromPublicKey (pub sd)"
    using Generate_valid [of sd pub now, OF assms(2) assms(3) assms(4)] by blast
  note g = Generate_storable [OF i(1)]
  let ?fs = "snd (id_Save no_save_faults st i fs)"
  have ls: "fst (id_Save no_save_faults st i fs) = None" "id_Load None st ?fs = Inr i"
    using Load_Save [OF g(1-3)] g(4) assms(5) by simp_all
  have "id_Load None st fs = Inl (IdFile FsNotExist)" using assms(1) by (simp add: id_Load_def ReadFile_def)
  then have "id_LoadOrCreate pub (Some sd) now None no_save_faults st fs = (Inr i, ?fs)"
    using ls(1) i(1) by (cases "id_Save no_save_faults st i fs") (simp add: id_LoadOrCreate_def)
  moreover have "id_LoadOrCreate pub' seed' now' None fl st ?fs = (Inr i, ?fs)" for pub' seed' now' fl
    using ls(2) by (simp add: id_LoadOrCreate_def)
  ultimately show ?thesis using g(1) i(2) by blast
qed

text \<open>C33: An existing identity file is never replaced, not even one that cannot be read, decoded or validated: \<open>LoadOrCreate\<close>
  then returns the error of \<open>Load\<close> and leaves every file alone, whatever the random source and the faults of a save. What it
  returns without an error passed validation, and a file that is no JSON, as an interrupted save leaves it, gives the
  decoding error.\<close>

theorem existing_identity_kept:
  assumes "map_of fs (ids_path st) = Some data" "rf \<noteq> Some FsNotExist"
  shows "id_LoadOrCreate pub seed now rf fl st fs = (id_Load rf st fs, fs)
    \<and> (\<forall>i. id_Load rf st fs = Inr i \<longrightarrow> ValidateIdentity i = None)
    \<and> (rf = None \<longrightarrow> Parse data = None \<longrightarrow> id_Load rf st fs = Inl IdDecode)"
  using assms by (auto simp: id_LoadOrCreate_def id_Load_def ReadFile_def split: sum.splits option.splits)

theorem existing_identity_kept_witness:
  "id_LoadOrCreate demo_key None 5 None no_save_faults (id_NewStore ''/id.json'') [(''/id.json'', [])] = (Inl IdDecode, [(''/id.json'', [])])"
proof -
  have "Parse [] = None" "ids_path (id_NewStore ''/id.json'') = ''/id.json''" by code_simp+
  then show ?thesis
    using existing_identity_kept [of "[(''/id.json'', [])]" "id_NewStore ''/id.json''" "[]" None demo_key None 5 no_save_faults] by simp
qed

text \<open>A write that fails half way leaves a file that is no identity any more, and the next start refuses it.\<close>

lemma interrupted_save_locks_out:
  assumes "ValidateIdentity i = None" "printable_time (i_CreatedAt i)"
    and "fl = \<lparr>sf_mkdir = None, sf_write = Some (FsOther ''no space left on device'', Some []), sf_chmod = None\<rparr>"
  shows "fst (id_LoadOrCreate pub seed now None fl' st (snd (id_Save fl st i fs))) = Inl IdDecode"
proof -
  have "Parse [] = None" by code_simp
  then show ?thesis
    using assms by (simp add: id_LoadOrCreate_def id_Load_def id_Save_def WriteFile_def ReadFile_def map_of_put)
qed

theorem identity_survives_restart_witness:
  "\<exists>i fs'. id_LoadOrCreate demo_key (Some (replicate 32 (CHR ''s''))) 5 None no_save_faults (id_NewStore ''/id.json'') [] = (Inr i, fs')
    \<and> (\<forall>pub' seed' now' fl. id_LoadOrCreate pub' seed' now' None fl (id_NewStore ''/id.json'') fs' = (Inr i, fs'))"
proof -
  have p: "printable_time 5" by code_simp
  show ?thesis
    using identity_survives_restart [of "[]" "id_NewStore ''/id.json''" "replicate 32 (CHR ''s'')" demo_key 5] p
    by (auto simp: demo_key_def)
qed

end
