(* ===== verification/Node.thy ===== *)
theory Node
  imports Dht Identity
begin

text \<open>
  The libp2p node: \<^verbatim>\<open>internal/network/p2p/host.go\<close>, \<^verbatim>\<open>builder.go\<close> and \<^verbatim>\<open>mdns_notifee.go\<close>. The libp2p host is the record
  \<open>libhost\<close>; what libp2p and mDNS return is an argument. A stream to write is a \<open>writer\<close>, a stream to read the
  bytes that arrive and the error after them. The handler of messages gets the message and the authenticated peer.
\<close>

section \<open>The node\<close>

definition ProtocolID :: string where "ProtocolID = ''/skall/msg/1.0.0''"

record 'ma Node =
  nd_host :: "'ma libhost"
  nd_mdns :: bool
  nd_handler :: bool
  nd_closed :: bool

definition newNode :: "'ma libhost \<Rightarrow> 'ma Node" where
  "newNode h = \<lparr>nd_host = h\<lparr>lh_handlers := ProtocolID # lh_handlers h\<rparr>, nd_mdns = False, nd_handler = False, nd_closed = False\<rparr>"

definition nd_ID :: "'ma Node \<Rightarrow> string" where "nd_ID n = lh_ID (nd_host n)"

definition nd_Addrs :: "'ma Node \<Rightarrow> 'ma list" where "nd_Addrs n = lh_Addrs (nd_host n)"

text \<open>\<open>dial\<close> is the result of \<open>host.Connect\<close>; the second component tells whether it was called.\<close>

definition nd_Connect :: "string option \<Rightarrow> 'ma AddrInfo \<Rightarrow> 'ma Node \<Rightarrow> string option \<times> bool" where
  "nd_Connect dial pi n = (if ai_ID pi = nd_ID n then (None, False) else (dial, True))"

definition SetMessageHandler :: "'ma Node \<Rightarrow> 'ma Node" where
  "SetMessageHandler n = n\<lparr>nd_handler := True\<rparr>"

definition nd_Close :: "string option \<Rightarrow> 'ma Node \<Rightarrow> string option \<times> 'ma Node" where
  "nd_Close err n = (err, n\<lparr>nd_mdns := False, nd_closed := True\<rparr>)"

section \<open>Streams\<close>

datatype node_error =
    NodeSelf
  | NodeOpenStream string
  | NodeDeadline string
  | NodeWrite write_result

text \<open>\<open>open\<close> and \<open>deadline\<close> are the errors of \<open>NewStream\<close> and \<open>SetDeadline\<close>. The result has the bytes that were written
  and whether the stream was reset; the write side is closed in every case. \<open>None\<close>: the writer makes no progress.\<close>

definition nd_SendMessage :: "string option \<Rightarrow> string option \<Rightarrow> writer \<Rightarrow> string \<Rightarrow> Message \<Rightarrow> 'ma Node \<Rightarrow> (node_error option \<times> string \<times> bool) option" where
  "nd_SendMessage opened deadline wr peerID msg n =
     (if peerID = nd_ID n then Some (Some NodeSelf, [], False)
      else case opened of
        Some e \<Rightarrow> Some (Some (NodeOpenStream e), [], False)
      | None \<Rightarrow> (case deadline of
        Some e \<Rightarrow> Some (Some (NodeDeadline e), [], True)
      | None \<Rightarrow> map_option (\<lambda>(r, k, out). if r = Wrote then (None, out, False) else (Some (NodeWrite r), out, True))
                 (WriteMessage wr msg (0, []))))"

text \<open>\<open>handleStream\<close>: the message handed to the handler, if any, and whether the stream was reset.\<close>

definition nd_handleStream :: "string option \<Rightarrow> io_error \<Rightarrow> string \<Rightarrow> string \<Rightarrow> 'ma Node \<Rightarrow> (Message \<times> string) option \<times> bool" where
  "nd_handleStream deadline fin bytes remote n =
     (case deadline of
        Some e \<Rightarrow> (None, True)
      | None \<Rightarrow>
          (case fst (ReadMessage fin bytes) of
             Inl e \<Rightarrow> (None, True)
           | Inr msg \<Rightarrow> (if nd_handler n then Some (msg, remote) else None, False)))"

section \<open>Building a node\<close>

record 'ma NodeOptions =
  no_ListenAddrs :: "string list"
  no_EnableMDNS :: bool
  no_EnableNATPortMap :: bool
  no_EnableAutoNAT :: bool
  no_EnableRelay :: bool
  no_EnableHolePunch :: bool
  no_AdvertisedAddrs :: "string list"
  no_StaticRelayPeers :: "'ma AddrInfo list"

definition DefaultListenAddrs :: "string list" where
  "DefaultListenAddrs = [''/ip4/0.0.0.0/tcp/0'', ''/ip6/::/tcp/0'']"

definition MDNSServiceName :: string where "MDNSServiceName = ''_skall._p2p._udp''"

text \<open>The options handed to \<open>libp2p.New\<close>, in order. The address factory returns a copy of its list.\<close>

datatype ('k, 'ma) libp2p_option =
    OptIdentity 'k
  | OptListenAddrStrings "string list"
  | OptNATPortMap
  | OptAutoNATv2
  | OptAutoRelayStatic "'ma AddrInfo list"
  | OptAutoRelay
  | OptHolePunching
  | OptAddrsFactory "'ma list"

datatype build_error =
    BuildIdentity identity_error
  | BuildAdvertised string
  | BuildHost string
  | BuildMDNS string

fun parse_advertised :: "'ma p2p_lib \<Rightarrow> string list \<Rightarrow> build_error + 'ma list" where
  "parse_advertised lib [] = Inr []"
| "parse_advertised lib (raw # rest) =
     (case lib_NewMultiaddr lib raw of
        None \<Rightarrow> Inl (BuildAdvertised raw)
      | Some a \<Rightarrow> (case parse_advertised lib rest of Inl e \<Rightarrow> Inl e | Inr as \<Rightarrow> Inr (a # as)))"

definition node_options :: "'k \<Rightarrow> 'ma NodeOptions \<Rightarrow> 'ma list \<Rightarrow> ('k, 'ma) libp2p_option list" where
  "node_options priv opts advertised =
     [OptIdentity priv, OptListenAddrStrings (no_ListenAddrs opts)]
     @ (if no_EnableNATPortMap opts then [OptNATPortMap] else [])
     @ (if no_EnableAutoNAT opts then [OptAutoNATv2] else [])
     @ (if no_EnableRelay opts
        then [if no_StaticRelayPeers opts \<noteq> [] then OptAutoRelayStatic (no_StaticRelayPeers opts) else OptAutoRelay] else [])
     @ (if no_EnableHolePunch opts then [OptHolePunching] else [])
     @ (if no_AdvertisedAddrs opts \<noteq> [] then [OptAddrsFactory advertised] else [])"

text \<open>\<open>conv\<close> makes the libp2p key, \<open>new\<close> is \<open>libp2p.New\<close>, and \<open>mdns\<close> the error of starting mDNS.\<close>

definition BuildNodeWithOptions :: "'ma p2p_lib \<Rightarrow> (string \<Rightarrow> 'k option) \<Rightarrow> (('k, 'ma) libp2p_option list \<Rightarrow> string + 'ma libhost) \<Rightarrow>
    string option \<Rightarrow> Identity \<Rightarrow> 'ma NodeOptions \<Rightarrow> build_error + 'ma Node" where
  "BuildNodeWithOptions lib conv new mdns i opts0 =
     (let opts = (if no_ListenAddrs opts0 = [] then opts0\<lparr>no_ListenAddrs := DefaultListenAddrs\<rparr> else opts0) in
      case LibP2PPrivKey conv i of
        Inl e \<Rightarrow> Inl (BuildIdentity e)
      | Inr priv \<Rightarrow> (case parse_advertised lib (no_AdvertisedAddrs opts) of
        Inl e \<Rightarrow> Inl e
      | Inr advertised \<Rightarrow> (case new (node_options priv opts advertised) of
        Inl e \<Rightarrow> Inl (BuildHost e)
      | Inr h \<Rightarrow>
          let node = newNode h in
          if no_EnableMDNS opts then (case mdns of Some e \<Rightarrow> Inl (BuildMDNS e) | None \<Rightarrow> Inr (node\<lparr>nd_mdns := True\<rparr>))
          else Inr node)))"

definition plain_options :: "string list \<Rightarrow> bool \<Rightarrow> bool \<Rightarrow> 'ma NodeOptions" where
  "plain_options listenAddrs mdns portmap =
     \<lparr>no_ListenAddrs = listenAddrs, no_EnableMDNS = mdns, no_EnableNATPortMap = portmap, no_EnableAutoNAT = False, no_EnableRelay = False,
      no_EnableHolePunch = False, no_AdvertisedAddrs = [], no_StaticRelayPeers = []\<rparr>"

definition BuildNode :: "'ma p2p_lib \<Rightarrow> (string \<Rightarrow> 'k option) \<Rightarrow> (('k, 'ma) libp2p_option list \<Rightarrow> string + 'ma libhost) \<Rightarrow>
    string option \<Rightarrow> Identity \<Rightarrow> string list \<Rightarrow> build_error + 'ma Node" where
  "BuildNode lib conv new mdns i listenAddrs = BuildNodeWithOptions lib conv new mdns i (plain_options listenAddrs True True)"

definition BuildNodeNoMDNS :: "'ma p2p_lib \<Rightarrow> (string \<Rightarrow> 'k option) \<Rightarrow> (('k, 'ma) libp2p_option list \<Rightarrow> string + 'ma libhost) \<Rightarrow>
    string option \<Rightarrow> Identity \<Rightarrow> string list \<Rightarrow> build_error + 'ma Node" where
  "BuildNodeNoMDNS lib conv new mdns i listenAddrs = BuildNodeWithOptions lib conv new mdns i (plain_options listenAddrs False False)"

text \<open>\<open>HandlePeerFound\<close> of the mDNS notifee: the peer that a goroutine connects to, if any.\<close>

definition HandlePeerFound :: "'ma AddrInfo \<Rightarrow> 'ma Node \<Rightarrow> 'ma AddrInfo option" where
  "HandlePeerFound pi n = (if ai_ID pi = nd_ID n then None else Some pi)"

section \<open>Delivery over a stream\<close>

text \<open>C15: A direct message arrives whole or not at all: whatever the stream does to the writes, what reaches the other node
  is a beginning of the message's frame; its handler is called, with the message as it was sent and the peer id of the
  sending node, exactly when the whole frame arrived, and a stream that breaks off is reset without a call. A send
  that reports success has written the whole frame, and over a stream without faults every send succeeds.\<close>

theorem node_delivers_whole:
  assumes "progressive wr" "sendable m" "peerID \<noteq> nd_ID a" "nd_handler b"
  shows "\<exists>err out reset. nd_SendMessage None None wr peerID m a = Some (err, out, reset) \<and> prefix out (message_frame m)
    \<and> nd_handleStream None fin out (nd_ID a) b = (if out = message_frame m then (Some (m, nd_ID a), False) else (None, True))
    \<and> (err = None \<longrightarrow> out = message_frame m) \<and> (faultless wr \<longrightarrow> err = None)"
proof -
  obtain r k out where w: "WriteMessage wr m (0, []) = Some (r, k, out)" "prefix out (message_frame m)"
    "r = Wrote \<longrightarrow> out = message_frame m" "faultless wr \<longrightarrow> r = Wrote"
    using WriteMessage_prefix [OF assms(1,2)] by blast
  have "nd_handleStream None fin out (nd_ID a) b = (if out = message_frame m then (Some (m, nd_ID a), False) else (None, True))"
  proof (cases "out = message_frame m")
    case True
    then show ?thesis
      using ReadMessage_message_frame [OF assms(2), of fin "[]"] assms(4) by (simp add: nd_handleStream_def)
  next
    case False
    from ReadMessage_cut [OF assms(2) w(2) this, of fin] show ?thesis using False by (auto simp: nd_handleStream_def)
  qed
  then show ?thesis
    using w assms(3) by (intro exI [of _ "if r = Wrote then None else Some (NodeWrite r)"] exI [of _ out] exI [of _ "r \<noteq> Wrote"])
      (simp add: nd_SendMessage_def)
qed

text \<open>A stream that takes three bytes at a time and fails at the third write.\<close>

definition demo_stream :: writer where
  "demo_stream k data = (if 2 \<le> k then (0, Some ''reset'') else (min 3 (length data), None))"

definition demo_direct :: Message where
  "demo_direct = \<lparr>Version = 1, ID = ''1'', Type = ''chat'', SenderID = ''ann'', RecipientID = ''bob'', GroupID = [], Timestamp = 5, Body = ''hi''\<rparr>"

definition demo_node :: "string \<Rightarrow> string Node" where
  "demo_node i = SetMessageHandler (newNode \<lparr>lh_ID = i, lh_String = i, lh_Addrs = [], lh_handlers = []\<rparr>)"

theorem node_delivers_whole_witness:
  "\<exists>err out reset. nd_SendMessage None None demo_stream ''bob'' demo_direct (demo_node ''ann'') = Some (err, out, reset)
    \<and> nd_handleStream None EOF out ''ann'' (demo_node ''bob'')
      = (if out = message_frame demo_direct then (Some (demo_direct, ''ann''), False) else (None, True))"
proof -
  have w: "progressive demo_stream" by (auto simp: progressive_def demo_stream_def)
  have m: "sendable demo_direct" by code_simp
  have id: "nd_ID (demo_node i) = i" "nd_handler (demo_node i)" for i
    by (simp_all add: nd_ID_def demo_node_def newNode_def SetMessageHandler_def)
  have ne: "''bob'' \<noteq> nd_ID (demo_node ''ann'')" by (simp add: id)
  show ?thesis using node_delivers_whole [OF w m ne id(2), of EOF "''bob''"] unfolding id by blast
qed

text \<open>A failure to start mDNS is fatal: there is no node.\<close>

lemma mdns_failure_fatal:
  assumes "no_EnableMDNS opts"
  shows "\<exists>e. BuildNodeWithOptions lib conv new (Some err) i opts = Inl e"
  using assms by (auto simp: BuildNodeWithOptions_def Let_def split: sum.split)

text \<open>The advertised addresses that the node reports are those of the options, in order, parsed without trimming.\<close>

lemma parse_advertised_spec: "parse_advertised lib raws = Inr as \<longleftrightarrow> map (lib_NewMultiaddr lib) raws = map Some as"
proof (induction raws arbitrary: as)
  case (Cons raw raws)
  then show ?case
    by (cases as; cases "lib_NewMultiaddr lib raw"; cases "parse_advertised lib raws") auto
qed auto

end
