(* ===== verification/Cli.thy ===== *)
theory Cli
  imports Config Identity_Store Store_Laws Node Bootstrap Discovery
begin

text \<open>
  The command line: \<^verbatim>\<open>cmd/skall/main.go\<close> and \<^verbatim>\<open>internal/version/version.go\<close>. \<open>runCLI\<close> is the choice of a command from the
  arguments; each handler is an operation on the files, the database and the node. The environment, the user's
  configuration directory, the clock, faults and what libp2p returns are arguments. What a handler prints is a list of
  lines. The database of the program is the file at the path that \<open>openStore\<close> chooses.
\<close>

section \<open>Version\<close>

record BuildInfo =
  bi_Version :: string
  bi_GitCommit :: string
  bi_BuildDate :: string
  bi_GoVersion :: string
  bi_OS :: string
  bi_Arch :: string

text \<open>The values of an uninjected build; those of package \<open>runtime\<close> are arguments.\<close>

definition version_Info :: "string \<Rightarrow> string \<Rightarrow> string \<Rightarrow> BuildInfo" where
  "version_Info goVersion goos goarch =
     \<lparr>bi_Version = ''1.0.0'', bi_GitCommit = ''dev'', bi_BuildDate = ''unknown'', bi_GoVersion = goVersion, bi_OS = goos, bi_Arch = goarch\<rparr>"

definition version_String :: "BuildInfo \<Rightarrow> string" where
  "version_String i =
     ''SKALL v'' @ bi_Version i @ '' (commit: '' @ bi_GitCommit i @ '', built: '' @ bi_BuildDate i @ '', '' @ bi_GoVersion i
     @ '' '' @ bi_OS i @ ''/'' @ bi_Arch i @ '')''"

definition version_Short :: "BuildInfo \<Rightarrow> string" where
  "version_Short i = CHR ''v'' # bi_Version i"

section \<open>Arguments\<close>

definition parseListenAddr :: "string \<Rightarrow> string" where
  "parseListenAddr raw0 =
     (let raw = TrimSpace raw0 in
      if raw = [] then ''/ip4/0.0.0.0/tcp/0''
      else if has_prefix raw ''/'' then raw
      else if Atoi raw \<noteq> None then ''/ip4/0.0.0.0/tcp/'' @ raw
      else raw)"

definition is_listen :: "string \<Rightarrow> bool" where
  "is_listen a \<longleftrightarrow> a = ''--listen'' \<or> a = ''-l''"

definition is_peer :: "string \<Rightarrow> bool" where
  "is_peer a \<longleftrightarrow> a = ''--peer'' \<or> a = ''-p''"

text \<open>The flag loops, with the listen address and the peer addresses found so far. \<open>bare\<close> tells whether an argument that is
  not a flag is a listen address, as for the command \<open>p2p\<close>.\<close>

fun flag_loop :: "bool \<Rightarrow> string list \<Rightarrow> string \<times> string list \<Rightarrow> string \<times> string list" where
  "flag_loop bare [] acc = acc"
| "flag_loop bare [a] acc = (if bare \<and> \<not> has_prefix a ''-'' then (parseListenAddr a, snd acc) else acc)"
| "flag_loop bare (a # b # rest) acc =
     (if is_listen a then flag_loop bare rest (parseListenAddr b, snd acc)
      else if is_peer a then flag_loop bare rest (fst acc, snd acc @ [b])
      else if bare \<and> \<not> has_prefix a ''-'' then flag_loop bare (b # rest) (parseListenAddr a, snd acc)
      else flag_loop bare (b # rest) acc)"

datatype cli_action =
    RunTUI string "string list"
  | PrintVersion
  | PrintHelp
  | CmdIdentity "string list"
  | CmdPeers
  | CmdConnect "string list"
  | CmdGroups "string list"
  | CmdConfig "string list"
  | StartServerAt string
  | StartClientAt string
  | RunDiscover string
  | RunP2P string "string list"
  | UsageError
  | UnknownCommandError string

definition arg_or :: "string \<Rightarrow> string list \<Rightarrow> string" where
  "arg_or dflt rest = (case rest of [] \<Rightarrow> dflt | a # _ \<Rightarrow> a)"

definition runCLI :: "string list \<Rightarrow> cli_action" where
  "runCLI args =
     (case args of
        [] \<Rightarrow> RunTUI [] []
      | cmd # rest \<Rightarrow>
          if cmd = ''version'' \<or> cmd = ''--version'' \<or> cmd = ''-v'' then PrintVersion
          else if cmd = ''help'' \<or> cmd = ''--help'' \<or> cmd = ''-h'' then PrintHelp
          else if cmd = ''identity'' then CmdIdentity rest
          else if cmd = ''peers'' then CmdPeers
          else if cmd = ''connect'' then (if rest = [] then UsageError else CmdConnect rest)
          else if cmd = ''chat'' then
            (let target = arg_or [] rest in RunTUI [] (if has_prefix target ''/'' then [target] else []))
          else if cmd = ''groups'' then CmdGroups rest
          else if cmd = ''config'' then CmdConfig rest
          else if cmd = ''server'' then StartServerAt (arg_or ''localhost:4000'' rest)
          else if cmd = ''client'' then StartClientAt (arg_or ''localhost:4000'' rest)
          else if cmd = ''discover'' then RunDiscover (arg_or ''0.0.0.0:4000'' rest)
          else if cmd = ''p2p'' then (case flag_loop True rest ([], []) of (l, ps) \<Rightarrow> RunP2P l ps)
          else if cmd = ''tui'' then (case flag_loop False rest ([], []) of (l, ps) \<Rightarrow> RunTUI l ps)
          else if has_prefix cmd ''-'' then (case flag_loop False args ([], []) of (l, ps) \<Rightarrow> RunTUI l ps)
          else UnknownCommandError cmd)"

section \<open>Paths\<close>

definition db_DefaultPath :: "(string \<Rightarrow> string) \<Rightarrow> string + string \<Rightarrow> string + string" where
  "db_DefaultPath env ucd =
     (let override = TrimSpace (env ''SKALL_DB_PATH''); dataDir = TrimSpace (env ''SKALL_DATA_DIR'') in
      if override \<noteq> [] then Inr override
      else if dataDir \<noteq> [] then Inr (JoinPath [dataDir, ''skall.db''])
      else case ucd of Inl e \<Rightarrow> Inl e | Inr d \<Rightarrow> Inr (JoinPath [d, ''skall'', ''skall.db'']))"

text \<open>The path that \<open>openStore\<close> opens.\<close>

definition store_path :: "(string \<Rightarrow> string) \<Rightarrow> string + string \<Rightarrow> Config \<Rightarrow> string + string" where
  "store_path env ucd cfg =
     (let override = TrimSpace (env ''SKALL_DB_PATH''); dataDir = TrimSpace (env ''SKALL_DATA_DIR'') in
      if override \<noteq> [] then Inr override
      else if dataDir \<noteq> [] then Inr (JoinPath [dataDir, ''skall.db''])
      else if c_DataDir cfg \<noteq> [] then Inr (JoinPath [c_DataDir cfg, ''skall.db''])
      else db_DefaultPath env ucd)"

text \<open>The faults of opening the store, as in \<open>store_Open\<close>.\<close>

record open_faults =
  of_mkdir :: "string \<Rightarrow> string option"
  of_open :: "string option"
  of_drv :: faults
  of_check :: "string + string"
  of_now :: time

definition open_at :: "open_faults \<Rightarrow> string \<Rightarrow> Db \<Rightarrow> (store_error + Store) \<times> Db" where
  "open_at fl path d = store_Open (of_mkdir fl) (of_open fl) (of_drv fl) (of_check fl) (of_now fl) path d"

definition OpenDefault :: "open_faults \<Rightarrow> (string \<Rightarrow> string) \<Rightarrow> string + string \<Rightarrow> Db \<Rightarrow> (store_error + Store) \<times> Db" where
  "OpenDefault fl env ucd d =
     (case db_DefaultPath env ucd of
        Inl e \<Rightarrow> (Inl (ErrText (''resolve config dir: '' @ e)), d)
      | Inr path \<Rightarrow> open_at fl path d)"

definition openStore :: "open_faults \<Rightarrow> (string \<Rightarrow> string) \<Rightarrow> string + string \<Rightarrow> Config \<Rightarrow> Db \<Rightarrow> (store_error + Store) \<times> Db" where
  "openStore fl env ucd cfg d =
     (case store_path env ucd cfg of
        Inl e \<Rightarrow> (Inl (ErrText (''resolve config dir: '' @ e)), d)
      | Inr path \<Rightarrow> open_at fl path d)"

definition openIdentityStore :: "(string \<Rightarrow> string) \<Rightarrow> string + string \<Rightarrow> Config \<Rightarrow> id_store_error + id_Store" where
  "openIdentityStore env ucd cfg =
     (let override = TrimSpace (env ''SKALL_IDENTITY_PATH''); dataDir = TrimSpace (env ''SKALL_DATA_DIR'') in
      if override \<noteq> [] then Inr (id_NewStore override)
      else if dataDir \<noteq> [] then Inr (id_NewStore (JoinPath [dataDir, ''identity.json'']))
      else if c_DataDir cfg \<noteq> [] then Inr (id_NewStore (JoinPath [c_DataDir cfg, ''identity.json'']))
      else DefaultStore env ucd)"

section \<open>The local identity\<close>

datatype cli_error =
    CliIdentity id_store_error
  | CliStore store_error
  | CliConfig cfg_error
  | CliBuild build_error
  | CliParse
  | CliConnect string
  | CliText string

text \<open>The overrides of the configuration are saved when they change something; errors of these saves are ignored.\<close>

definition apply_overrides :: "(nat \<Rightarrow> save_faults) \<Rightarrow> Config \<Rightarrow> id_Store \<Rightarrow> Identity \<times> files \<Rightarrow> Identity \<times> files" where
  "apply_overrides sf cfg st p =
     (let (i, fs) = p;
          (i1, fs1) = (if c_DisplayName cfg \<noteq> [] \<and> c_DisplayName cfg \<noteq> i_DisplayName i
                       then (let j = i\<lparr>i_DisplayName := c_DisplayName cfg\<rparr> in (j, snd (id_Save (sf 0) st j fs))) else (i, fs))
      in if c_Username cfg \<noteq> [] \<and> c_Username cfg \<noteq> i_Username i1
         then (let j = i1\<lparr>i_Username := c_Username cfg\<rparr> in (j, snd (id_Save (sf 1) st j fs1))) else (i1, fs1))"

record run_env =
  re_env :: "string \<Rightarrow> string"
  re_ucd :: "string + string"
  re_pub :: "string \<Rightarrow> string"
  re_seed :: "string option"
  re_now :: time
  re_read :: "fs_error option"
  re_save :: "nat \<Rightarrow> save_faults"
  re_open :: open_faults
  re_drv :: "faults tape"
  re_clk :: "time tape"

definition loadLocalIdentity :: "run_env \<Rightarrow> Config \<Rightarrow> files \<times> Db \<Rightarrow> (cli_error + Identity) \<times> files \<times> Db" where
  "loadLocalIdentity e cfg w =
     (case openIdentityStore (re_env e) (re_ucd e) cfg of
        Inl er \<Rightarrow> (Inl (CliIdentity er), w)
      | Inr st \<Rightarrow>
          (case id_LoadOrCreate (re_pub e) (re_seed e) (re_now e) (re_read e) (re_save e 2) st (fst w) of
             (Inl er, fs) \<Rightarrow> (Inl (CliIdentity er), fs, snd w)
           | (Inr i0, fs0) \<Rightarrow>
               (case apply_overrides (re_save e) cfg st (i0, fs0) of
                  (i, fs) \<Rightarrow>
                    (case openStore (re_open e) (re_env e) (re_ucd e) cfg (snd w) of
                       (Inl er, d) \<Rightarrow> (Inl (CliStore er), fs, d)
                     | (Inr s, d) \<Rightarrow>
                         (case UpsertIdentityMetadata (re_drv e 0) (\<lambda>_. re_clk e 0) i d of
                            (Some er, d') \<Rightarrow> (Inl (CliStore er), fs, d')
                          | (None, d') \<Rightarrow> (Inr i, fs, d'))))))"

section \<open>Commands\<close>

text \<open>\<open>utf8.RuneCountInString\<close> and the verb \<open>%-<n>s\<close>, which pads with blanks to a number of runes.\<close>

fun rune_count :: "string \<Rightarrow> nat" where
  "rune_count [] = 0"
| "rune_count (c # s) = Suc (rune_count (drop (utf8_len (c # s) - 1) s))"

definition pad_right :: "nat \<Rightarrow> string \<Rightarrow> string" where
  "pad_right n s = s @ replicate (n - rune_count s) (CHR '' '')"

text \<open>\<open>Format("2006-01-02 15:04:05")\<close>.\<close>

definition format_datetime :: "time \<Rightarrow> string" where
  "format_datetime t =
     (let secs = t div second; day = secs div 86400; sod = secs mod 86400; (y, m, d) = civil day
      in pad_year y @ ''-'' @ padk 2 (int m + 1) @ ''-'' @ padk 2 (d + 1) @ '' ''
         @ padk 2 (sod div 3600) @ '':'' @ padk 2 (sod div 60 mod 60) @ '':'' @ padk 2 (sod mod 60))"

text \<open>A table line: padded columns with two blanks between them.\<close>

definition table_row :: "(nat \<times> string) list \<Rightarrow> string" where
  "table_row cells =
     (case map (\<lambda>(n, s). pad_right n s) cells of [] \<Rightarrow> [] | c # cs \<Rightarrow> c @ concat (map (\<lambda>x. ''  '' @ x) cs))"

text \<open>A line of output; \<open>%q\<close> is not expanded.\<close>

datatype out_line = Out string | OutCreatedGroup string string

definition join_blank :: "string list \<Rightarrow> string" where
  "join_blank ws = join_with (CHR '' '') ws"

definition handleIdentityCommand :: "run_env \<Rightarrow> (string \<Rightarrow> 'k option) \<Rightarrow> ('k \<Rightarrow> string option) \<Rightarrow> (time \<Rightarrow> string) \<Rightarrow> string list \<Rightarrow> Identity \<Rightarrow>
    Config \<Rightarrow> files \<times> Db \<Rightarrow> (cli_error + out_line list) \<times> files \<times> Db" where
  "handleIdentityCommand e conv pid rfc args i cfg w =
     (if 2 \<le> length args \<and> hd args = ''set-name'' then
        let newName = TrimSpace (join_blank (tl args)) in
        if newName = [] then (Inl (CliText ''display name cannot be empty''), w)
        else case openIdentityStore (re_env e) (re_ucd e) cfg of
          Inl er \<Rightarrow> (Inl (CliIdentity er), w)
        | Inr st \<Rightarrow>
            let j = i\<lparr>i_DisplayName := newName\<rparr> in
            (case id_Save (re_save e 0) st j (fst w) of
               (Some er, fs) \<Rightarrow> (Inl (CliIdentity er), fs, snd w)
             | (None, fs) \<Rightarrow>
                 (let d' = (case openStore (re_open e) (re_env e) (re_ucd e) cfg (snd w) of
                              (Inl er, d) \<Rightarrow> d
                            | (Inr s, d) \<Rightarrow> snd (UpsertIdentityMetadata (re_drv e 0) (\<lambda>_. re_clk e 0) j d))
                  in (Inr [Out (''Display name updated to: '' @ newName)], fs, d')))
      else
        (Inr (Out (Summary i rfc) # (case LibP2PPeerID conv pid i of
            Inl _ \<Rightarrow> []
          | Inr p \<Rightarrow> [Out (''libp2p Peer ID: '' @ p), Out (''Sample Multiaddr (port 9001): /ip4/127.0.0.1/tcp/9001/p2p/'' @ p)])), w))"

definition peer_line :: "StorePeer \<Rightarrow> out_line" where
  "peer_line p =
     Out (table_row [(16, if 16 < length (sp_PeerID p) then take 16 (sp_PeerID p) else sp_PeerID p), (20, sp_DisplayName p),
       (24, if IsZero (sp_LastSeen p) then ''never'' else format_datetime (sp_LastSeen p))])"

definition handlePeersCommand :: "run_env \<Rightarrow> Config \<Rightarrow> Db \<Rightarrow> (cli_error + out_line list) \<times> Db" where
  "handlePeersCommand e cfg d =
     (case openStore (re_open e) (re_env e) (re_ucd e) cfg d of
        (Inl er, d') \<Rightarrow> (Inl (CliStore er), d')
      | (Inr st, d') \<Rightarrow>
          (case ListPeers (re_drv e 0) d' of
             Inl er \<Rightarrow> (Inl (CliStore er), d')
           | Inr peers \<Rightarrow>
               (Inr (if peers = [] then [Out ''No known peers found in local store.'']
                     else [Out (table_row [(16, ''PEER ID''), (20, ''DISPLAY NAME''), (24, ''LAST SEEN'')]),
                           Out (table_row [(16, replicate 16 (CHR ''-'')), (20, replicate 20 (CHR ''-'')), (24, replicate 24 (CHR ''-''))])]
                          @ map peer_line peers), d')))"

definition handleGroupsCommand :: "run_env \<Rightarrow> string list \<Rightarrow> Config \<Rightarrow> Db \<Rightarrow> (cli_error + out_line list) \<times> Db" where
  "handleGroupsCommand e args cfg d =
     (case openStore (re_open e) (re_env e) (re_ucd e) cfg d of
        (Inl er, d') \<Rightarrow> (Inl (CliStore er), d')
      | (Inr st, d') \<Rightarrow>
          if 2 \<le> length args \<and> hd args = ''create'' then
            let groupID = args ! 1; groupName = (if 2 < length args then join_blank (drop 2 args) else groupID) in
            (case UpsertGroup (re_drv e 0) (\<lambda>k. re_clk e (Suc k)) groupID groupName (re_clk e 0) d' of
               (Some er, d2) \<Rightarrow> (Inl (CliStore er), d2)
             | (None, d2) \<Rightarrow> (Inr [OutCreatedGroup groupName groupID], d2))
          else (case store_ListGroups (re_drv e 0) d' of
             Inl er \<Rightarrow> (Inl (CliStore er), d')
           | Inr gs \<Rightarrow>
               (Inr (if gs = [] then [Out ''No groups found. Create one with: skall groups create <id> [name]'']
                     else [Out (table_row [(16, ''GROUP ID''), (24, ''NAME''), (24, ''CREATED AT'')]),
                           Out (table_row [(16, replicate 16 (CHR ''-'')), (24, replicate 24 (CHR ''-'')), (24, replicate 24 (CHR ''-''))])]
                          @ map (\<lambda>g. Out (table_row [(16, sg_GroupID g), (24, sg_Name g), (24, format_datetime (sg_CreatedAt g))])) gs), d')))"

definition handleConfigCommand :: "'ma p2p_lib \<Rightarrow> run_env \<Rightarrow> string list \<Rightarrow> Config \<Rightarrow> files \<Rightarrow> (cli_error + out_line list) \<times> files" where
  "handleConfigCommand lib e args cfg fs =
     (let sub = arg_or ''show'' args in
      if sub = ''path'' then
        (case DefaultConfigPath (re_env e) (re_ucd e) of Inl er \<Rightarrow> (Inl (CliConfig er), fs) | Inr path \<Rightarrow> (Inr [Out path], fs))
      else if sub = ''init'' then
        (case DefaultConfigPath (re_env e) (re_ucd e) of
           Inl er \<Rightarrow> (Inl (CliConfig er), fs)
         | Inr path \<Rightarrow>
             (case cfg_Save lib (re_env e) (re_save e 0) path (DefaultConfig (re_env e) (re_ucd e)) fs of
                (Some er, fs') \<Rightarrow> (Inl (CliConfig er), fs')
              | (None, fs') \<Rightarrow> (Inr [Out (''Initialized configuration at '' @ path)], fs')))
      else (Inr [Out (print_indent (config_json cfg))], fs))"

section \<open>Flags\<close>

text \<open>The flags of the options section of the help text.\<close>

datatype flag = FListen string | FPeer string

fun flag_args :: "flag \<Rightarrow> string list" where
  "flag_args (FListen a) = [''--listen'', a]"
| "flag_args (FPeer a) = [''--peer'', a]"

fun flag_value :: "flag \<Rightarrow> string \<times> string list \<Rightarrow> string \<times> string list" where
  "flag_value (FListen a) acc = (parseListenAddr a, snd acc)"
| "flag_value (FPeer a) acc = (fst acc, snd acc @ [a])"

lemma flag_loop_flags: "flag_loop bare (concat (map flag_args fs)) acc = fold flag_value fs acc"
proof (induction fs arbitrary: acc)
  case (Cons f fs)
  then show ?case by (cases f) (simp_all add: is_listen_def is_peer_def)
qed simp

text \<open>A peer id given to \<open>chat\<close> is ignored: only a target that begins with a slash is used.\<close>

lemma chat_ignores_peer_id: "\<not> has_prefix target ''/'' \<Longrightarrow> runCLI [''chat'', target] = runCLI []"
  by (simp add: runCLI_def arg_or_def)

text \<open>A flag without a value is ignored as well.\<close>

lemma dangling_flag_ignored: "runCLI [''tui'', ''--listen''] = runCLI []"
  by (simp add: runCLI_def)

section \<open>Names\<close>

definition clean_open :: "time \<Rightarrow> open_faults" where
  "clean_open now = \<lparr>of_mkdir = (\<lambda>_. None), of_open = None, of_drv = no_faults, of_check = Inr ''ok'', of_now = now\<rparr>"

text \<open>A run in which no file and no database operation fails.\<close>

definition clean_run :: "run_env \<Rightarrow> bool" where
  "clean_run e \<longleftrightarrow> re_read e = None \<and> re_save e = (\<lambda>_. no_save_faults) \<and> (\<exists>now. re_open e = clean_open now) \<and> re_drv e = (\<lambda>_. no_faults)"

lemma openStore_clean:
  assumes "clean_run e" "store_path (re_env e) (re_ucd e) cfg = Inr path" "TrimSpace path \<noteq> []" "db_inv d"
  shows "\<exists>st d'. openStore (re_open e) (re_env e) (re_ucd e) cfg d = (Inr st, d') \<and> db_ready d'
    \<and> db_groups d' = db_groups d \<and> db_memberships d' = db_memberships d \<and> db_messages d' = db_messages d \<and> store_step d d'"
proof -
  obtain now where now: "re_open e = clean_open now" using assms(1) by (auto simp: clean_run_def)
  let ?o = "store_Open (\<lambda>_. None) None no_faults (Inr ''ok'') now path d"
  let ?d = "snd (applyMigrations no_faults now d)"
  have o: "?o = (Inr \<lparr>s_path = TrimSpace path, s_closed = False\<rparr>, ?d)" and n: "fst (applyMigrations no_faults now d) = None"
    using store_Open_clean [OF assms(3), of now d] by blast+
  have "applyMigrations no_faults now d = (None, ?d)" by (metis n prod.collapse)
  note rows = applyMigrations_rows [OF this]
  have "store_step d ?d" using step_open [of d "\<lambda>_. None" None no_faults "Inr ''ok''" now path] by (simp add: o)
  moreover have "db_ready ?d" using store_Open_inv [OF assms(4) o] by simp
  ultimately show ?thesis using o rows assms(2) by (simp add: openStore_def open_at_def now clean_open_def)
qed

lemma UpsertIdentity_clean:
  assumes "db_ready d" "ValidateIdentity i = None"
  shows "fst (UpsertIdentityMetadata no_faults clk i d) = None" "db_ready (snd (UpsertIdentityMetadata no_faults clk i d))"
  using assms on_table_ready [OF assms(1)] UpsertIdentityMetadata_inv [of d no_faults clk i]
  by (auto simp: UpsertIdentityMetadata_def Let_def db_ready_def)

lemma ValidateIdentity_names:
  "ValidateIdentity i = None \<Longrightarrow> TrimSpace n \<noteq> [] \<Longrightarrow> ValidateIdentity (i\<lparr>i_DisplayName := n\<rparr>) = None"
  "ValidateIdentity i = None \<Longrightarrow> TrimSpace n \<noteq> [] \<Longrightarrow> ValidateIdentity (i\<lparr>i_Username := n\<rparr>) = None"
  by (auto simp: ValidateIdentity_iff)

definition named_by :: "Config \<Rightarrow> Identity \<Rightarrow> Identity" where
  "named_by cfg i = i\<lparr>i_DisplayName := (if c_DisplayName cfg = [] then i_DisplayName i else c_DisplayName cfg),
     i_Username := (if c_Username cfg = [] then i_Username i else c_Username cfg)\<rparr>"

lemma apply_overrides_named: "fst (apply_overrides sf cfg st (i, fs)) = named_by cfg i"
  by (simp add: apply_overrides_def named_by_def Let_def)

text \<open>A later start, when the file holds a valid identity: the names of the configuration win over those of the file.\<close>

lemma loadLocalIdentity_clean:
  assumes "clean_run e" "openIdentityStore (re_env e) (re_ucd e) cfg = Inr st" "id_Load None st fs = Inr i"
    and "store_path (re_env e) (re_ucd e) cfg = Inr path" "TrimSpace path \<noteq> []" "db_inv d"
    and "ValidateIdentity i = None" "c_DisplayName cfg = [] \<or> TrimSpace (c_DisplayName cfg) \<noteq> []" "c_Username cfg = [] \<or> TrimSpace (c_Username cfg) \<noteq> []"
  shows "fst (loadLocalIdentity e cfg (fs, d)) = Inr (named_by cfg i)"
proof -
  let ?n = "named_by cfg i"
  have v: "ValidateIdentity ?n = None"
    using assms(7-9) by (auto simp: named_by_def ValidateIdentity_iff)
  have read: "re_read e = None" "re_drv e = (\<lambda>_. no_faults)" using assms(1) by (simp_all add: clean_run_def)
  obtain st' d' where o: "openStore (re_open e) (re_env e) (re_ucd e) cfg d = (Inr st', d')" "db_ready d'"
    using openStore_clean [OF assms(1,4,5,6)] by blast
  obtain fs' where ov: "apply_overrides (re_save e) cfg st (i, fs) = (?n, fs')"
    using apply_overrides_named [of "re_save e" cfg st i fs] by (metis prod.collapse)
  have up: "fst (UpsertIdentityMetadata no_faults (\<lambda>_. re_clk e 0) ?n d') = None" by (rule UpsertIdentity_clean(1) [OF o(2) v])
  have "id_LoadOrCreate (re_pub e) (re_seed e) (re_now e) None (re_save e 2) st fs = (Inr i, fs)"
    using assms(3) by (simp add: id_LoadOrCreate_def)
  then show ?thesis
    using assms(2) ov o(1) up by (simp add: loadLocalIdentity_def read prod.case_eq_if split: option.split)
qed

text \<open>\<open>identity set-name\<close> stores the new display name, and the next start finds the same identity with that name,
  unless the configuration file has a display name of its own, which then wins over the one that was set.\<close>

theorem set_name_next_start:
  fixes conv :: "string \<Rightarrow> 'k option"
  assumes "clean_run e" "clean_run e'" "re_env e' = re_env e" "re_ucd e' = re_ucd e"
    and "openIdentityStore (re_env e) (re_ucd e) cfg = Inr st" "store_path (re_env e) (re_ucd e) cfg = Inr path" "TrimSpace path \<noteq> []"
    and "db_inv d" "ValidateIdentity i = None" "valid_utf8 (i_Username i)" "printable_time (i_CreatedAt i)"
    and "ws \<noteq> []" "TrimSpace (join_blank ws) = n" "n \<noteq> []" "valid_utf8 n"
    and "c_DisplayName cfg = [] \<or> TrimSpace (c_DisplayName cfg) \<noteq> []" "c_Username cfg = []"
  shows "\<exists>fs' d'. handleIdentityCommand e conv pid rfc (''set-name'' # ws) i cfg (fs, d) = (Inr [Out (''Display name updated to: '' @ n)], fs', d')
    \<and> fst (loadLocalIdentity e' cfg (fs', d')) = Inr (i\<lparr>i_DisplayName := (if c_DisplayName cfg = [] then n else c_DisplayName cfg)\<rparr>)"
proof -
  let ?j = "i\<lparr>i_DisplayName := n\<rparr>"
  have tn: "TrimSpace n \<noteq> []" using assms(13,14) by (metis TrimSpace_idem)
  have v: "ValidateIdentity ?j = None" by (rule ValidateIdentity_names(1) [OF assms(9) tn])
  have save: "re_save e 0 = no_save_faults" "re_drv e = (\<lambda>_. no_faults)" using assms(1) by (simp_all add: clean_run_def)
  obtain fs' where fs': "id_Save no_save_faults st ?j fs = (None, fs')" "id_Load None st fs' = Inr ?j"
    using Load_Save [OF v, of st fs] assms(10,11,15) by (cases "id_Save no_save_faults st ?j fs") auto
  obtain st' d1 where o: "openStore (re_open e) (re_env e) (re_ucd e) cfg d = (Inr st', d1)" "db_ready d1"
    using openStore_clean [OF assms(1,6,7,8)] by blast
  let ?d = "snd (UpsertIdentityMetadata no_faults (\<lambda>_. re_clk e 0) ?j d1)"
  have "handleIdentityCommand e conv pid rfc (''set-name'' # ws) i cfg (fs, d) = (Inr [Out (''Display name updated to: '' @ n)], fs', ?d)"
    using assms(5,12-14) fs'(1) o(1) by (cases ws) (simp_all add: handleIdentityCommand_def Let_def save)
  moreover have "db_inv ?d" using UpsertIdentity_clean(2) [OF o(2) v] by (simp add: db_ready_def)
  then have "fst (loadLocalIdentity e' cfg (fs', ?d)) = Inr (named_by cfg ?j)"
    using assms(2-7,16,17) fs'(2) v by (intro loadLocalIdentity_clean) simp_all
  moreover have "named_by cfg ?j = i\<lparr>i_DisplayName := (if c_DisplayName cfg = [] then n else c_DisplayName cfg)\<rparr>"
    using assms(17) by (simp add: named_by_def)
  ultimately show ?thesis by auto
qed

definition demo_run :: run_env where
  "demo_run = \<lparr>re_env = (\<lambda>_. []), re_ucd = Inl ''no home'', re_pub = demo_key, re_seed = None, re_now = 5, re_read = None,
     re_save = (\<lambda>_. no_save_faults), re_open = clean_open 5, re_drv = (\<lambda>_. no_faults), re_clk = (\<lambda>_. 5)\<rparr>"

lemma demo_run_clean: "clean_run demo_run"
  by (auto simp: clean_run_def demo_run_def)

lemma demo_paths:
  "openIdentityStore (re_env demo_run) (re_ucd demo_run) demo_valid_config = Inr (id_NewStore ''/data/identity.json'')"
  "store_path (re_env demo_run) (re_ucd demo_run) demo_valid_config = Inr ''/data/skall.db''" "TrimSpace ''/data/skall.db'' \<noteq> []"
  "valid_utf8 (i_Username demo_identity)" "printable_time (i_CreatedAt demo_identity)" "TrimSpace (join_blank [''New'', ''Ann'']) = ''New Ann''"
  "valid_utf8 ''New Ann''" "TrimSpace (c_DisplayName demo_valid_config) \<noteq> []"
proof -
  have [simp]: "re_env demo_run = (\<lambda>_. [])" "re_ucd demo_run = Inl ''no home''" by (simp_all add: demo_run_def)
  have "JoinPath [''/data'', ''identity.json''] = ''/data/identity.json''" "JoinPath [''/data'', ''skall.db''] = ''/data/skall.db''" by code_simp+
  then show "openIdentityStore (re_env demo_run) (re_ucd demo_run) demo_valid_config = Inr (id_NewStore ''/data/identity.json'')"
    "store_path (re_env demo_run) (re_ucd demo_run) demo_valid_config = Inr ''/data/skall.db''"
    by (simp_all add: openIdentityStore_def store_path_def demo_valid_config_def)
  have [simp]: "i_Username demo_identity = ''ann''" "i_CreatedAt demo_identity = 5" by (simp_all add: demo_identity_def)
  have "valid_utf8 ''ann''" "printable_time 5" by code_simp+
  then show "valid_utf8 (i_Username demo_identity)" "printable_time (i_CreatedAt demo_identity)" by simp_all
  show "TrimSpace ''/data/skall.db'' \<noteq> []" "TrimSpace (join_blank [''New'', ''Ann'']) = ''New Ann''" "valid_utf8 ''New Ann''"
    "TrimSpace (c_DisplayName demo_valid_config) \<noteq> []"
    by code_simp+
qed

theorem set_name_next_start_witness:
  "\<exists>fs' d'. handleIdentityCommand demo_run (\<lambda>k. Some k) (\<lambda>k. None) FormatNano [''set-name'', ''New'', ''Ann''] demo_identity demo_valid_config ([], empty_db)
      = (Inr [Out (''Display name updated to: '' @ ''New Ann'')], fs', d')
    \<and> fst (loadLocalIdentity demo_run demo_valid_config (fs', d')) = Inr (demo_identity\<lparr>i_DisplayName := ''Ann''\<rparr>)"
proof -
  have c: "c_DisplayName demo_valid_config = ''Ann''" "c_Username demo_valid_config = []"
    by (simp_all add: demo_valid_config_def demo_config_def)
  show ?thesis
    using set_name_next_start [OF demo_run_clean demo_run_clean refl refl demo_paths(1-3) empty_db_inv demo_identity_valid demo_paths(4,5) _ demo_paths(6) _ demo_paths(7),
        of "\<lambda>k. Some k" "\<lambda>k. None" FormatNano "[]"] demo_paths(8)
    by (simp add: c)
qed

section \<open>Configuration and its users\<close>

text \<open>The mode \<open>disabled\<close> with a blank around it passes the validation of the configuration, but the DHT manager compares it
  untrimmed and starts.\<close>

lemma padded_disabled_starts_dht:
  "fst (cfg_Validate demo_lib (\<lambda>_. []) demo_config) = None \<and> n_DHTMode (c_Network demo_config) = '' Disabled ''
   \<and> (\<exists>dm. NewDHTManager h \<lparr>dc_Mode = '' Disabled '', dc_ProtocolPrefix = [], dc_Namespace = [], dc_PollInterval = 0, dc_RecordTTL = 0\<rparr> = Inr (Some dm))"
proof -
  have "\<not> EqualFold '' Disabled '' ''disabled''" "ToLower (TrimSpace '' Disabled '') = ''disabled''" by code_simp+
  then show ?thesis
    by (simp add: demo_config_valid NewDHTManager_def DHTModeDisabled_def DHTModeAuto_def DHTModeClient_def DHTModeServer_def Let_def)
      (simp add: demo_config_def)
qed

text \<open>An advertised address with a blank around it passes the validation too, which trims it, but a library that refuses
  blanks makes the node fail to start, because the builder does not trim.\<close>

lemma padded_address_fails_build:
  assumes "lib_NewMultiaddr lib raw = None" "lib_NewMultiaddr lib (TrimSpace raw) = Some a" "TrimSpace raw \<noteq> []"
  shows "ValidateMultiaddr lib raw = None \<and> parse_advertised lib (raw # rest) = Inl (BuildAdvertised raw)"
  using assms by (simp add: ValidateMultiaddr_def Let_def)

text \<open>The terminal client opens the default database, not the one in the configured data directory.\<close>

lemma client_database_ignores_config:
  "store_path (\<lambda>_. []) (Inr ''/home/a/.config'') demo_valid_config = Inr ''/data/skall.db''
   \<and> db_DefaultPath (\<lambda>_. []) (Inr ''/home/a/.config'') = Inr ''/home/a/.config/skall/skall.db''"
  by code_simp

end
