(* ===== verification/Runtime.thy ===== *)
theory Runtime
  imports Cli Chat_Laws Tcp_Server
begin

text \<open>
  The running program: the parts of \<^verbatim>\<open>cmd/skall/main.go\<close> that put the components together (\<open>connect\<close>, \<open>p2p\<close>, \<open>discover\<close>
  and the terminal interface). The network side, the outcomes of dials and of libp2p, is the argument \<open>nw\<close>; goroutines that
  are started here have their own models in the theories of their components.
\<close>

section \<open>Network side\<close>

text \<open>What the third-party libraries and the network do in one run: \<open>nw_String\<close> is \<open>peer.ID.String\<close>, \<open>nw_dial k\<close> the outcome
  of the dial to the \<open>k\<close>-th target, and \<open>nw_order\<close>, \<open>nw_boot\<close>, \<open>nw_dur\<close> describe the dials of \<open>ConnectAll\<close>.\<close>

record ('k, 'ma) network =
  nw_lib :: "'ma p2p_lib"
  nw_conv :: "string \<Rightarrow> 'k option"
  nw_new :: "('k, 'ma) libp2p_option list \<Rightarrow> string + 'ma libhost"
  nw_mdns :: "string option"
  nw_String :: "string \<Rightarrow> string"
  nw_dial :: "nat \<Rightarrow> string option"
  nw_order :: "nat list"
  nw_boot :: "nat \<Rightarrow> string option"
  nw_dur :: "nat \<Rightarrow> duration"

definition config_options :: "Config \<Rightarrow> string \<Rightarrow> 'ma NodeOptions" where
  "config_options cfg listenAddr =
     \<lparr>no_ListenAddrs = (if listenAddr \<noteq> [] then [listenAddr] else n_ListenAddrs (c_Network cfg)),
      no_EnableMDNS = n_EnableMDNS (c_Network cfg), no_EnableNATPortMap = True, no_EnableAutoNAT = n_EnableAutoNAT (c_Network cfg),
      no_EnableRelay = n_EnableRelay (c_Network cfg), no_EnableHolePunch = n_EnableHolePunch (c_Network cfg),
      no_AdvertisedAddrs = n_AdvertisedAddrs (c_Network cfg), no_StaticRelayPeers = []\<rparr>"

definition buildNodeFromConfig :: "('k, 'ma) network \<Rightarrow> Identity \<Rightarrow> Config \<Rightarrow> string \<Rightarrow> build_error + 'ma Node" where
  "buildNodeFromConfig nw i cfg listenAddr =
     BuildNodeWithOptions (nw_lib nw) (nw_conv nw) (nw_new nw) (nw_mdns nw) i (config_options cfg listenAddr)"

text \<open>What \<open>connectPeerTargets\<close> logs for a target.\<close>

datatype target_outcome = TargetInvalid | TargetFailed string | TargetConnected

definition connect_target :: "('k, 'ma) network \<Rightarrow> 'ma Node \<Rightarrow> nat \<times> string \<Rightarrow> target_outcome" where
  "connect_target nw n p =
     (case ParsePeerAddr (nw_lib nw) (snd p) [] of
        Inl _ \<Rightarrow> TargetInvalid
      | Inr pi \<Rightarrow> (case fst (nd_Connect (nw_dial nw (fst p)) pi n) of Some e \<Rightarrow> TargetFailed e | None \<Rightarrow> TargetConnected))"

definition connectPeerTargets :: "('k, 'ma) network \<Rightarrow> 'ma Node \<Rightarrow> string list \<Rightarrow> target_outcome list" where
  "connectPeerTargets nw n addrs = map (connect_target nw n) (zip [0..<length addrs] addrs)"

section \<open>Network services\<close>

record 'ma networkRuntime =
  rt_bootstrap :: "'ma BootstrapManager option"
  rt_dht :: "'ma DHTManager option"

definition rt_Close :: "'ma networkRuntime option \<Rightarrow> 'ma networkRuntime option" where
  "rt_Close rt = map_option (\<lambda>r. r\<lparr>rt_bootstrap := map_option bm_Close (rt_bootstrap r), rt_dht := dm_Close (rt_dht r)\<rparr>) rt"

datatype service_error = ServiceBootstrap bootstrap_error | ServiceDHT dht_error

definition dht_config :: "Config \<Rightarrow> DHTConfig" where
  "dht_config cfg = \<lparr>dc_Mode = n_DHTMode (c_Network cfg), dc_ProtocolPrefix = [], dc_Namespace = n_DHTNamespace (c_Network cfg),
     dc_PollInterval = 30 * second, dc_RecordTTL = 15 * 60 * second\<rparr>"

definition startNetworkServices :: "('k, 'ma) network \<Rightarrow> 'ma Node \<Rightarrow> Config \<Rightarrow> service_error + 'ma networkRuntime" where
  "startNetworkServices nw n cfg =
     (let boot = (if n_BootstrapPeers (c_Network cfg) = [] then Inr None
                  else case NewBootstrapManager (nw_lib nw) (Some (nd_ID n)) (n_BootstrapPeers (c_Network cfg)) DefaultBackoffConfig of
                    Inl e \<Rightarrow> Inl (ServiceBootstrap e)
                  | Inr bm \<Rightarrow> Inr (Some (snd (ConnectAll (nw_order nw) (nw_boot nw) (nw_dur nw) bm))))
      in case boot of
           Inl e \<Rightarrow> Inl e
         | Inr b \<Rightarrow>
             (case NewDHTManager (nd_host n) (dht_config cfg) of
                Inl e \<Rightarrow> Inl (ServiceDHT e)
              | Inr d \<Rightarrow> Inr \<lparr>rt_bootstrap = b, rt_dht = d\<rparr>))"

text \<open>The callback of \<open>StartDiscovery\<close>: whether it dials the peer.\<close>

definition dht_found :: "'ma Node \<Rightarrow> 'ma AddrInfo \<Rightarrow> bool" where
  "dht_found n pi \<longleftrightarrow> ai_ID pi \<noteq> nd_ID n"

section \<open>Commands on the network\<close>

definition handleConnectCommand :: "('k, 'ma) network \<Rightarrow> run_env \<Rightarrow> string list \<Rightarrow> Identity \<Rightarrow> Config \<Rightarrow> Db \<Rightarrow> (cli_error + out_line list) \<times> Db" where
  "handleConnectCommand nw e args i cfg d =
     (case args of
        [] \<Rightarrow> (Inl (CliText ''target address is required''), d)
      | a # rest \<Rightarrow>
          let target = TrimSpace a; peerID = TrimSpace (arg_or [] rest) in
          (case ParsePeerAddr (nw_lib nw) target peerID of
             Inl _ \<Rightarrow> (Inl CliParse, d)
           | Inr pi \<Rightarrow>
               (case BuildNodeWithOptions (nw_lib nw) (nw_conv nw) (nw_new nw) (nw_mdns nw) i (plain_options [''/ip4/0.0.0.0/tcp/0''] False False) of
                  Inl er \<Rightarrow> (Inl (CliBuild er), d)
                | Inr n \<Rightarrow>
                    (case fst (nd_Connect (nw_dial nw 0) pi n) of
                       Some er \<Rightarrow> (Inl (CliConnect er), d)
                     | None \<Rightarrow>
                         (Inr [Out (''Successfully connected to peer: '' @ nw_String nw (ai_ID pi))],
                          (case openStore (re_open e) (re_env e) (re_ucd e) cfg d of
                             (Inl er, d') \<Rightarrow> d'
                           | (Inr st, d') \<Rightarrow> snd (UpsertPeer (re_drv e 0) (\<lambda>k. re_clk e (Suc k)) (nw_String nw (ai_ID pi)) (nw_String nw (ai_ID pi)) (re_clk e 0) d')))))))"

text \<open>One input line of \<open>p2p\<close>: the message and the connected peers it goes to, in order.\<close>

definition p2p_line :: "time \<Rightarrow> Identity \<Rightarrow> string list \<Rightarrow> string \<Rightarrow> (Message \<times> string list) option" where
  "p2p_line now i connected raw =
     (let line = TrimSpace raw in if line = [] then None else Some (NewChatMessage now (i_PeerID i) [] [] line, connected))"

definition runP2P :: "('k, 'ma) network \<Rightarrow> ('k \<Rightarrow> string option) \<Rightarrow> Identity \<Rightarrow> Config \<Rightarrow> string \<Rightarrow> string list \<Rightarrow>
    (build_error + service_error + identity_error) + ('ma Node \<times> 'ma networkRuntime \<times> target_outcome list)" where
  "runP2P nw pid i cfg listenAddr peerAddrs =
     (case buildNodeFromConfig nw i cfg listenAddr of
        Inl e \<Rightarrow> Inl (Inl e)
      | Inr n \<Rightarrow> (case startNetworkServices nw n cfg of
        Inl e \<Rightarrow> Inl (Inr (Inl e))
      | Inr rt \<Rightarrow> (case LibP2PPeerID (nw_conv nw) pid i of
        Inl e \<Rightarrow> Inl (Inr (Inr e))
      | Inr p \<Rightarrow> Inr (SetMessageHandler n, rt, connectPeerTargets nw n peerAddrs))))"

text \<open>\<open>runDiscover\<close> up to the point where it waits: the server, the discovery and the connection manager. The slice
  \<open>PeerID[:8]\<close> of the announcement panics for a shorter id.\<close>

datatype discover_error = DiscListen string | DiscAddr addr_error | DiscPort string | DiscAnnounce string | DiscStart string | DiscPanic

definition runDiscover :: "string + string \<Rightarrow> string option \<Rightarrow> orders \<Rightarrow> string option \<Rightarrow> string + ServiceEntry option list \<Rightarrow> Identity \<Rightarrow> string \<Rightarrow>
    discover_error + (Server \<times> MDNSDiscovery \<times> ConnManager)" where
  "runDiscover bound reg shuf factory browse i address =
     (case Listen bound (NewServer address) of
        (Some e, s) \<Rightarrow> Inl (DiscListen e)
      | (None, s) \<Rightarrow> (case SplitHostPort (sv_Addr s) of
        Inl e \<Rightarrow> Inl (DiscAddr e)
      | Inr (h, portStr) \<Rightarrow> (case Atoi portStr of
        None \<Rightarrow> Inl (DiscPort portStr)
      | Some port \<Rightarrow>
          if port = 0 then Inl (DiscPort portStr)
          else
            let md = NewMDNSDiscovery \<lparr>pi_PeerID = i_PeerID i, pi_DisplayName = i_DisplayName i, pi_Host = ''localhost'', pi_Port = port\<rparr> DefaultMDNSConfig
            in case Announce reg port md of
                 Inl e \<Rightarrow> Inl (DiscAnnounce e)
               | Inr _ \<Rightarrow>
                   if length (i_PeerID i) < 8 then Inl DiscPanic
                   else (case md_Start shuf factory browse md of
                     (Some e, md') \<Rightarrow> Inl (DiscStart e)
                   | (None, md') \<Rightarrow> Inr (s, md', NewConnManager)))))"

section \<open>The terminal interface\<close>

datatype tui_error = TuiBuild build_error | TuiServices service_error | TuiStore store_error | TuiProgram string

text \<open>\<open>runTUI\<close> up to the event loop of the interface: the service it works on and the rest of the run's state.\<close>

definition tui_start :: "('k, 'ma) network \<Rightarrow> run_env \<Rightarrow> Identity \<Rightarrow> Config \<Rightarrow> string \<Rightarrow> string list \<Rightarrow> Db \<Rightarrow>
    (tui_error + (P2PService \<times> 'ma Node \<times> 'ma networkRuntime \<times> target_outcome list)) \<times> Db" where
  "tui_start nw e i cfg listenAddr peerAddrs d =
     (case buildNodeFromConfig nw i cfg listenAddr of
        Inl er \<Rightarrow> (Inl (TuiBuild er), d)
      | Inr n \<Rightarrow> (case startNetworkServices nw n cfg of
        Inl er \<Rightarrow> (Inl (TuiServices er), d)
      | Inr rt \<Rightarrow>
          let dialled = connectPeerTargets nw n (peerAddrs @ n_BootstrapPeers (c_Network cfg))
          in case openStore (re_open e) (re_env e) (re_ucd e) cfg d of
               (Inl er, d') \<Rightarrow> (Inl (TuiStore er), d')
             | (Inr st, d') \<Rightarrow>
                 (Inr (NewP2PService i d' (snd (LoadFromStore (re_drv e) d' NewManager)), SetMessageHandler n, rt, dialled), d')))"

text \<open>The end of \<open>runTUI\<close>: the service and the store are closed however the program ended.\<close>

definition tui_finish :: "string option \<Rightarrow> P2PService \<Rightarrow> tui_error option \<times> P2PService" where
  "tui_finish err s = (map_option TuiProgram err, svc_Close s)"

section \<open>Start of the program\<close>

definition main_config :: "'ma p2p_lib \<Rightarrow> (string \<Rightarrow> string) \<Rightarrow> run_env \<Rightarrow> files \<Rightarrow> Config \<times> files" where
  "main_config lib ltext e fs =
     (case cfg_LoadOrCreate lib ltext (re_env e) (re_ucd e) (re_read e) (re_save e 3) fs of
        (Inl er, fs') \<Rightarrow> (DefaultConfig (re_env e) (re_ucd e), fs')
      | (Inr cfg, fs') \<Rightarrow> (cfg, fs'))"

text \<open>\<open>main\<close> up to the dispatch: configuration, identity, and the command chosen by the arguments.\<close>

definition main :: "'ma p2p_lib \<Rightarrow> (string \<Rightarrow> string) \<Rightarrow> run_env \<Rightarrow> string list \<Rightarrow> files \<times> Db \<Rightarrow> (cli_error + (cli_action \<times> Identity \<times> Config)) \<times> files \<times> Db" where
  "main lib ltext e args w =
     (case main_config lib ltext e (fst w) of
        (cfg, fs) \<Rightarrow>
          (case loadLocalIdentity e cfg (fs, snd w) of
             (Inl er, w') \<Rightarrow> (Inl er, w')
           | (Inr i, w') \<Rightarrow> (Inr (runCLI args, i, cfg), w')))"

section \<open>The node as the host of the service\<close>

fun send_text :: "node_error \<Rightarrow> string" where
  "send_text NodeSelf = ''cannot send message to self''"
| "send_text (NodeOpenStream e) = ''open stream: '' @ e"
| "send_text (NodeDeadline e) = ''set stream deadline: '' @ e"
| "send_text (NodeWrite r) = ''write message''"

text \<open>The host that \<open>runTUI\<close> gives to the service, for a node whose streams open and whose writes behave like \<open>wr\<close>. A writer
  without progress would block the call; the laws exclude it.\<close>

definition node_host :: "(string \<Rightarrow> string) \<Rightarrow> (string \<Rightarrow> string option) \<Rightarrow> (Identity \<Rightarrow> string option) \<Rightarrow> string list \<Rightarrow> writer \<Rightarrow> 'ma Node \<Rightarrow> string host" where
  "node_host pstr dec self connected wr n =
     \<lparr>h_String = pstr, h_Decode = dec, h_Self = self, h_Connected = connected,
      h_Send = (\<lambda>p m. case nd_SendMessage None None wr p m n of
         None \<Rightarrow> Some ''blocked'' | Some (err, out, reset) \<Rightarrow> map_option send_text err)\<rparr>"

lemma nd_SendMessage_whole:
  assumes "progressive wr" "faultless wr" "sendable m" "p \<noteq> nd_ID n"
  shows "nd_SendMessage None None wr p m n = Some (None, message_frame m, False)"
proof -
  obtain k where "WriteMessage wr m (0, []) = Some (Wrote, k, message_frame m)"
    using WriteMessage_sendable [OF assms(1-3), of "(0, [])"] by auto
  then show ?thesis using assms(4) by (simp add: nd_SendMessage_def)
qed

lemma handleInbound_stores:
  assumes "svc_inv s" "sendable m" "TrimSpace (ID m) = ID m" "map_of (db_messages (svc_db s)) (ID m) = None" "length (h_String h q) \<le> 512"
  shows "\<exists>x. GetMessage no_faults (ID m) (svc_db (handleInbound h (\<lambda>_. no_faults) clk m q s)) = Inr x
    \<and> st_Message x = m\<lparr>RecipientID := TrimSpace (RecipientID m), GroupID := TrimSpace (GroupID m)\<rparr>
    \<and> st_Direction x = ''inbound'' \<and> st_Status x = ''received''"
proof -
  have v: "Validate m = None" "printable_time (Timestamp m)" using assms(2) by (simp_all add: sendable_def)
  have ready: "db_ready (svc_db s)" using assms(1) by (simp add: svc_inv_def)
  let ?d = "svc_db (handleInbound h (\<lambda>_. no_faults) clk m q s)"
  note hi = handleInbound_messages [OF ready v(1) assms(4,5), of clk]
  have "on_table None ''messages'' ?d = None" by (rule on_table_ready(4) [OF hi(2)])
  moreover have "ID m \<noteq> []" using valid_ids(1) [OF v(1)] .
  ultimately have "GetMessage no_faults (ID m) ?d =
      Inr (scanStoredMessage (ID m, message_row_of m DirectionInbound StatusReceived (nowUTC (clk 3))))"
    using assms(3) hi(1) by (simp add: GetMessage_def Let_def skall_maps)
  then show ?thesis
    using v(2) by (simp add: scanStoredMessage_def message_row_of_def DirectionInbound_def StatusReceived_def)
qed

end
