(* ===== verification/Ui_Views.thy ===== *)
theory Ui_Views
  imports Chat_Service Go_Json Go_Net
begin

text \<open>
  The panels of the terminal interface: \<^verbatim>\<open>internal/ui/messages.go\<close>, \<^verbatim>\<open>sidebar.go\<close>, \<^verbatim>\<open>chatview.go\<close>,
  \<^verbatim>\<open>statusbar.go\<close> and \<^verbatim>\<open>helpview.go\<close>.

  Bubbles and Lip Gloss are arguments: \<open>tea\<close> has the operations of the viewport (type \<open>'v\<close>) and of the text input (type \<open>'i\<close>)
  that the panels call, \<open>lip\<close> the rendering functions. A view is \<open>None\<close> when \<open>strings.Repeat\<close> panics on a negative count.
  An \<open>Update\<close> returns the new panel and the commands it starts; \<open>nil\<close> and an empty batch are the empty list.
\<close>

section \<open>Messages and commands\<close>

text \<open>A key press: its name as \<open>KeyMsg.String\<close> gives it, and the text it types.\<close>

record key =
  key_name :: string
  key_text :: string

text \<open>The errors the interface shows: one that came with an event, one of a direct send, which \<open>doSend\<close> wraps in ``send: '', and
  one of a group send. Their text is an argument \<open>err_text\<close>.\<close>

datatype ui_error = EventErr string | DirectErr chat_error | GroupErr chat_error

text \<open>\<open>LibMsg\<close> stands for the messages of the libraries that the root model has no case for, such as the blinking of the cursor and the mouse.\<close>

datatype ui_msg =
    WindowSizeMsg int int
  | QuitMsg
  | KeyMsg key
  | LibMsg
  | MsgNewMessage string DisplayMessage
  | MsgPeersUpdated
  | MsgConversationsUpdated
  | MsgStatusChanged ConnectionStatus int
  | MsgError "ui_error option"
  | MsgSendResult "ui_error option"
  | msgSendRequest string string
  | eventChannelMsg Event

text \<open>A command is a function that the runtime runs once in a goroutine of its own; its constructor names the closure and what
  it captured. \<open>CmdListen\<close> holds the channel that \<open>listenEvents\<close> subscribed.\<close>

datatype ui_cmd = CmdMsg ui_msg | CmdListen nat | CmdSend string string | CmdQuit | CmdLib

definition lib_cmd :: "bool \<Rightarrow> ui_cmd list" where
  "lib_cmd b = (if b then [CmdLib] else [])"

section \<open>Library operations\<close>

text \<open>The updates also tell whether they return a command.\<close>

record ('v, 'i) tea =
  tea_newViewport :: "int \<Rightarrow> int \<Rightarrow> 'v"
  tea_SetContent :: "string \<Rightarrow> 'v \<Rightarrow> 'v"
  tea_GotoBottom :: "'v \<Rightarrow> 'v"
  tea_HalfViewUp :: "'v \<Rightarrow> 'v"
  tea_HalfViewDown :: "'v \<Rightarrow> 'v"
  tea_SetDims :: "int \<Rightarrow> int \<Rightarrow> 'v \<Rightarrow> 'v"
  tea_vpUpdate :: "ui_msg \<Rightarrow> 'v \<Rightarrow> 'v \<times> bool"
  tea_vpView :: "'v \<Rightarrow> string"
  tea_Sync :: "'v \<Rightarrow> bool"
  tea_newInput :: "string \<Rightarrow> int \<Rightarrow> 'i"
  tea_Value :: "'i \<Rightarrow> string"
  tea_Focused :: "'i \<Rightarrow> bool"
  tea_Focus :: "'i \<Rightarrow> 'i"
  tea_Blur :: "'i \<Rightarrow> 'i"
  tea_Reset :: "'i \<Rightarrow> 'i"
  tea_inputUpdate :: "key \<Rightarrow> 'i \<Rightarrow> 'i \<times> bool"
  tea_inputView :: "'i \<Rightarrow> string"

datatype style =
    Panel | PanelFocus | SidebarTabActive | SidebarTabInactive | SidebarItem | SidebarItemSelected | SidebarItemMuted | SidebarDot
  | ChatHeader | MsgTimestamp | MsgSenderSelf | MsgSenderOther | MsgBody | MsgEmpty | InputBorder | InputBorderFocus | InputPrompt
  | StatusBar | StatusText | StatusAppName | StatusDotOnline | StatusDotOffline | StatusDotPending | ErrorBanner
  | HelpTitle | HelpKey | HelpDesc | HelpOverlay

record lip =
  lip_Render :: "style \<Rightarrow> string \<Rightarrow> string"
  lip_Box :: "style \<Rightarrow> int \<Rightarrow> int option \<Rightarrow> string \<Rightarrow> string"
  lip_String :: "style \<Rightarrow> string"
  lip_Width :: "string \<Rightarrow> int"
  lip_Height :: "string \<Rightarrow> int"
  lip_JoinHorizontal :: "string list \<Rightarrow> string"
  lip_JoinVertical :: "string list \<Rightarrow> string"

definition sidebarWidth :: int where "sidebarWidth = 22"
definition statusHeight :: int where "statusHeight = 1"
definition inputHeight :: int where "inputHeight = 3"
definition minChatWidth :: int where "minChatWidth = 30"

text \<open>\<open>strings.Repeat\<close>, \<open>strings.Join\<close> and the runes of a text; an invalid byte becomes U+FFFD.\<close>

definition go_repeat :: "string \<Rightarrow> int \<Rightarrow> string option" where
  "go_repeat s n = (if n < 0 then None else Some (concat (replicate (nat n) s)))"

definition join_text :: "string \<Rightarrow> string list \<Rightarrow> string" where
  "join_text sep ws = (case ws of [] \<Rightarrow> [] | w # rest \<Rightarrow> w @ concat (map (\<lambda>x. sep @ x) rest))"

fun runes :: "string \<Rightarrow> string list" where
  "runes [] = []"
| "runes (c # s) =
     (let n = utf8_len (c # s)
      in if n = 0 then rune_error # runes s else take n (c # s) # runes (drop (n - 1) s))"

definition ellipsis :: string where "ellipsis = [CHR 0xE2, CHR 0x80, CHR 0xA6]"

definition truncate_text :: "string \<Rightarrow> int \<Rightarrow> string" where
  "truncate_text s maxLen =
     (if len (runes s) \<le> maxLen then s
      else if maxLen \<le> 1 then ellipsis
      else concat (take (nat (maxLen - 1)) (runes s)) @ ellipsis)"

abbreviation newline :: string where "newline \<equiv> [CHR 0x0A]"

section \<open>Sidebar\<close>

datatype sidebarTab = TabConversations | TabGroups | TabPeers

fun tab_String :: "sidebarTab \<Rightarrow> string" where
  "tab_String TabConversations = ''Chats''"
| "tab_String TabGroups = ''Groups''"
| "tab_String TabPeers = ''Peers''"

fun next_tab :: "sidebarTab \<Rightarrow> sidebarTab" where
  "next_tab TabConversations = TabGroups"
| "next_tab TabGroups = TabPeers"
| "next_tab TabPeers = TabConversations"

fun prev_tab :: "sidebarTab \<Rightarrow> sidebarTab" where
  "prev_tab TabConversations = TabPeers"
| "prev_tab TabGroups = TabConversations"
| "prev_tab TabPeers = TabGroups"

record sidebarModel =
  sb_conversations :: "Conversation list"
  sb_groups :: "ChatGroup list"
  sb_peers :: "ChatPeer list"
  sb_activeTab :: sidebarTab
  sb_cursor :: int
  sb_focused :: bool
  sb_width :: int
  sb_height :: int

definition newSidebar :: sidebarModel where
  "newSidebar = \<lparr>sb_conversations = [], sb_groups = [], sb_peers = [], sb_activeTab = TabConversations, sb_cursor = 0, sb_focused = True,
     sb_width = 0, sb_height = 0\<rparr>"

definition listLen :: "sidebarModel \<Rightarrow> int" where
  "listLen m = (case sb_activeTab m of
     TabConversations \<Rightarrow> len (sb_conversations m) | TabGroups \<Rightarrow> len (sb_groups m) | TabPeers \<Rightarrow> len (sb_peers m))"

definition clampCursor :: "sidebarModel \<Rightarrow> sidebarModel" where
  "clampCursor m =
     (let l = listLen m; m1 = (if l \<le> sb_cursor m \<and> 0 < l then m\<lparr>sb_cursor := l - 1\<rparr> else m)
      in if sb_cursor m1 < 0 then m1\<lparr>sb_cursor := 0\<rparr> else m1)"

definition sidebar_Update :: "ui_msg \<Rightarrow> sidebarModel \<Rightarrow> sidebarModel" where
  "sidebar_Update msg m =
     (case msg of
        MsgConversationsUpdated \<Rightarrow> clampCursor m
      | MsgPeersUpdated \<Rightarrow> clampCursor m
      | KeyMsg k \<Rightarrow>
          if \<not> sb_focused m then m
          else if key_name k = ''tab'' then m\<lparr>sb_activeTab := next_tab (sb_activeTab m), sb_cursor := 0\<rparr>
          else if key_name k = ''shift+tab'' then m\<lparr>sb_activeTab := prev_tab (sb_activeTab m), sb_cursor := 0\<rparr>
          else if key_name k = ''up'' \<or> key_name k = ''k'' then (if 0 < sb_cursor m then m\<lparr>sb_cursor := sb_cursor m - 1\<rparr> else m)
          else if key_name k = ''down'' \<or> key_name k = ''j''
          then (if sb_cursor m < listLen m - 1 then m\<lparr>sb_cursor := sb_cursor m + 1\<rparr> else m)
          else m
      | _ \<Rightarrow> m)"

definition sidebar_SetSize :: "int \<Rightarrow> int \<Rightarrow> sidebarModel \<Rightarrow> sidebarModel" where
  "sidebar_SetSize w h m = m\<lparr>sb_width := w, sb_height := h\<rparr>"

definition sidebar_SetFocused :: "bool \<Rightarrow> sidebarModel \<Rightarrow> sidebarModel" where
  "sidebar_SetFocused f m = m\<lparr>sb_focused := f\<rparr>"

text \<open>An access \<open>xs[i]\<close> panics outside the slice; the selection functions test the upper bound only.\<close>

datatype 'a access = NoItem | Item 'a | IndexPanic

definition index_at :: "'a list \<Rightarrow> int \<Rightarrow> 'a access" where
  "index_at xs i =
     (if xs = [] \<or> len xs \<le> i then NoItem else if i < 0 then IndexPanic else Item (xs ! nat i))"

definition SelectedConversation :: "sidebarModel \<Rightarrow> Conversation access" where
  "SelectedConversation m = (if sb_activeTab m \<noteq> TabConversations then NoItem else index_at (sb_conversations m) (sb_cursor m))"

definition SelectedGroupID :: "sidebarModel \<Rightarrow> string access" where
  "SelectedGroupID m =
     (if sb_activeTab m \<noteq> TabGroups then NoItem
      else case index_at (sb_groups m) (sb_cursor m) of Item g \<Rightarrow> Item (cg_GroupID g) | NoItem \<Rightarrow> NoItem | IndexPanic \<Rightarrow> IndexPanic)"

definition SelectedPeer :: "sidebarModel \<Rightarrow> ChatPeer access" where
  "SelectedPeer m = (if sb_activeTab m \<noteq> TabPeers then NoItem else index_at (sb_peers m) (sb_cursor m))"

text \<open>The lines of a list, each ended by a line feed; \<open>row i x\<close> renders element \<open>i\<close>.\<close>

definition list_lines :: "(int \<Rightarrow> 'a \<Rightarrow> string) \<Rightarrow> 'a list \<Rightarrow> string" where
  "list_lines row xs = concat (map (\<lambda>(i, x). row (int i) x @ newline) (zip [0..<length xs] xs))"

definition renderList :: "lip \<Rightarrow> sidebarModel \<Rightarrow> string" where
  "renderList lp m =
     (let item = (\<lambda>i mark plain s. if i = sb_cursor m then lip_Render lp SidebarItemSelected (mark @ s)
                                   else lip_Render lp SidebarItem (plain @ s)) in
      case sb_activeTab m of
        TabConversations \<Rightarrow>
          (if sb_conversations m = [] then lip_Render lp SidebarItemMuted ''(no conversations)'' else [])
          @ list_lines (\<lambda>i c. let name = truncate_text (cv_Name c) (sb_width m - 5);
                                  name' = (if cv_Type c = ConversationGroup then ''# '' @ name else name)
                              in item i ''> '' ''  '' name') (sb_conversations m)
      | TabGroups \<Rightarrow>
          (if sb_groups m = [] then lip_Render lp SidebarItemMuted ''(no groups)'' else [])
          @ list_lines (\<lambda>i g. item i ''> '' ''  '' (truncate_text (''# '' @ cg_Name g) (sb_width m - 5) @ '' ['' @ FormatInt (cg_MemberCount g) @ '']''))
              (sb_groups m)
      | TabPeers \<Rightarrow>
          (if sb_peers m = [] then lip_Render lp SidebarItemMuted ''(no peers)'' else [])
          @ list_lines (\<lambda>i p. let dot = (if cp_Connected p then lip_Render lp SidebarDot [CHR 0xE2, CHR 0x97, CHR 0x8F] else '' '')
                              in item i (dot @ '' '') (dot @ '' '') (truncate_text (cp_DisplayName p) (sb_width m - 6)))
              (sb_peers m))"

text \<open>Lines cut or filled to a height.\<close>

definition fit_lines :: "int \<Rightarrow> string list \<Rightarrow> string list" where
  "fit_lines h ls = (let n = nat h in if n < length ls then take n ls else ls @ replicate (n - length ls) [])"

definition sidebar_View :: "lip \<Rightarrow> sidebarModel \<Rightarrow> string" where
  "sidebar_View lp m =
     (let tabs = map (\<lambda>t. lip_Render lp (if t = sb_activeTab m then SidebarTabActive else SidebarTabInactive) (tab_String t))
                   [TabConversations, TabGroups, TabPeers];
          tabRow = '' '' @ join_text (lip_Render lp SidebarTabInactive ('' '' @ [CHR 0xE2, CHR 0x94, CHR 0x82] @ '' '')) tabs;
          listHeight = max 0 (sb_height m - 2 - 2);
          content = tabRow @ newline @ join_text newline (fit_lines listHeight (Split (CHR 0x0A) (renderList lp m)))
      in lip_Box lp (if sb_focused m then PanelFocus else Panel) (sb_width m - 2) (Some (sb_height m - 2)) content)"

text \<open>\<open>renderSidebarWidth\<close>\<close>

definition renderSidebarWidth :: "lip \<Rightarrow> int" where
  "renderSidebarWidth lp = lip_Width lp (lip_Box lp Panel (sidebarWidth - 2) None [])"

section \<open>Chat view\<close>

record ('v, 'i) chatViewModel =
  cw_title :: string
  cw_conversationID :: string
  cw_messages :: "DisplayMessage list"
  cw_vp :: 'v
  cw_input :: 'i
  cw_focused :: bool
  cw_width :: int
  cw_height :: int
  cw_contentDirty :: bool

definition newChatView :: "('v, 'i) tea \<Rightarrow> ('v, 'i) chatViewModel" where
  "newChatView t = \<lparr>cw_title = [], cw_conversationID = [], cw_messages = [], cw_vp = tea_SetContent t [] (tea_newViewport t 0 0),
     cw_input = tea_newInput t (''Type a message'' @ ellipsis) 2000, cw_focused = False, cw_width = 0, cw_height = 0,
     cw_contentDirty = True\<rparr>"

text \<open>The layout \<open>15:04\<close>.\<close>

definition hh_mm :: "time \<Rightarrow> string" where
  "hh_mm t = (let sod = t div second mod 86400 in padk 2 (sod div 3600) @ '':'' @ padk 2 (sod div 60 mod 60))"

definition message_line :: "lip \<Rightarrow> DisplayMessage \<Rightarrow> string" where
  "message_line lp m =
     (let ts = lip_Render lp MsgTimestamp (hh_mm (dm_Timestamp m));
          sender = (if dm_IsOutbound m then lip_Render lp MsgSenderSelf ''You'' else lip_Render lp MsgSenderOther (dm_SenderName m))
      in ts @ ''  '' @ sender @ '': '' @ lip_Render lp MsgBody (dm_Body m))"

definition buildContent :: "lip \<Rightarrow> ('v, 'i) chatViewModel \<Rightarrow> string" where
  "buildContent lp m =
     (if cw_messages m = [] then lip_Render lp MsgEmpty ''No messages yet. Say hello!''
      else concat (map (\<lambda>x. message_line lp x @ newline) (cw_messages m)))"

definition chat_Update :: "('v, 'i) tea \<Rightarrow> ui_msg \<Rightarrow> ('v, 'i) chatViewModel \<Rightarrow> ('v, 'i) chatViewModel \<times> ui_cmd list" where
  "chat_Update t msg m =
     (let to_viewport = (let (v, c) = tea_vpUpdate t msg (cw_vp m) in (m\<lparr>cw_vp := v\<rparr>, lib_cmd c)) in
      case msg of
        MsgNewMessage conv x \<Rightarrow>
          (if conv = cw_conversationID m then m\<lparr>cw_messages := cw_messages m @ [x], cw_contentDirty := True\<rparr> else m, [])
      | KeyMsg k \<Rightarrow>
          if \<not> cw_focused m then to_viewport
          else if key_name k = ''enter'' then
            (let body = TrimSpace (tea_Value t (cw_input m)) in
             if body \<noteq> [] then (m\<lparr>cw_input := tea_Reset t (cw_input m)\<rparr>, [CmdMsg (msgSendRequest (cw_conversationID m) body)])
             else (m, []))
          else if key_name k = ''pgup'' \<or> key_name k = ''ctrl+b'' then (m\<lparr>cw_vp := tea_HalfViewUp t (cw_vp m)\<rparr>, [])
          else if key_name k = ''pgdown'' \<or> key_name k = ''ctrl+f'' then (m\<lparr>cw_vp := tea_HalfViewDown t (cw_vp m)\<rparr>, [])
          else (let (i, c) = tea_inputUpdate t k (cw_input m) in (m\<lparr>cw_input := i\<rparr>, lib_cmd c))
      | _ \<Rightarrow> to_viewport)"

text \<open>\<open>View\<close> works on a copy of the panel: what it changes there is lost.\<close>

definition box_char :: string where "box_char = [CHR 0xE2, CHR 0x94, CHR 0x80]"

definition chat_View :: "('v, 'i) tea \<Rightarrow> lip \<Rightarrow> ('v, 'i) chatViewModel \<Rightarrow> string option" where
  "chat_View t lp m =
     (let box = lip_Box lp (if cw_focused m then PanelFocus else Panel) (cw_width m - 2) (Some (cw_height m - 2)) in
      if cw_conversationID m = []
      then Some (box (lip_Render lp MsgEmpty (''Select a conversation from the sidebar'' @ newline @ ''or press ? for help'')))
      else
        let header = lip_Box lp ChatHeader (cw_width m - 4) None (''  '' @ cw_title m);
            vp = (if cw_contentDirty m then tea_GotoBottom t (tea_SetContent t (buildContent lp m) (cw_vp m)) else cw_vp m);
            inp = (if cw_focused m then tea_Focus t (cw_input m) else tea_Blur t (cw_input m));
            inputBox = lip_Box lp (if cw_focused m then InputBorderFocus else InputBorder) (cw_width m - 6) None
                         (lip_Render lp InputPrompt ''> '' @ tea_inputView t inp)
        in case go_repeat box_char (cw_width m - 4) of
             None \<Rightarrow> None
           | Some sep \<Rightarrow>
               Some (box (header @ newline @ sep @ newline @ tea_vpView t vp @ newline @ sep @ newline @ inputBox)))"

definition rebuildViewport :: "('v, 'i) tea \<Rightarrow> lip \<Rightarrow> ('v, 'i) chatViewModel \<Rightarrow> ('v, 'i) chatViewModel" where
  "rebuildViewport t lp m =
     (let vpH = max 1 (cw_height m - 2 - 2 - 1 - 1 - inputHeight - 1);
          vpW = max 1 (cw_width m - 4);
          m1 = m\<lparr>cw_vp := tea_SetDims t vpW vpH (cw_vp m)\<rparr>
      in if cw_contentDirty m1 then m1\<lparr>cw_vp := tea_GotoBottom t (tea_SetContent t (buildContent lp m1) (cw_vp m1))\<rparr> else m1)"

definition LoadConversation :: "('v, 'i) tea \<Rightarrow> lip \<Rightarrow> string \<Rightarrow> string \<Rightarrow> DisplayMessage list
    \<Rightarrow> ('v, 'i) chatViewModel \<Rightarrow> ('v, 'i) chatViewModel" where
  "LoadConversation t lp i title msgs m =
     (let m1 = rebuildViewport t lp (m\<lparr>cw_conversationID := i, cw_title := title, cw_messages := msgs, cw_contentDirty := True,
                 cw_input := tea_Reset t (cw_input m)\<rparr>)
      in m1\<lparr>cw_vp := tea_GotoBottom t (cw_vp m1)\<rparr>)"

definition AppendMessage :: "('v, 'i) tea \<Rightarrow> lip \<Rightarrow> DisplayMessage \<Rightarrow> ('v, 'i) chatViewModel \<Rightarrow> ('v, 'i) chatViewModel" where
  "AppendMessage t lp x m =
     (let m1 = m\<lparr>cw_messages := cw_messages m @ [x], cw_contentDirty := True\<rparr>
      in m1\<lparr>cw_vp := tea_GotoBottom t (tea_SetContent t (buildContent lp m1) (cw_vp m1))\<rparr>)"

definition chat_SetSize :: "('v, 'i) tea \<Rightarrow> lip \<Rightarrow> int \<Rightarrow> int \<Rightarrow> ('v, 'i) chatViewModel \<Rightarrow> ('v, 'i) chatViewModel" where
  "chat_SetSize t lp w h m = rebuildViewport t lp (m\<lparr>cw_width := w, cw_height := h\<rparr>)"

definition chat_SetFocused :: "('v, 'i) tea \<Rightarrow> bool \<Rightarrow> ('v, 'i) chatViewModel \<Rightarrow> ('v, 'i) chatViewModel" where
  "chat_SetFocused t f m = m\<lparr>cw_focused := f, cw_input := (if f then tea_Focus t else tea_Blur t) (cw_input m)\<rparr>"

section \<open>Status bar\<close>

record statusBarModel =
  sbar_status :: ConnectionStatus
  sbar_peerCount :: int
  sbar_width :: int
  sbar_errMsg :: string

definition newStatusBar :: statusBarModel where
  "newStatusBar = \<lparr>sbar_status = StatusConnecting, sbar_peerCount = 0, sbar_width = 0, sbar_errMsg = []\<rparr>"

definition statusBar_Update :: "(ui_error \<Rightarrow> string) \<Rightarrow> ui_msg \<Rightarrow> statusBarModel \<Rightarrow> statusBarModel" where
  "statusBar_Update err_text msg m =
     (case msg of
        MsgStatusChanged st n \<Rightarrow> m\<lparr>sbar_status := st, sbar_peerCount := n\<rparr>
      | MsgError (Some e) \<Rightarrow> m\<lparr>sbar_errMsg := err_text e\<rparr>
      | MsgError None \<Rightarrow> m\<lparr>sbar_errMsg := []\<rparr>
      | _ \<Rightarrow> m)"

definition statusBar_View :: "lip \<Rightarrow> statusBarModel \<Rightarrow> string option" where
  "statusBar_View lp m =
     (let (dot, label) = (case sbar_status m of
            StatusConnected \<Rightarrow> (lip_String lp StatusDotOnline, ''Connected'')
          | StatusDisconnected \<Rightarrow> (lip_String lp StatusDotOffline, ''Disconnected'')
          | StatusConnecting \<Rightarrow> (lip_String lp StatusDotPending, ''Connecting''));
          left = lip_String lp StatusAppName @ ''  '' @ dot @ ''  '' @ lip_Render lp StatusText label;
          right = (if sbar_errMsg m \<noteq> [] then lip_Render lp ErrorBanner ('' '' @ [CHR 0xE2, CHR 0x9A, CHR 0xA0] @ '' '' @ sbar_errMsg m)
                   else lip_Render lp StatusText (FormatInt (sbar_peerCount m) @ '' peer(s)''));
          gap = max 0 (sbar_width m - lip_Width lp left - lip_Width lp right)
      in case go_repeat '' '' gap of
           None \<Rightarrow> None
         | Some pad \<Rightarrow> Some (lip_Box lp StatusBar (sbar_width m) None (left @ pad @ right)))"

definition statusBar_SetWidth :: "int \<Rightarrow> statusBarModel \<Rightarrow> statusBarModel" where
  "statusBar_SetWidth w m = m\<lparr>sbar_width := w\<rparr>"

section \<open>Help\<close>

definition helpEntries :: "(string \<times> string) list" where
  "helpEntries =
     [(''Tab / Shift+Tab'', ''Cycle sidebar tabs (Chats / Groups / Peers)''),
      ([CHR 0xE2, CHR 0x86, CHR 0x91] @ '' / k'', ''Move selection up''),
      ([CHR 0xE2, CHR 0x86, CHR 0x93] @ '' / j'', ''Move selection down''),
      (''Enter (sidebar)'', ''Open selected conversation''),
      ([CHR 0xE2, CHR 0x86, CHR 0x92] @ '' / l'', ''Focus chat input''),
      ([CHR 0xE2, CHR 0x86, CHR 0x90] @ '' / h'', ''Focus sidebar''),
      (''Enter (input)'', ''Send message''),
      (''PgUp / Ctrl+B'', ''Scroll messages up''),
      (''PgDn / Ctrl+F'', ''Scroll messages down''),
      (''?'', ''Toggle this help screen''),
      (''Ctrl+C / q'', ''Quit SKALL'')]"

record helpViewModel =
  hv_width :: int
  hv_height :: int

definition newHelpView :: helpViewModel where
  "newHelpView = \<lparr>hv_width = 0, hv_height = 0\<rparr>"

definition help_Update :: "ui_msg \<Rightarrow> helpViewModel \<Rightarrow> helpViewModel" where
  "help_Update msg m = m"

definition help_SetSize :: "int \<Rightarrow> int \<Rightarrow> helpViewModel \<Rightarrow> helpViewModel" where
  "help_SetSize w h m = m\<lparr>hv_width := w, hv_height := h\<rparr>"

text \<open>The quotient of a negative difference is negative or zero and is replaced by 0, whichever way it is rounded. Every line is
  prefixed by the same \<open>strings.Repeat\<close>, so all of them panic or none.\<close>

definition help_View :: "lip \<Rightarrow> helpViewModel \<Rightarrow> string option" where
  "help_View lp m =
     (let rows = map (\<lambda>(k, d). lip_Render lp HelpKey k @ '' '' @ lip_Render lp HelpDesc d) helpEntries;
          footer = newline @ lip_Render lp HelpDesc ''Press ? or Esc to close'';
          body = lip_Render lp HelpTitle ''SKALL Keyboard Shortcuts'' @ newline @ join_text newline rows @ footer;
          overlay = lip_Render lp HelpOverlay body;
          padLeft = max 0 ((hv_width m - lip_Width lp overlay) div 2);
          padTop = max 0 ((hv_height m - lip_Height lp overlay) div 2)
      in case go_repeat '' '' padLeft of
           None \<Rightarrow> None
         | Some pad \<Rightarrow>
             Some (join_text newline (replicate (nat padTop) [] @ map (\<lambda>l. pad @ l) (Split (CHR 0x0A) overlay))))"

section \<open>Truncation\<close>

text \<open>The encoding of one rune, and texts made of such.\<close>

definition is_rune :: "string \<Rightarrow> bool" where
  "is_rune r \<longleftrightarrow> r \<noteq> [] \<and> (\<forall>t. utf8_len (r @ t) = length r)"

lemma is_rune_utf8: "0 < utf8_len (c # s) \<Longrightarrow> is_rune (take (utf8_len (c # s)) (c # s))"
  using utf8_len_take [of c s] by (cases "utf8_len (c # s)") (simp_all add: is_rune_def)

lemma is_rune_marks [simp]: "is_rune rune_error" "is_rune ellipsis"
  by (simp_all add: is_rune_def rune_error_def ellipsis_def utf8_len.simps lead_def byte_in_def)

lemma runes_ok: "list_all is_rune (runes s)"
  by (induction s rule: runes.induct) (simp_all add: Let_def is_rune_utf8 del: take_Cons)

lemma runes_rune: "is_rune r \<Longrightarrow> runes (r @ t) = r # runes t"
proof -
  assume r: "is_rune r"
  then obtain c r' where c: "r = c # r'" by (cases r) (auto simp: is_rune_def)
  have "utf8_len (c # r' @ t) = Suc (length r')" using r by (simp add: is_rune_def c)
  then show ?thesis by (simp add: c)
qed

lemma runes_concat: "list_all is_rune rs \<Longrightarrow> runes (concat rs @ t) = rs @ runes t"
  by (induction rs) (simp_all add: runes_rune)

lemma runes_truncate:
  "runes (truncate_text s n) =
     (if len (runes s) \<le> n then runes s else if n \<le> 1 then [ellipsis] else take (nat (n - 1)) (runes s) @ [ellipsis])"
proof -
  have e: "runes ellipsis = [ellipsis]" using runes_rune [of ellipsis "[]"] by simp
  have "list_all is_rune (take k (runes s))" for k
    using runes_ok [of s] by (metis append_take_drop_id list_all_append)
  then show ?thesis by (simp add: truncate_text_def e runes_concat)
qed

text \<open>A truncated name has at most the requested number of runes, except that it never gets shorter than the ellipsis; a name
  that fits is not changed, and one that does not keeps its beginning.\<close>

theorem truncate_text_bound:
  "len (runes (truncate_text s n)) \<le> max 1 n
   \<and> (len (runes s) \<le> n \<longrightarrow> truncate_text s n = s)
   \<and> (n < len (runes s) \<longrightarrow> 1 \<le> n \<longrightarrow> len (runes (truncate_text s n)) = n
        \<and> take (nat (n - 1)) (runes (truncate_text s n)) = take (nat (n - 1)) (runes s))"
proof -
  have "len (runes s) \<le> n \<Longrightarrow> truncate_text s n = s" by (simp add: truncate_text_def)
  then show ?thesis by (auto simp: runes_truncate)
qed

section \<open>Which views can panic\<close>

lemma go_repeat_panics: "go_repeat s n = None \<longleftrightarrow> n < 0"
  by (simp add: go_repeat_def)

lemma statusBar_View_total: "statusBar_View lp m \<noteq> None"
  by (auto simp: statusBar_View_def Let_def go_repeat_def split: ConnectionStatus.split)

lemma help_View_total: "help_View lp m \<noteq> None"
  by (simp add: help_View_def Let_def go_repeat_def)

lemma chat_View_panics: "chat_View t lp m = None \<longleftrightarrow> cw_conversationID m \<noteq> [] \<and> cw_width m < 4"
  by (simp add: chat_View_def Let_def go_repeat_def)

end
