(* ===== verification/Ui_App.thy ===== *)
theory Ui_App
  imports Ui_Views Chat_Laws
begin

text \<open>
  The root model of the terminal interface, \<^verbatim>\<open>internal/ui/app.go\<close>, over the chat service, and the loop of the Bubble Tea
  runtime that drives it.

  \<open>Update\<close> takes the model and the service and returns both with the commands to start; it is \<open>None\<close> when it panics. What one
  call meets outside (the p2p host, the faults of the store, the clock) is its argument \<open>w\<close>. The cancelled flag of the
  context, which all copies of the model share, is part of the model; the field \<open>lastErr\<close> is never assigned and is left out.
\<close>

section \<open>State\<close>

datatype focusRegion = focusSidebar | focusChat

record ('v, 'i) AppModel =
  am_cancelled :: bool
  am_statusBar :: statusBarModel
  am_sidebar :: sidebarModel
  am_chatView :: "('v, 'i) chatViewModel"
  am_helpView :: helpViewModel
  am_focus :: focusRegion
  am_showHelp :: bool
  am_quitting :: bool
  am_width :: int
  am_height :: int

text \<open>The libraries and the texts of errors, the same in every call, and what changes from call to call.\<close>

record ('v, 'i) ui_env =
  ue_tea :: "('v, 'i) tea"
  ue_lip :: lip
  ue_err :: "ui_error \<Rightarrow> string"

record 'p world =
  w_host :: "'p host"
  w_drv :: "faults tape"
  w_gdrv :: "faults tape"
  w_clk :: "time tape"

definition ui_New :: "('v, 'i) ui_env \<Rightarrow> ('v, 'i) AppModel" where
  "ui_New e = \<lparr>am_cancelled = False, am_statusBar = newStatusBar, am_sidebar = sidebar_SetFocused True newSidebar,
     am_chatView = chat_SetFocused (ue_tea e) False (newChatView (ue_tea e)), am_helpView = newHelpView, am_focus = focusSidebar,
     am_showHelp = False, am_quitting = False, am_width = 0, am_height = 0\<rparr>"

section \<open>Listening to the service\<close>

text \<open>Every call subscribes a new channel.\<close>

definition listenEvents :: "P2PService \<Rightarrow> ui_cmd \<times> P2PService" where
  "listenEvents s = (let (ch, s') = Subscribe s in (CmdListen ch, s'))"

definition refreshAll :: "ui_cmd list" where
  "refreshAll = [CmdMsg MsgConversationsUpdated, CmdMsg MsgPeersUpdated]"

definition ui_Init :: "('v, 'i) ui_env \<Rightarrow> ('v, 'i) AppModel \<Rightarrow> P2PService \<Rightarrow> ui_cmd list \<times> P2PService" where
  "ui_Init e m s = (let (c, s') = listenEvents s in (c # refreshAll @ lib_cmd (tea_Sync (ue_tea e) (cw_vp (am_chatView m))), s'))"

definition handleServiceEvent :: "'p host \<Rightarrow> Event \<Rightarrow> ui_cmd list" where
  "handleServiceEvent h ev =
     (case ev_Kind ev of
        EventNewMessage \<Rightarrow> [CmdMsg (MsgNewMessage (ev_ConversationID ev) (ev_Message ev))]
      | EventPeerConnected \<Rightarrow> [CmdMsg MsgPeersUpdated]
      | EventPeerDisconnected \<Rightarrow> [CmdMsg MsgPeersUpdated]
      | EventStatusChanged \<Rightarrow> [CmdMsg (MsgStatusChanged (ev_Status ev) (ConnectedPeerCount h))]
      | EventError \<Rightarrow> [CmdMsg (MsgError (map_option EventErr (ev_Err ev)))])"

section \<open>Layout and focus\<close>

definition layout :: "('v, 'i) ui_env \<Rightarrow> ('v, 'i) AppModel \<Rightarrow> ('v, 'i) AppModel" where
  "layout e m =
     (let cw0 = am_width m - sidebarWidth;
          (sw, cw) = (if cw0 < minChatWidth then (am_width m - minChatWidth, minChatWidth) else (sidebarWidth, cw0));
          panelH = am_height m - statusHeight
      in m\<lparr>am_statusBar := statusBar_SetWidth (am_width m) (am_statusBar m),
           am_sidebar := sidebar_SetSize sw panelH (am_sidebar m),
           am_chatView := chat_SetSize (ue_tea e) (ue_lip e) cw panelH (am_chatView m),
           am_helpView := help_SetSize (am_width m) (am_height m) (am_helpView m)\<rparr>)"

definition setFocus :: "('v, 'i) ui_env \<Rightarrow> focusRegion \<Rightarrow> ('v, 'i) AppModel \<Rightarrow> ('v, 'i) AppModel" where
  "setFocus e r m = m\<lparr>am_focus := r, am_sidebar := sidebar_SetFocused (r = focusSidebar) (am_sidebar m),
     am_chatView := chat_SetFocused (ue_tea e) (r = focusChat) (am_chatView m)\<rparr>"

text \<open>A failed \<open>GetMessages\<close> is logged and its result, no messages, is shown.\<close>

definition open_with :: "('v, 'i) ui_env \<Rightarrow> 'p world \<Rightarrow> string \<Rightarrow> string \<Rightarrow> ('v, 'i) AppModel \<Rightarrow> P2PService \<Rightarrow> ('v, 'i) AppModel" where
  "open_with e w i title m s =
     (let msgs = (case GetMessages (w_host w) (w_drv w) i 100 s of Inl _ \<Rightarrow> [] | Inr ms \<Rightarrow> ms)
      in setFocus e focusChat (m\<lparr>am_chatView := LoadConversation (ue_tea e) (ue_lip e) i title msgs (am_chatView m)\<rparr>))"

definition openSelected :: "('v, 'i) ui_env \<Rightarrow> 'p world \<Rightarrow> ('v, 'i) AppModel \<Rightarrow> P2PService \<Rightarrow> ('v, 'i) AppModel option" where
  "openSelected e w m s =
     (case SelectedConversation (am_sidebar m) of
        IndexPanic \<Rightarrow> None
      | Item conv \<Rightarrow> Some (open_with e w (cv_ID conv) (cv_Name conv) m s)
      | NoItem \<Rightarrow> (case SelectedGroupID (am_sidebar m) of
        IndexPanic \<Rightarrow> None
      | g \<Rightarrow>
          let gID = (case g of Item i \<Rightarrow> i | _ \<Rightarrow> []) in
          if gID \<noteq> [] then Some (open_with e w gID gID m s)
          else (case SelectedPeer (am_sidebar m) of
                  IndexPanic \<Rightarrow> None
                | Item p \<Rightarrow> Some (open_with e w (cp_PeerID p) (cp_DisplayName p) m s)
                | NoItem \<Rightarrow> Some m)))"

section \<open>Update\<close>

definition app_key :: "('v, 'i) ui_env \<Rightarrow> 'p world \<Rightarrow> key \<Rightarrow> ('v, 'i) AppModel \<Rightarrow> P2PService \<Rightarrow> (('v, 'i) AppModel \<times> ui_cmd list) option" where
  "app_key e w k m s =
     (let quit = Some (m\<lparr>am_cancelled := True\<rparr>, [CmdQuit]) in
      if key_name k = ''ctrl+c'' then quit
      else if key_name k = ''q'' \<and> (am_focus m \<noteq> focusChat \<or> \<not> tea_Focused (ue_tea e) (cw_input (am_chatView m))) then quit
      else if key_name k = ''?'' then Some (m\<lparr>am_showHelp := \<not> am_showHelp m\<rparr>, [])
      else if key_name k = ''esc'' \<and> am_showHelp m then Some (m\<lparr>am_showHelp := False\<rparr>, [])
      else if am_showHelp m then Some (m, [])
      else if key_name k = ''right'' \<or> key_name k = ''l'' then Some (setFocus e focusChat m, [])
      else if key_name k = ''left'' \<or> key_name k = ''h'' then Some (setFocus e focusSidebar m, [])
      else if key_name k = ''enter'' \<and> am_focus m = focusSidebar then map_option (\<lambda>m'. (m', [])) (openSelected e w m s)
      else case am_focus m of
             focusSidebar \<Rightarrow> Some (m\<lparr>am_sidebar := sidebar_Update (KeyMsg k) (am_sidebar m)\<rparr>, [])
           | focusChat \<Rightarrow>
               let (c, cmds) = chat_Update (ue_tea e) (KeyMsg k) (am_chatView m) in Some (m\<lparr>am_chatView := c\<rparr>, cmds))"

definition to_statusBar :: "('v, 'i) ui_env \<Rightarrow> ui_msg \<Rightarrow> ('v, 'i) AppModel \<Rightarrow> ('v, 'i) AppModel" where
  "to_statusBar e msg m = m\<lparr>am_statusBar := statusBar_Update (ue_err e) msg (am_statusBar m)\<rparr>"

definition Update :: "('v, 'i) ui_env \<Rightarrow> 'p world \<Rightarrow> ui_msg \<Rightarrow> ('v, 'i) AppModel \<Rightarrow> P2PService \<Rightarrow>
    (('v, 'i) AppModel \<times> ui_cmd list \<times> P2PService) option" where
  "Update e w msg m s =
     (case msg of
        WindowSizeMsg wd ht \<Rightarrow> Some (layout e (m\<lparr>am_width := wd, am_height := ht\<rparr>), [], s)
      | QuitMsg \<Rightarrow> Some (m\<lparr>am_quitting := True, am_cancelled := True\<rparr>, [CmdQuit], s)
      | MsgStatusChanged _ _ \<Rightarrow> Some (to_statusBar e msg m, [], s)
      | MsgError _ \<Rightarrow> Some (to_statusBar e msg m, [], s)
      | MsgPeersUpdated \<Rightarrow>
          (case svc_ListPeers (w_host w) (w_drv w 0) s of
             Inl _ \<Rightarrow> Some (m, [], s)
           | Inr peers \<Rightarrow> Some (m\<lparr>am_sidebar := (am_sidebar m)\<lparr>sb_peers := peers\<rparr>\<rparr>, [], s))
      | MsgConversationsUpdated \<Rightarrow>
          let m1 = (case svc_ListConversations (w_host w) (w_drv w) (w_gdrv w) s of
                      Inl _ \<Rightarrow> m
                    | Inr convs \<Rightarrow> m\<lparr>am_sidebar := (am_sidebar m)\<lparr>sb_conversations := convs\<rparr>\<rparr>)
          in Some (m1\<lparr>am_sidebar := (am_sidebar m1)\<lparr>sb_groups := svc_ListGroups s\<rparr>\<rparr>, [], s)
      | MsgNewMessage conv x \<Rightarrow>
          Some (if conv = cw_conversationID (am_chatView m)
                then m\<lparr>am_chatView := AppendMessage (ue_tea e) (ue_lip e) x (am_chatView m)\<rparr> else m,
                [CmdMsg MsgConversationsUpdated], s)
      | msgSendRequest conv body \<Rightarrow> Some (m, [CmdSend conv body], s)
      | MsgSendResult r \<Rightarrow> Some (case r of Some _ \<Rightarrow> to_statusBar e (MsgError r) m | None \<Rightarrow> m, [], s)
      | eventChannelMsg ev \<Rightarrow>
          let (c, s') = listenEvents s in Some (m, handleServiceEvent (w_host w) ev @ [c], s')
      | KeyMsg k \<Rightarrow> map_option (\<lambda>(m', cmds). (m', cmds, s)) (app_key e w k m s)
      | LibMsg \<Rightarrow> Some (m, [], s))"

section \<open>View\<close>

definition ui_View :: "('v, 'i) ui_env \<Rightarrow> ('v, 'i) AppModel \<Rightarrow> string option" where
  "ui_View e m =
     (if am_quitting m then Some []
      else if am_showHelp m then help_View (ue_lip e) (am_helpView m)
      else case statusBar_View (ue_lip e) (am_statusBar m) of
             None \<Rightarrow> None
           | Some bar \<Rightarrow>
               (case chat_View (ue_tea e) (ue_lip e) (am_chatView m) of
                  None \<Rightarrow> None
                | Some chat \<Rightarrow>
                    Some (lip_JoinVertical (ue_lip e) [bar, lip_JoinHorizontal (ue_lip e) [sidebar_View (ue_lip e) (am_sidebar m), chat]])))"

section \<open>Commands\<close>

text \<open>\<open>doSend\<close>.\<close>

definition doSend :: "'p world \<Rightarrow> string \<Rightarrow> string \<Rightarrow> P2PService \<Rightarrow> ui_error option \<times> P2PService" where
  "doSend w conv body s =
     (if conv \<in> cg_GroupID ` set (svc_ListGroups s)
      then (let ((err, _), s') = SendGroup (w_host w) (w_drv w) (w_clk w) conv body s in (map_option GroupErr err, s'))
      else (let (err, s') = SendDirect (w_host w) (w_drv w) (w_clk w) conv body s in (map_option DirectErr err, s')))"

text \<open>A listener that finds both an event and the cancelled context takes either: \<open>pick\<close> chooses. \<open>Returns None\<close> is the message \<open>nil\<close>,
  which the runtime drops.\<close>

datatype cmd_result = Blocks | Returns "ui_msg option"

fun run_cmd :: "'p world \<Rightarrow> bool \<Rightarrow> bool \<Rightarrow> ui_cmd \<Rightarrow> P2PService \<Rightarrow> cmd_result \<times> P2PService" where
  "run_cmd w pick cancelled (CmdMsg m) s = (Returns (Some m), s)"
| "run_cmd w pick cancelled CmdQuit s = (Returns (Some QuitMsg), s)"
| "run_cmd w pick cancelled CmdLib s = (Returns (Some LibMsg), s)"
| "run_cmd w pick cancelled (CmdSend conv body) s = (let (r, s') = doSend w conv body s in (Returns (Some (MsgSendResult r)), s'))"
| "run_cmd w pick cancelled (CmdListen ch) s =
     (if cancelled \<and> pick then (Returns None, s)
      else case receive ch s of
             (Received ev, s') \<Rightarrow> (Returns (Some (eventChannelMsg ev)), s')
           | (RecvClosed, s') \<Rightarrow> (Returns None, s')
           | (RecvBlocks, s') \<Rightarrow> (if cancelled then Returns None else Blocks, s'))"

section \<open>The running interface\<close>

text \<open>The runtime runs each command in a goroutine and passes the messages to \<open>Update\<close> one at a time, in no fixed order between
  goroutines. Keys and sizes come from the terminal, inbound messages and the ticks of the monitor from the network.\<close>

record ('v, 'i) ui =
  ui_app :: "('v, 'i) AppModel"
  ui_svc :: P2PService
  ui_cmds :: "ui_cmd list"
  ui_msgs :: "ui_msg list"

definition ui_start :: "('v, 'i) ui_env \<Rightarrow> P2PService \<Rightarrow> ('v, 'i) ui" where
  "ui_start e s = (let m = ui_New e; (cs, s') = ui_Init e m s in \<lparr>ui_app = m, ui_svc = s', ui_cmds = cs, ui_msgs = []\<rparr>)"

definition ui_init :: "('v, 'i) ui_env \<Rightarrow> ('v, 'i) ui \<Rightarrow> bool" where
  "ui_init e u \<longleftrightarrow> (\<exists>s. svc_init s \<and> u = ui_start e s)"

inductive ui_step :: "('v, 'i) ui_env \<Rightarrow> 'p itself \<Rightarrow> ('v, 'i) ui \<Rightarrow> ('v, 'i) ui \<Rightarrow> bool" for e p where
  ui_run: "ui_cmds u = xs @ c # ys \<Longrightarrow> run_cmd (w :: 'p world) pick (am_cancelled (ui_app u)) c (ui_svc u) = (Returns r, s)
    \<Longrightarrow> ui_step e p u (u\<lparr>ui_cmds := xs @ ys, ui_svc := s, ui_msgs := ui_msgs u @ (case r of None \<Rightarrow> [] | Some m \<Rightarrow> [m])\<rparr>)"
| ui_update: "ui_msgs u = xs @ m # ys \<Longrightarrow> Update e (w :: 'p world) m (ui_app u) (ui_svc u) = Some (a, cs, s)
    \<Longrightarrow> ui_step e p u (u\<lparr>ui_app := a, ui_svc := s, ui_cmds := ui_cmds u @ cs, ui_msgs := xs @ ys\<rparr>)"
| ui_key: "ui_step e p u (u\<lparr>ui_msgs := ui_msgs u @ [KeyMsg k]\<rparr>)"
| ui_resize: "0 \<le> wd \<Longrightarrow> 0 \<le> ht \<Longrightarrow> ui_step e p u (u\<lparr>ui_msgs := ui_msgs u @ [WindowSizeMsg wd ht]\<rparr>)"
| ui_inbound: "ui_step e p u (u\<lparr>ui_svc := handleInbound (h :: 'p host) drv clk msg q (ui_svc u)\<rparr>)"
| ui_monitor: "ui_step e p u (u\<lparr>ui_svc := monitor_tick (h :: 'p host) drv clk (ui_svc u)\<rparr>)"

abbreviation ui_reachable :: "('v, 'i) ui_env \<Rightarrow> 'p itself \<Rightarrow> ('v, 'i) ui \<Rightarrow> bool" where
  "ui_reachable e p \<equiv> reach (ui_init e) (ui_step e p)"

end
