(* ===== verification/Ui_Laws.thy ===== *)
theory Ui_Laws
  imports Ui_App
begin

text \<open>
  Laws of the terminal interface: the invariant of the root model (the cursor is never negative, the focus flags of the panels
  agree, the chat panel is either unsized or wide enough to render), the life of the event listener over
  the contract \<open>event_source\<close>, and the invariant of the running loop.
\<close>

section \<open>Invariant of the model\<close>

definition app_ok :: "('v, 'i) AppModel \<Rightarrow> bool" where
  "app_ok m \<longleftrightarrow> 0 \<le> sb_cursor (am_sidebar m) \<and> cw_contentDirty (am_chatView m)
     \<and> (cw_width (am_chatView m) = 0 \<or> 30 \<le> cw_width (am_chatView m))
     \<and> cw_focused (am_chatView m) = (am_focus m = focusChat) \<and> sb_focused (am_sidebar m) = (am_focus m = focusSidebar)"

lemma sidebar_key_ok:
  "sb_focused (sidebar_Update msg m) = sb_focused m" "0 \<le> sb_cursor m \<Longrightarrow> 0 \<le> sb_cursor (sidebar_Update msg m)"
  by (auto simp: sidebar_Update_def clampCursor_def Let_def split: ui_msg.split)

lemma sidebar_set_ok [simp]:
  "sb_focused (sidebar_SetFocused f m) = f" "sb_cursor (sidebar_SetFocused f m) = sb_cursor m"
  "sb_focused (sidebar_SetSize w h m) = sb_focused m" "sb_cursor (sidebar_SetSize w h m) = sb_cursor m"
  by (simp_all add: sidebar_SetFocused_def sidebar_SetSize_def)

lemma chat_Update_ok [simp]:
  "cw_contentDirty m \<Longrightarrow> cw_contentDirty (fst (chat_Update t msg m))" "cw_width (fst (chat_Update t msg m)) = cw_width m"
  "cw_focused (fst (chat_Update t msg m)) = cw_focused m" "cw_conversationID (fst (chat_Update t msg m)) = cw_conversationID m"
  by (auto simp: chat_Update_def Let_def split_def split: ui_msg.split)

lemma rebuildViewport_ok [simp]:
  "cw_contentDirty (rebuildViewport t lp m) = cw_contentDirty m" "cw_width (rebuildViewport t lp m) = cw_width m"
  "cw_focused (rebuildViewport t lp m) = cw_focused m" "cw_conversationID (rebuildViewport t lp m) = cw_conversationID m"
  "cw_messages (rebuildViewport t lp m) = cw_messages m"
  by (simp_all add: rebuildViewport_def Let_def)

lemma chat_load_ok [simp]:
  "cw_contentDirty (LoadConversation t lp i n ms m)" "cw_width (LoadConversation t lp i n ms m) = cw_width m"
  "cw_conversationID (LoadConversation t lp i n ms m) = i" "cw_messages (LoadConversation t lp i n ms m) = ms"
  "cw_contentDirty (AppendMessage t lp x m)" "cw_width (AppendMessage t lp x m) = cw_width m"
  "cw_focused (AppendMessage t lp x m) = cw_focused m" "cw_messages (AppendMessage t lp x m) = cw_messages m @ [x]"
  by (simp_all add: LoadConversation_def AppendMessage_def Let_def)

lemma chat_set_ok [simp]:
  "cw_contentDirty (chat_SetFocused t f m) = cw_contentDirty m" "cw_width (chat_SetFocused t f m) = cw_width m"
  "cw_focused (chat_SetFocused t f m) = f" "cw_conversationID (chat_SetFocused t f m) = cw_conversationID m"
  "cw_messages (chat_SetFocused t f m) = cw_messages m"
  "cw_contentDirty (chat_SetSize t lp wd ht m) = cw_contentDirty m" "cw_width (chat_SetSize t lp wd ht m) = wd"
  "cw_focused (chat_SetSize t lp wd ht m) = cw_focused m"
  by (simp_all add: chat_SetFocused_def chat_SetSize_def)

lemma ui_New_ok: "app_ok (ui_New e)"
  by (simp add: app_ok_def ui_New_def newSidebar_def newChatView_def)

lemma layout_ok: "app_ok m \<Longrightarrow> app_ok (layout e m)" "30 \<le> cw_width (am_chatView (layout e m))"
  by (auto simp: app_ok_def layout_def Let_def minChatWidth_def sidebarWidth_def)

lemma setFocus_ok: "app_ok m \<Longrightarrow> app_ok (setFocus e r m)"
  by (cases r) (auto simp: app_ok_def setFocus_def)

lemma open_with_ok: "app_ok m \<Longrightarrow> app_ok (open_with e w i n m s)"
  by (auto simp: app_ok_def open_with_def setFocus_def Let_def)

lemma index_at_ok: "0 \<le> i \<Longrightarrow> index_at xs i \<noteq> IndexPanic"
  by (simp add: index_at_def)

lemma selection_ok:
  assumes "0 \<le> sb_cursor m"
  shows "SelectedConversation m \<noteq> IndexPanic" "SelectedGroupID m \<noteq> IndexPanic" "SelectedPeer m \<noteq> IndexPanic"
  using index_at_ok [OF assms]
  by (auto simp: SelectedConversation_def SelectedGroupID_def SelectedPeer_def split: access.split)

lemma openSelected_ok:
  assumes ok: "app_ok m"
  obtains m' where "openSelected e w m s = Some m'" "app_ok m'"
proof -
  have "0 \<le> sb_cursor (am_sidebar m)" using ok by (simp add: app_ok_def)
  note sel = selection_ok [OF this]
  have "\<exists>m'. openSelected e w m s = Some m' \<and> app_ok m'"
    using sel ok by (simp add: openSelected_def Let_def open_with_ok split: access.split)
  then show ?thesis using that by blast
qed

lemma app_key_ok:
  assumes ok: "app_ok m"
  obtains m' cs where "app_key e w k m s = Some (m', cs)" "app_ok m'" "am_chatView m' = am_chatView m \<or> \<not> am_showHelp m"
proof -
  obtain mo where mo: "openSelected e w m s = Some mo" "app_ok mo" by (rule openSelected_ok [OF ok])
  have chat: "app_ok (m\<lparr>am_chatView := fst (chat_Update (ue_tea e) (KeyMsg k) (am_chatView m))\<rparr>)" if "am_focus m = focusChat"
    using ok that by (auto simp: app_ok_def)
  have side: "app_ok (m\<lparr>am_sidebar := sidebar_Update (KeyMsg k) (am_sidebar m)\<rparr>)"
    using ok by (auto simp: app_ok_def sidebar_key_ok)
  have "app_ok (m\<lparr>am_cancelled := True\<rparr>)" "app_ok (m\<lparr>am_showHelp := b\<rparr>)" for b using ok by (auto simp: app_ok_def)
  then have "\<exists>m' cs. app_key e w k m s = Some (m', cs) \<and> app_ok m' \<and> (am_chatView m' = am_chatView m \<or> \<not> am_showHelp m)"
    using mo chat side ok setFocus_ok [OF ok]
    by (simp add: app_key_def Let_def split_def split: focusRegion.split)
  then show ?thesis using that by blast
qed

lemma Update_ok:
  assumes ok: "app_ok m"
  obtains m' cs s' where "Update e w msg m s = Some (m', cs, s')" "app_ok m'"
proof (cases msg)
  case (KeyMsg k)
  obtain m' cs where "app_key e w k m s = Some (m', cs)" "app_ok m'" by (rule app_key_ok [OF ok])
  then show ?thesis using that by (simp add: Update_def KeyMsg)
next
  case (WindowSizeMsg wd ht)
  have "app_ok (m\<lparr>am_width := wd, am_height := ht\<rparr>)" using ok by (simp add: app_ok_def)
  from layout_ok(1) [OF this] show ?thesis using that by (simp add: Update_def WindowSizeMsg)
next
  case MsgPeersUpdated
  show ?thesis using that ok
    by (cases "svc_ListPeers (w_host w) (w_drv w 0) s") (auto simp: Update_def MsgPeersUpdated app_ok_def)
next
  case MsgConversationsUpdated
  show ?thesis using that ok
    by (cases "svc_ListConversations (w_host w) (w_drv w) (w_gdrv w) s")
      (auto simp: Update_def MsgConversationsUpdated app_ok_def Let_def)
qed (use ok that in \<open>auto simp: Update_def app_ok_def to_statusBar_def Let_def split_def split: option.split\<close>)

section \<open>The listener\<close>

text \<open>The subscriptions when only the interface subscribes: the first 16 channels are in the fan-out, the 17th came closed.\<close>

definition listening :: "P2PService \<Rightarrow> bool" where
  "listening s \<longleftrightarrow> subs_ok s \<and> 1 \<le> length (svc_chans s) \<and> length (svc_chans s) \<le> 17
     \<and> svc_subs s = [0..<min (length (svc_chans s)) 16]
     \<and> (length (svc_chans s) = 17 \<longrightarrow> svc_chans s ! 16 = close_chan (make_chan subscriberBuf))"

lemma listening_update [simp]:
  "listening (s\<lparr>svc_db := d\<rparr>) = listening s" "listening (s\<lparr>svc_status := x\<rparr>) = listening s"
  "listening (s\<lparr>svc_lastCount := c\<rparr>) = listening s" "listening (s\<lparr>svc_peerNames := n\<rparr>) = listening s"
  by (simp_all add: listening_def)

lemma listening_publish:
  assumes "listening s"
  shows "listening (publish ev s)" "length (svc_chans (publish ev s)) = length (svc_chans s)"
proof -
  have ok: "subs_ok s" using assms by (simp add: listening_def)
  show l: "length (svc_chans (publish ev s)) = length (svc_chans s)" by (rule publish_chans(2) [OF ok])
  have "svc_chans (publish ev s) ! 16 = svc_chans s ! 16" if "length (svc_chans s) = 17"
    using assms that publish_chans(3) [OF ok, of 16 ev] by (simp add: listening_def)
  then show "listening (publish ev s)"
    using assms subs_ok_publish [OF ok] by (simp add: listening_def l)
qed

lemma listening_ops:
  assumes "listening s"
  shows "listening (snd (SendDirect h drv clk p b s)) \<and> length (svc_chans (snd (SendDirect h drv clk p b s))) = length (svc_chans s)"
    and "listening (snd (SendGroup h drv clk p b s)) \<and> length (svc_chans (snd (SendGroup h drv clk p b s))) = length (svc_chans s)"
    and "listening (handleInbound h drv clk m q s) \<and> length (svc_chans (handleInbound h drv clk m q s)) = length (svc_chans s)"
    and "listening (monitor_tick h drv clk s) \<and> length (svc_chans (monitor_tick h drv clk s)) = length (svc_chans s)"
  using assms
  by (simp_all add: SendDirect_def SendGroup_def handleInbound_def monitor_tick_def set_status_def setPeerName_def Let_def
      listening_publish split: sum.split option.split)

lemma listening_receive:
  assumes "listening s" "i < length (svc_chans s)"
  shows "listening (snd (receive i s))" "length (svc_chans (snd (receive i s))) = length (svc_chans s)"
proof -
  show l: "length (svc_chans (snd (receive i s))) = length (svc_chans s)" by (simp add: receive_def Let_def split_def)
  have "svc_chans (snd (receive i s)) ! 16 = svc_chans s ! 16" if "length (svc_chans s) = 17"
    using assms that
    by (cases "i = 16") (simp_all add: receive_def Let_def split_def listening_def recv_def close_chan_def make_chan_def)
  then show "listening (snd (receive i s))"
    using assms subs_ok_receive [of s i] by (simp add: listening_def l) (simp add: receive_def Let_def split_def)
qed

lemma listening_deaf:
  assumes "listening s" "length (svc_chans s) = 17"
  shows "receive 16 s = (RecvClosed, s)"
proof -
  have c: "svc_chans s ! 16 = close_chan (make_chan subscriberBuf)" using assms by (simp add: listening_def)
  then have "recv (svc_chans s ! 16) = (RecvClosed, svc_chans s ! 16)" by (simp add: recv_def make_chan_def close_chan_def)
  then show ?thesis by (simp add: receive_def)
qed

lemma listening_Subscribe:
  assumes "listening s" "length (svc_chans s) \<le> 16"
  shows "listening (snd (Subscribe s))" "length (svc_chans (snd (Subscribe s))) = Suc (length (svc_chans s))"
    "fst (Subscribe s) = length (svc_chans s)"
proof -
  have ok: "subs_ok s" using assms by (simp add: listening_def)
  show l: "length (svc_chans (snd (Subscribe s))) = Suc (length (svc_chans s))" "fst (Subscribe s) = length (svc_chans s)"
    by (simp_all add: Subscribe_def Let_def)
  have subs: "svc_subs (snd (Subscribe s)) = [0..<min (Suc (length (svc_chans s))) 16]"
  proof (cases "length (svc_chans s) = 16")
    case True
    have "min (Suc 16) 16 = (16::nat)" by simp
    with True assms show ?thesis by (simp add: Subscribe_def Let_def maxSubs_def listening_def del: upt_rec_numeral)
  next
    case False
    with assms have "min (Suc (length (svc_chans s))) 16 = Suc (length (svc_chans s))" by simp
    with False assms show ?thesis by (simp add: Subscribe_def Let_def maxSubs_def listening_def)
  qed
  have "svc_chans (snd (Subscribe s)) ! 16 = close_chan (make_chan subscriberBuf)" if "length (svc_chans s) = 16"
    using assms that by (simp add: Subscribe_def Let_def maxSubs_def listening_def nth_append)
  then show "listening (snd (Subscribe s))"
    using assms subs_ok_Subscribe [OF ok] by (simp add: listening_def [of "snd (Subscribe s)"] l subs)
qed

text \<open>
  What the listener relies on in the service: a subscription adds one channel and returns its number, up to \<open>limit\<close> channels are
  served, the next one comes closed, and a receive keeps the number of channels. A client that waits on its newest channel only
  then gets an event only while the limit has not been exceeded.
\<close>

locale event_source =
  fixes ok :: "'s \<Rightarrow> bool" and channels :: "'s \<Rightarrow> nat" and subscribe :: "'s \<Rightarrow> nat \<times> 's"
    and take_event :: "nat \<Rightarrow> 's \<Rightarrow> 'e recv_outcome \<times> 's" and limit :: nat
  assumes some_channel: "ok s \<Longrightarrow> 0 < channels s"
    and channels_bound: "ok s \<Longrightarrow> channels s \<le> Suc limit"
    and subscribe_ok: "ok s \<Longrightarrow> channels s \<le> limit \<Longrightarrow>
      ok (snd (subscribe s)) \<and> channels (snd (subscribe s)) = Suc (channels s) \<and> fst (subscribe s) = channels s"
    and take_ok: "ok s \<Longrightarrow> i < channels s \<Longrightarrow> ok (snd (take_event i s)) \<and> channels (snd (take_event i s)) = channels s"
    and last_closed: "ok s \<Longrightarrow> channels s = Suc limit \<Longrightarrow> fst (take_event limit s) = RecvClosed"
begin

lemma newest_index: "ok s \<Longrightarrow> channels s - 1 < channels s"
  using some_channel by simp

lemma newest_closed:
  assumes "ok s" "\<not> channels s \<le> limit"
  shows "fst (take_event (channels s - 1) s) = RecvClosed"
proof -
  have "channels s = Suc limit" using channels_bound [OF assms(1)] assms(2) by simp
  with last_closed [OF assms(1)] show ?thesis by simp
qed

text \<open>One round: an event is taken from the newest channel and the next subscription is made.\<close>

lemma round_ok:
  assumes "ok s" "fst (take_event (channels s - 1) s) = Received ev"
  shows "channels s \<le> limit \<and> ok (snd (subscribe (snd (take_event (channels s - 1) s))))
    \<and> channels (snd (subscribe (snd (take_event (channels s - 1) s)))) = Suc (channels s)"
proof -
  have "channels s \<le> limit" using newest_closed [OF assms(1)] assms(2) by fastforce
  then show ?thesis using take_ok [OF assms(1) newest_index [OF assms(1)]] subscribe_ok by simp
qed

end

interpretation ui_events: event_source listening "\<lambda>s. length (svc_chans s)" Subscribe receive 16
proof
  fix s :: P2PService and i :: nat
  assume l: "listening s"
  show "0 < length (svc_chans s)" "length (svc_chans s) \<le> Suc 16" using l by (auto simp: listening_def)
  show "listening (snd (Subscribe s)) \<and> length (svc_chans (snd (Subscribe s))) = Suc (length (svc_chans s)) \<and> fst (Subscribe s) = length (svc_chans s)"
    if "length (svc_chans s) \<le> 16" using listening_Subscribe [OF l that] by blast
  show "listening (snd (receive i s)) \<and> length (svc_chans (snd (receive i s))) = length (svc_chans s)" if "i < length (svc_chans s)"
    using listening_receive [OF l that] by blast
  show "fst (receive 16 s) = RecvClosed" if "length (svc_chans s) = Suc 16" using listening_deaf [OF l] that by simp
qed

text \<open>Commands that neither listen nor carry an event.\<close>

definition is_event :: "ui_msg \<Rightarrow> bool" where
  "is_event m = (case m of eventChannelMsg _ \<Rightarrow> True | _ \<Rightarrow> False)"

definition is_listener :: "ui_cmd \<Rightarrow> bool" where
  "is_listener c = (case c of CmdListen _ \<Rightarrow> True | _ \<Rightarrow> False)"

definition plain_cmd :: "ui_cmd \<Rightarrow> bool" where
  "plain_cmd c = (case c of CmdMsg m \<Rightarrow> \<not> is_event m | CmdListen _ \<Rightarrow> False | _ \<Rightarrow> True)"

lemmas ui_tests = is_event_def is_listener_def plain_cmd_def

lemma chat_Update_plain: "list_all plain_cmd (snd (chat_Update t msg m))"
  by (auto simp: chat_Update_def lib_cmd_def ui_tests Let_def split_def split: ui_msg.split)

lemma app_key_plain: "app_key e w k m s = Some (m', cs) \<Longrightarrow> list_all plain_cmd cs"
  using chat_Update_plain [of "ue_tea e" "KeyMsg k" "am_chatView m"]
  by (auto simp: app_key_def ui_tests Let_def split_def split: if_splits focusRegion.splits)

lemma handleServiceEvent_plain: "list_all plain_cmd (handleServiceEvent h ev)"
  by (simp add: handleServiceEvent_def ui_tests split: EventKind.split)

lemma Update_plain:
  assumes "Update e w m a s = Some (a', cs, s')" "\<not> is_event m"
  shows "list_all plain_cmd cs" "s' = s"
  using assms app_key_plain [of e w _ a s]
  by (cases m; force simp: Update_def ui_tests Let_def split: sum.splits option.splits)+

lemma Update_event:
  "Update e w (eventChannelMsg ev) a s = Some (a, handleServiceEvent (w_host w) ev @ [CmdListen (fst (Subscribe s))], snd (Subscribe s))"
  by (simp add: Update_def listenEvents_def split_def Let_def)

section \<open>Invariant of the running interface\<close>

abbreviation any_step :: "'p itself \<Rightarrow> P2PService \<Rightarrow> P2PService \<Rightarrow> bool" where
  "any_step p \<equiv> svc_step (\<lambda>_ :: 'p host. True) (\<lambda>_. True)"

lemma run_plain:
  fixes w :: "'p world"
  assumes "plain_cmd c" "run_cmd w pick cn c s = (Returns r, s')" "listening s"
  shows "listening s' \<and> length (svc_chans s') = length (svc_chans s) \<and> (s' = s \<or> any_step TYPE('p) s s')
    \<and> filter is_event (case r of None \<Rightarrow> [] | Some m \<Rightarrow> [m]) = []"
proof (cases c)
  case (CmdSend conv body)
  then show ?thesis
    using assms listening_ops(1,2) [OF assms(3), of "w_host w" "w_drv w" "w_clk w" conv body]
      step_send [of "\<lambda>_. True" "w_host w" "\<lambda>_. True" "w_drv w" s "w_clk w" conv body]
      step_send_group [of "\<lambda>_. True" "w_host w" "\<lambda>_. True" "w_drv w" s "w_clk w" conv body]
    by (auto simp: doSend_def Let_def split_def is_event_def split: if_splits)
qed (use assms in \<open>auto simp: ui_tests\<close>)

lemma run_listen:
  assumes "run_cmd (w :: 'p world) pick cn (CmdListen (length (svc_chans s) - 1)) s = (Returns r, s')" "listening s"
  shows "listening s' \<and> length (svc_chans s') = length (svc_chans s) \<and> (s' = s \<or> any_step TYPE('p) s s')
    \<and> (r = None \<or> (\<exists>ev. r = Some (eventChannelMsg ev)) \<and> length (svc_chans s) \<le> 16)"
proof -
  let ?i = "length (svc_chans s) - 1"
  have i: "?i < length (svc_chans s)" by (rule ui_events.newest_index [OF assms(2)])
  note deaf = ui_events.newest_closed [OF assms(2)]
  have "any_step TYPE('p) s (snd (receive ?i s))" by (rule step_receive [OF i])
  with deaf listening_receive [OF assms(2) i] assms show ?thesis
    by (cases "receive ?i s") (auto split: if_splits recv_outcome.splits)
qed

definition ui_inv :: "'p itself \<Rightarrow> ('v, 'i) ui \<Rightarrow> bool" where
  "ui_inv p u \<longleftrightarrow> app_ok (ui_app u) \<and> listening (ui_svc u) \<and> svc_reachable (\<lambda>_ :: 'p host. True) (\<lambda>_. True) (ui_svc u)
     \<and> length (filter is_listener (ui_cmds u)) + length (filter is_event (ui_msgs u)) \<le> 1
     \<and> (\<forall>c \<in> set (ui_cmds u). plain_cmd c \<or> c = CmdListen (length (svc_chans (ui_svc u)) - 1))
     \<and> (filter is_event (ui_msgs u) \<noteq> [] \<longrightarrow> length (svc_chans (ui_svc u)) \<le> 16)"

lemma plain_not_listen: "list_all plain_cmd cs \<Longrightarrow> filter is_listener cs = []"
  by (induction cs) (auto simp: ui_tests split: ui_cmd.splits)

lemma ui_init_inv: "ui_init e u \<Longrightarrow> ui_inv (p :: 'p itself) u"
proof -
  assume "ui_init e u"
  then obtain s where s: "svc_init s" "u = ui_start e s" by (auto simp: ui_init_def)
  then have e: "svc_subs s = []" "svc_chans s = []" by (auto simp: svc_init_def NewP2PService_def)
  have "svc_reachable (\<lambda>_ :: 'p host. True) (\<lambda>_. True) s" by (rule reach_init) (rule s(1))
  then have r: "svc_reachable (\<lambda>_ :: 'p host. True) (\<lambda>_. True) (snd (Subscribe s))" by (rule reach_step) (rule step_subscribe)
  have "subs_ok (snd (Subscribe s))" by (rule subs_ok_Subscribe) (simp add: subs_ok_def e)
  then have "listening (snd (Subscribe s))" by (simp add: listening_def) (simp add: Subscribe_def Let_def maxSubs_def e)
  moreover have "filter is_listener (lib_cmd b) = []" "\<forall>c \<in> set (lib_cmd b). plain_cmd c" for b by (auto simp: lib_cmd_def ui_tests)
  moreover have "fst (Subscribe s) = 0" "length (svc_chans (snd (Subscribe s))) = 1" by (simp_all add: Subscribe_def Let_def e maxSubs_def)
  ultimately show ?thesis
    using r ui_New_ok [of e]
    by (auto simp: s(2) ui_start_def ui_Init_def listenEvents_def refreshAll_def ui_inv_def Let_def split_def ui_tests)
qed

lemma ui_step_inv:
  fixes p :: "'p itself"
  assumes "ui_step e p u v" "ui_inv p u"
  shows "ui_inv p v"
  using assms
proof (induction rule: ui_step.induct)
  case (ui_run u xs c ys w pick r s)
  let ?n = "length (svc_chans (ui_svc u))"
  have inv: "listening (ui_svc u)" "plain_cmd c \<or> c = CmdListen (?n - 1)" using ui_run by (simp_all add: ui_inv_def)
  define es where "es = filter is_event (case r of None \<Rightarrow> [] | Some m \<Rightarrow> [m])"
  have *: "listening s \<and> length (svc_chans s) = ?n \<and> (s = ui_svc u \<or> any_step TYPE('p) (ui_svc u) s)
    \<and> (es = [] \<or> is_listener c \<and> length es = 1 \<and> ?n \<le> 16)"
    using inv(2)
  proof
    assume "plain_cmd c"
    then show ?thesis using run_plain [OF _ ui_run(2) inv(1)] by (simp add: es_def)
  next
    assume c: "c = CmdListen (?n - 1)"
    show ?thesis using run_listen [OF ui_run(2) [unfolded c] inv(1)] by (auto simp: c es_def ui_tests)
  qed
  then have "svc_reachable (\<lambda>_ :: 'p host. True) (\<lambda>_. True) s" using ui_run(3) by (auto simp: ui_inv_def intro: reach_step)
  moreover have "length (filter is_listener (xs @ ys)) + length es \<le> length (filter is_listener (ui_cmds u))"
    using * by (auto simp: ui_run(1))
  ultimately show ?case
    using ui_run(1,3) * by (auto simp: ui_inv_def simp flip: es_def)
next
  case (ui_update u xs m ys w a cs s)
  have ok: "app_ok a"
    using ui_update Update_ok [of "ui_app u" e w m "ui_svc u"] by (metis Pair_inject option.inject ui_inv_def)
  show ?case
  proof (cases "is_event m")
    case False
    with ok ui_update(1,3) Update_plain [OF ui_update(2) False] plain_not_listen [of cs] show ?thesis
      by (auto simp: ui_inv_def list_all_iff)
  next
    case True
    then obtain ev where m: "m = eventChannelMsg ev" by (auto simp: is_event_def split: ui_msg.splits)
    have n: "listening (ui_svc u)" "length (svc_chans (ui_svc u)) \<le> 16" "filter is_listener (ui_cmds u) = []"
      "filter is_event (xs @ ys) = []"
      using ui_update(1,3) True by (auto simp: ui_inv_def filter_empty_conv)
    have old: "\<forall>c \<in> set (ui_cmds u). plain_cmd c"
      using ui_update(3) n(3) by (fastforce simp: ui_inv_def is_listener_def filter_empty_conv)
    note sub = listening_Subscribe [OF n(1,2)]
    have new: "cs = handleServiceEvent (w_host w) ev @ [CmdListen (length (svc_chans (ui_svc u)))]" "s = snd (Subscribe (ui_svc u))"
      using ui_update(2) sub(3) by (simp_all add: m Update_event)
    have "any_step TYPE('p) (ui_svc u) s" unfolding new(2) by (rule step_subscribe)
    then have "svc_reachable (\<lambda>_ :: 'p host. True) (\<lambda>_. True) s" using ui_update(3) by (auto simp: ui_inv_def intro: reach_step)
    with ok n old sub show ?thesis
      using handleServiceEvent_plain [of "w_host w" ev] plain_not_listen [OF handleServiceEvent_plain, of "w_host w" ev]
      by (simp add: ui_inv_def new list_all_iff ball_Un is_listener_def)
  qed
next
  case (ui_inbound u h drv clk msg q)
  have "any_step TYPE('p) (ui_svc u) (handleInbound h drv clk msg q (ui_svc u))" by (rule step_inbound) simp_all
  then show ?case
    using ui_inbound listening_ops(3) [of "ui_svc u" h drv clk msg q] by (auto simp: ui_inv_def intro: reach_step)
next
  case (ui_monitor u h drv clk)
  have "any_step TYPE('p) (ui_svc u) (monitor_tick h drv clk (ui_svc u))" by (rule step_monitor) simp_all
  then show ?case
    using ui_monitor listening_ops(4) [of "ui_svc u" h drv clk] by (auto simp: ui_inv_def intro: reach_step)
qed (simp_all add: ui_inv_def is_event_def)

interpretation ui: invariant_system "ui_init e" "ui_step e p" "ui_inv p" for e p
  by unfold_locales (auto intro: ui_init_inv ui_step_inv)

lemma ui_step_grows:
  assumes "ui_step e (p :: 'p itself) u v" "ui_inv p u"
  shows "length (svc_chans (ui_svc u)) \<le> length (svc_chans (ui_svc v))"
  using assms
proof (induction rule: ui_step.induct)
  case (ui_run u xs c ys w pick r s)
  have inv: "listening (ui_svc u)" "plain_cmd c \<or> c = CmdListen (length (svc_chans (ui_svc u)) - 1)"
    using ui_run by (simp_all add: ui_inv_def)
  then show ?case using run_plain [OF _ ui_run(2) inv(1)] run_listen [of w pick _ "ui_svc u" r s] ui_run(2) by auto
next
  case (ui_update u xs m ys w a cs s)
  then show ?case
    using Update_plain(2) [OF ui_update(2)] Update_event [of e w _ "ui_app u" "ui_svc u"]
    by (cases "is_event m") (auto simp: is_event_def Subscribe_def Let_def split: ui_msg.splits if_splits)
qed (simp_all add: ui_inv_def listening_ops)

lemma ui_steps:
  assumes "(ui_step e p)\<^sup>*\<^sup>* u v" "ui_inv p u"
  shows "ui_inv p v \<and> length (svc_chans (ui_svc u)) \<le> length (svc_chans (ui_svc v))"
  using assms
proof (induction rule: rtranclp_induct)
  case (step v z)
  then show ?case using ui_step_inv [OF step.hyps(2)] ui_step_grows [OF step.hyps(2)] by linarith
qed simp

section \<open>One event through the loop\<close>

definition newest :: "P2PService \<Rightarrow> Event chan" where
  "newest s = svc_chans s ! (length (svc_chans s) - 1)"

lemma publish_newest:
  assumes "listening s" "length (svc_chans s) \<le> 16" "length (chan_buf (newest s)) < 64"
  shows "newest (publish ev s) = (newest s)\<lparr>chan_buf := chan_buf (newest s) @ [ev]\<rparr>"
proof -
  let ?i = "length (svc_chans s) - 1"
  have ok: "subs_ok s" and i: "?i < length (svc_chans s)" "?i \<in> set (svc_subs s)"
    using assms(1,2) by (auto simp: listening_def)
  then have "chan_cap (newest s) = 64" "\<not> chan_closed (newest s)"
    using nth_mem [OF i(1)] by (simp_all add: newest_def subs_ok_def subscriberBuf_def)
  then show ?thesis
    using publish_chans(2,3) [OF ok] i assms(3) by (simp add: newest_def try_send_def)
qed

lemma take_newest:
  assumes "listening s" "length (svc_chans s) \<le> 16" "chan_buf (newest s) = ev # evs"
  shows "receive (length (svc_chans s) - 1) s
    = (Received ev, s\<lparr>svc_chans := (svc_chans s)[length (svc_chans s) - 1 := (newest s)\<lparr>chan_buf := evs\<rparr>]\<rparr>)"
  using assms(3) by (simp add: receive_def newest_def recv_def Let_def)

lemma Subscribe_open:
  assumes "listening s" "length (svc_chans s) < 16"
  shows "Subscribe s = (length (svc_chans s), s\<lparr>svc_chans := svc_chans s @ [make_chan subscriberBuf], svc_subs := svc_subs s @ [length (svc_chans s)]\<rparr>)"
  using assms by (simp add: Subscribe_def Let_def listening_def maxSubs_def)

lemma two_steps: "r x y \<Longrightarrow> r y z \<Longrightarrow> r\<^sup>*\<^sup>* x z"
  by (meson rtranclp.simps)

text \<open>When the newest channel holds an event, the listener can take it and the interface handles it: the channel loses the event,
  and the next listener waits on a channel subscribed only then.\<close>

lemma event_round:
  fixes h :: "'p host" and u :: "('v, 'i) ui"
  assumes inv: "ui_inv TYPE('p) u" and cmds: "ui_cmds u = xs @ CmdListen (length (svc_chans (ui_svc u)) - 1) # ys"
    and run: "\<not> am_cancelled (ui_app u)" and n: "length (svc_chans (ui_svc u)) \<le> 16" and ev: "chan_buf (newest (ui_svc u)) = ev # evs"
  defines "s1 \<equiv> snd (receive (length (svc_chans (ui_svc u)) - 1) (ui_svc u))"
  shows "(ui_step e TYPE('p))\<^sup>*\<^sup>* u (u\<lparr>ui_svc := snd (Subscribe s1),
      ui_cmds := xs @ ys @ handleServiceEvent h ev @ [CmdListen (length (svc_chans (ui_svc u)))]\<rparr>)"
proof -
  let ?n = "length (svc_chans (ui_svc u))"
  define w :: "'p world" where "w = \<lparr>w_host = h, w_drv = (\<lambda>_. no_faults), w_gdrv = (\<lambda>_. no_faults), w_clk = (\<lambda>_. 0)\<rparr>"
  have l: "listening (ui_svc u)" using inv by (simp add: ui_inv_def)
  have r: "run_cmd w False (am_cancelled (ui_app u)) (CmdListen (?n - 1)) (ui_svc u) = (Returns (Some (eventChannelMsg ev)), s1)"
    using take_newest [OF l n ev] run by (simp add: s1_def)
  let ?u = "u\<lparr>ui_cmds := xs @ ys, ui_svc := s1, ui_msgs := ui_msgs u @ [eventChannelMsg ev]\<rparr>"
  have 1: "ui_step e TYPE('p) u ?u" using ui_step.ui_run [OF cmds r] by simp
  have "fst (Subscribe s1) = ?n" using take_newest [OF l n ev] by (simp add: s1_def Subscribe_def Let_def)
  then have "Update e w (eventChannelMsg ev) (ui_app ?u) (ui_svc ?u)
      = Some (ui_app u, handleServiceEvent h ev @ [CmdListen ?n], snd (Subscribe s1))"
    by (simp add: Update_event w_def)
  from ui_step.ui_update [OF _ this, of "ui_msgs u" "[]"]
  have 2: "ui_step e TYPE('p) ?u (?u\<lparr>ui_app := ui_app u, ui_svc := snd (Subscribe s1),
      ui_cmds := (xs @ ys) @ handleServiceEvent h ev @ [CmdListen ?n], ui_msgs := ui_msgs u @ []\<rparr>)" by simp
  show ?thesis by (rule two_steps [where r = "ui_step e TYPE('p)", OF 1]) (use 2 in simp)
qed

end
