(* ===== verification/Ui_Session.thy ===== *)
theory Ui_Session
  imports Ui_Laws
begin

text \<open>
  What a user of the terminal interface sees: the loop never panics, an inbound message appears in the open conversation, Enter
  sends, and four behaviours the code does not intend (the listener goes deaf, loses events of a burst, scrolling has no
  effect, some letters cannot be typed).
\<close>

section \<open>Schedules\<close>

lemma reach_steps: "reach init step u \<Longrightarrow> step\<^sup>*\<^sup>* u v \<Longrightarrow> reach init step v"
  by (rotate_tac 1, induction rule: rtranclp_induct) (auto intro: reach_step)

definition inbound_message :: "'p host \<Rightarrow> Message \<Rightarrow> 'p \<Rightarrow> P2PService \<Rightarrow> DisplayMessage" where
  "inbound_message h m q s = \<lparr>dm_ID = ID m, dm_SenderID = h_String h q, dm_SenderName = getPeerName s (h_String h q),
     dm_Body = Body m, dm_Timestamp = Timestamp m, dm_IsOutbound = False\<rparr>"

lemma newest_update [simp]:
  "newest (s\<lparr>svc_db := d\<rparr>) = newest s" "newest (s\<lparr>svc_status := x\<rparr>) = newest s" "newest (s\<lparr>svc_lastCount := c\<rparr>) = newest s"
  by (simp_all add: newest_def)

lemma inbound_newest:
  assumes "listening s" "length (svc_chans s) \<le> 16" "chan_buf (newest s) = []" "length (h_String h q) \<le> 512"
  shows "chan_buf (newest (handleInbound h drv clk m q s)) =
    [new_message_event (if GroupID m \<noteq> [] then GroupID m else h_String h q) (inbound_message h m q s)]"
  using assms by (simp add: handleInbound_def maxPeerIDLen_def Let_def publish_newest inbound_message_def getPeerName_def)

lemma monitor_newest:
  assumes "listening s" "length (svc_chans s) \<le> 16" "chan_buf (newest s) = []"
    and "svc_status s \<noteq> (if h_Connected h = [] then StatusConnecting else StatusConnected)" "svc_lastCount s \<noteq> len (h_Connected h)"
  shows "chan_buf (newest (monitor_tick h drv clk s)) =
    [(event EventStatusChanged)\<lparr>ev_Status := if h_Connected h = [] then StatusConnecting else StatusConnected\<rparr>, event EventPeerConnected]"
  using assms by (simp add: monitor_tick_def Let_def publish_newest listening_publish split: if_splits)

text \<open>The round of \<open>event_round\<close> started by a change of the service.\<close>

lemma event_round_after:
  fixes h :: "'p host" and u :: "('v, 'i) ui"
  assumes step: "ui_step e TYPE('p) u (u\<lparr>ui_svc := s\<rparr>)" and inv: "ui_inv TYPE('p) u"
    and len: "length (svc_chans s) = length (svc_chans (ui_svc u))" and n: "length (svc_chans s) \<le> 16"
    and cmds: "ui_cmds u = xs @ CmdListen (length (svc_chans s) - 1) # ys" and run: "\<not> am_cancelled (ui_app u)"
    and ev: "chan_buf (newest s) = ev # evs"
  obtains v where "(ui_step e TYPE('p))\<^sup>*\<^sup>* (u\<lparr>ui_svc := s\<rparr>) v" "ui_inv TYPE('p) v" "ui_app v = ui_app u" "ui_msgs v = ui_msgs u"
    "ui_cmds v = xs @ ys @ handleServiceEvent h ev @ [CmdListen (length (svc_chans s))]"
    "length (svc_chans (ui_svc v)) = Suc (length (svc_chans s))"
    "chan_buf (svc_chans (ui_svc v) ! (length (svc_chans s) - 1)) = evs" "chan_buf (newest (ui_svc v)) = []"
proof -
  let ?n = "length (svc_chans s)" and ?u = "u\<lparr>ui_svc := s\<rparr>"
  have inv1: "ui_inv TYPE('p) ?u" by (rule ui_step_inv [OF step inv])
  then have l: "listening s" by (simp add: ui_inv_def)
  define s1 where "s1 = snd (receive (?n - 1) s)"
  have s1: "s1 = s\<lparr>svc_chans := (svc_chans s)[?n - 1 := (newest s)\<lparr>chan_buf := evs\<rparr>]\<rparr>"
    using take_newest [OF l n ev] by (simp add: s1_def)
  define v where "v = ?u\<lparr>ui_svc := snd (Subscribe s1), ui_cmds := xs @ ys @ handleServiceEvent h ev @ [CmdListen ?n]\<rparr>"
  have steps: "(ui_step e TYPE('p))\<^sup>*\<^sup>* ?u v"
    using event_round [OF inv1, of xs ys ev evs e h] cmds run n ev by (simp add: v_def s1_def)
  have "?n \<noteq> 0" using l by (auto simp: listening_def)
  then have "length (svc_chans (snd (Subscribe s1))) = Suc ?n" "chan_buf (svc_chans (snd (Subscribe s1)) ! (?n - 1)) = evs"
    "chan_buf (newest (snd (Subscribe s1))) = []"
    by (simp_all add: Subscribe_def s1 Let_def newest_def nth_append make_chan_def)
  then show ?thesis
    using that [OF steps conjunct1 [OF ui_steps [OF steps inv1]]] by (simp add: v_def)
qed

section \<open>A small terminal\<close>

text \<open>A viewport is its content and a scroll offset from the bottom; the input is its text and its focus; nothing is styled.\<close>

definition demo_tea :: "(string \<times> int, string \<times> bool) tea" where
  "demo_tea = \<lparr>tea_newViewport = (\<lambda>_ _. ([], 0)), tea_SetContent = (\<lambda>c v. (c, snd v)), tea_GotoBottom = (\<lambda>v. (fst v, 0)),
     tea_HalfViewUp = (\<lambda>v. (fst v, snd v + 1)), tea_HalfViewDown = (\<lambda>v. (fst v, max 0 (snd v - 1))), tea_SetDims = (\<lambda>_ _ v. v),
     tea_vpUpdate = (\<lambda>_ v. (v, False)), tea_vpView = (\<lambda>v. FormatInt (snd v) @ fst v), tea_Sync = (\<lambda>_. False),
     tea_newInput = (\<lambda>_ _. ([], False)), tea_Value = fst, tea_Focused = snd, tea_Focus = (\<lambda>i. (fst i, True)),
     tea_Blur = (\<lambda>i. (fst i, False)), tea_Reset = (\<lambda>i. ([], snd i)),
     tea_inputUpdate = (\<lambda>k i. (if snd i then (fst i @ key_text k, True) else i, False)), tea_inputView = fst\<rparr>"

definition demo_lip :: lip where
  "demo_lip = \<lparr>lip_Render = (\<lambda>_ s. s), lip_Box = (\<lambda>_ _ _ s. s), lip_String = (\<lambda>_. []), lip_Width = (\<lambda>s. len s), lip_Height = (\<lambda>_. 1),
     lip_JoinHorizontal = concat, lip_JoinVertical = concat\<rparr>"

definition demo_ui :: "(string \<times> int, string \<times> bool) ui_env" where
  "demo_ui = \<lparr>ue_tea = demo_tea, ue_lip = demo_lip, ue_err = (\<lambda>_. ''error'')\<rparr>"

definition demo_world :: "string world" where
  "demo_world = \<lparr>w_host = demo_host, w_drv = (\<lambda>_. no_faults), w_gdrv = (\<lambda>_. no_faults), w_clk = (\<lambda>_. 5)\<rparr>"

definition typed :: "string \<Rightarrow> key" where "typed s = \<lparr>key_name = s, key_text = s\<rparr>"

lemmas demo_defs = demo_ui_def demo_tea_def demo_lip_def

lemma demo_start: "ui_reachable demo_ui p (ui_start demo_ui demo_svc)"
proof (rule reach_init)
  have "svc_init demo_svc"
    using fresh_db_reachable fresh_db_ready by (auto simp: svc_init_def demo_svc_def)
  then show "ui_init demo_ui (ui_start demo_ui demo_svc)" by (auto simp: ui_init_def)
qed

lemma demo_start_sel:
  "ui_cmds (ui_start demo_ui demo_svc) = [] @ CmdListen 0 # refreshAll" "ui_msgs (ui_start demo_ui demo_svc) = []"
  "ui_app (ui_start demo_ui demo_svc) = ui_New demo_ui" "ui_svc (ui_start demo_ui demo_svc) = snd (Subscribe demo_svc)"
  "length (svc_chans (snd (Subscribe demo_svc))) = 1" "chan_buf (newest (snd (Subscribe demo_svc))) = []"
  by (simp_all add: ui_start_def ui_Init_def listenEvents_def Subscribe_def Let_def demo_svc_groups demo_defs lib_cmd_def maxSubs_def
      newest_def make_chan_def)

text \<open>A key or a size that \<open>Update\<close> handles at once.\<close>

lemma press:
  fixes p :: "'p itself"
  assumes "ui_reachable e p u" "ui_step e p u (u\<lparr>ui_msgs := ui_msgs u @ [m]\<rparr>)"
    and "Update e (w :: 'p world) m (ui_app u) (ui_svc u) = Some (a, cs, s)"
  shows "ui_reachable e p (u\<lparr>ui_app := a, ui_svc := s, ui_cmds := ui_cmds u @ cs\<rparr>)"
proof -
  let ?u = "u\<lparr>ui_msgs := ui_msgs u @ [m]\<rparr>"
  have "Update e w m (ui_app ?u) (ui_svc ?u) = Some (a, cs, s)" using assms(3) by simp
  from ui_step.ui_update [OF _ this, of "ui_msgs u" "[]" p] have "ui_step e p ?u
    (u\<lparr>ui_app := a, ui_svc := s, ui_cmds := ui_cmds u @ cs\<rparr>)" by simp
  then show ?thesis by (rule reach_step [OF reach_step [OF assms(1,2)]])
qed

lemmas press_key = press [OF _ ui_key]

text \<open>A database that knows the peer bob, and the interface on it.\<close>

definition bob_db :: Db where
  "bob_db = snd (UpsertPeer no_faults (\<lambda>_. 5) ''bob'' ''bob'' 5 fresh_db)"

definition bob_svc :: P2PService where
  "bob_svc = NewP2PService demo_identity bob_db (snd (LoadFromStore (\<lambda>_. no_faults) bob_db NewManager))"

lemma bob_db_eq: "bob_db = fresh_db\<lparr>db_peers := [(''bob'',
    \<lparr>pr_display_name = ''bob'', pr_last_seen = FormatNano 5, pr_created_at = FormatNano 5, pr_updated_at = FormatNano 5\<rparr>)]\<rparr>"
  using on_table_ready(1) [OF fresh_db_ready]
  by (simp add: bob_db_def UpsertPeer_def Let_def spoofed_ok upsert_def fresh_db_messages IsZero_def zero_time_def nowUTC_def)

lemma bob_db_ok: "db_reachable bob_db" "db_ready bob_db"
proof -
  show "db_reachable bob_db" unfolding bob_db_def by (rule reach_step [OF fresh_db_reachable]) (rule step_peer)
  have "db_inv bob_db" unfolding bob_db_def by (rule UpsertPeer_inv) (use fresh_db_ready in \<open>simp add: db_ready_def\<close>)
  then show "db_ready bob_db" using fresh_db_ready by (simp add: db_ready_def bob_db_eq schema_version_def)
qed

lemma bob_start: "ui_reachable demo_ui p (ui_start demo_ui bob_svc)"
proof (rule reach_init)
  show "ui_init demo_ui (ui_start demo_ui bob_svc)" using bob_db_ok by (auto simp: ui_init_def svc_init_def bob_svc_def)
qed

lemma load_input [simp]: "cw_input (LoadConversation t lp i n ms m) = tea_Reset t (cw_input m)"
  by (simp add: LoadConversation_def rebuildViewport_def Let_def)

lemma perform:
  fixes p :: "'p itself"
  assumes "ui_reachable e p u" "ui_cmds u = xs @ CmdMsg m # ys"
    and "Update e (w :: 'p world) m (ui_app u) (ui_svc u) = Some (a, cs, s)"
  shows "ui_reachable e p (u\<lparr>ui_app := a, ui_svc := s, ui_cmds := xs @ ys @ cs\<rparr>)"
proof -
  let ?u = "u\<lparr>ui_cmds := xs @ ys, ui_msgs := ui_msgs u @ [m]\<rparr>"
  have 1: "ui_step e p u ?u"
    using ui_step.ui_run [OF assms(2), of w False "Some m" "ui_svc u" e p] by simp
  have "Update e w m (ui_app ?u) (ui_svc ?u) = Some (a, cs, s)" using assms(3) by simp
  from ui_step.ui_update [OF _ this, of "ui_msgs u" "[]" p]
  have "ui_step e p ?u (u\<lparr>ui_app := a, ui_svc := s, ui_cmds := xs @ ys @ cs\<rparr>)" by simp
  then show ?thesis by (rule reach_step [OF reach_step [OF assms(1) 1]])
qed

lemma bob_peers:
  obtains b where "svc_ListPeers demo_host no_faults (snd (Subscribe bob_svc)) = Inr [b]" "cp_PeerID b = ''bob''"
proof -
  have db: "svc_db (snd (Subscribe bob_svc)) = bob_db" "svc_local (snd (Subscribe bob_svc)) = demo_identity"
    by (simp_all add: Subscribe_def Let_def bob_svc_def NewP2PService_def)
  have "ListPeers no_faults bob_db = Inr (map scan_peer (sort_key fst (db_peers bob_db)))"
    using on_table_ready(1) [OF bob_db_ok(2)] by (simp add: ListPeers_def query_clean)
  then have "ListPeers no_faults (svc_db (snd (Subscribe bob_svc))) = Inr [scan_peer (hd (db_peers bob_db))]"
    by (simp add: db) (simp add: bob_db_eq)
  moreover have "sp_PeerID (scan_peer (hd (db_peers bob_db))) = ''bob''" by (simp add: bob_db_eq scan_peer_def)
  moreover have "i_PeerID demo_identity \<noteq> ''bob''" using demo_id_props(3) by (simp add: demo_identity_def)
  ultimately show ?thesis using that by (simp add: svc_ListPeers_def db)
qed

text \<open>The list of peers arrives, the terminal reports its size, the user goes to the tab of peers and opens bob.\<close>

lemma bob_open:
  obtains u where "ui_reachable demo_ui TYPE(string) u" "CmdListen 0 \<in> set (ui_cmds u)" "length (svc_chans (ui_svc u)) = 1"
    "\<not> am_cancelled (ui_app u)" "chan_buf (svc_chans (ui_svc u) ! 0) = []" "cw_conversationID (am_chatView (ui_app u)) = ''bob''"
    "am_focus (ui_app u) = focusChat" "\<not> am_showHelp (ui_app u)" "cw_input (am_chatView (ui_app u)) = ([], True)"
    "30 \<le> cw_width (am_chatView (ui_app u))" "svc_mgr (ui_svc u) = svc_mgr bob_svc"
proof -
  obtain b where b: "svc_ListPeers demo_host no_faults (snd (Subscribe bob_svc)) = Inr [b]" "cp_PeerID b = ''bob''" by (rule bob_peers)
  let ?s = "snd (Subscribe bob_svc)" and ?cs = "[CmdListen 0, CmdMsg MsgConversationsUpdated]"
  let ?m = "ui_New demo_ui"
  have svc: "svc_chans bob_svc = []" "svc_subs bob_svc = []" by (simp_all add: bob_svc_def NewP2PService_def)
  have u0: "ui_start demo_ui bob_svc = \<lparr>ui_app = ?m, ui_svc = ?s, ui_cmds = ?cs @ CmdMsg MsgPeersUpdated # [], ui_msgs = []\<rparr>"
    by (simp add: ui_start_def ui_Init_def listenEvents_def refreshAll_def demo_defs lib_cmd_def Subscribe_def Let_def svc maxSubs_def)
  define m1 where "m1 = ?m\<lparr>am_sidebar := (am_sidebar ?m)\<lparr>sb_peers := [b]\<rparr>\<rparr>"
  have "Update demo_ui demo_world MsgPeersUpdated ?m ?s = Some (m1, [], ?s)"
    by (simp add: Update_def demo_world_def b m1_def)
  from perform [OF bob_start [of "TYPE(string)"] _ , of ?cs MsgPeersUpdated "[]" demo_world] this
  have r1: "ui_reachable demo_ui TYPE(string) \<lparr>ui_app = m1, ui_svc = ?s, ui_cmds = ?cs, ui_msgs = []\<rparr>" by (simp add: u0)
  define m2 where "m2 = layout demo_ui (m1\<lparr>am_width := 80, am_height := 24\<rparr>)"
  from press [OF r1 ui_resize, of 80 24 demo_world m2 "[]" ?s]
  have r2: "ui_reachable demo_ui TYPE(string) \<lparr>ui_app = m2, ui_svc = ?s, ui_cmds = ?cs, ui_msgs = []\<rparr>"
    by (simp add: Update_def m2_def)
  have m2: "am_focus m2 = focusSidebar" "\<not> am_showHelp m2" "\<not> am_cancelled m2" 
    "sb_activeTab (am_sidebar m2) = TabConversations" "sb_cursor (am_sidebar m2) = 0" "sb_focused (am_sidebar m2)"
    "sb_peers (am_sidebar m2) = [b]" "fst (cw_input (am_chatView m2)) = []" "30 \<le> cw_width (am_chatView m2)"
    by (simp_all add: m2_def m1_def layout_def ui_New_def newSidebar_def Let_def sidebar_SetSize_def sidebar_SetFocused_def
        chat_SetSize_def rebuildViewport_def chat_SetFocused_def newChatView_def demo_defs sidebarWidth_def minChatWidth_def)
  define m3 where "m3 = m2\<lparr>am_sidebar := (am_sidebar m2)\<lparr>sb_activeTab := TabGroups\<rparr>\<rparr>"
  define m4 where "m4 = m2\<lparr>am_sidebar := (am_sidebar m2)\<lparr>sb_activeTab := TabPeers\<rparr>\<rparr>"
  define m5 where "m5 = open_with demo_ui demo_world ''bob'' (cp_DisplayName b) m4 ?s"
  have tab: "Update demo_ui demo_world (KeyMsg (typed ''tab'')) m2 ?s = Some (m3, [], ?s)"
    "Update demo_ui demo_world (KeyMsg (typed ''tab'')) m3 ?s = Some (m4, [], ?s)"
    by (simp_all add: Update_def app_key_def typed_def sidebar_Update_def m2 m3_def m4_def)
  have "openSelected demo_ui demo_world m4 ?s = Some m5"
    by (simp add: openSelected_def SelectedConversation_def SelectedGroupID_def SelectedPeer_def index_at_def m4_def m5_def m2 b(2))
  then have enter: "Update demo_ui demo_world (KeyMsg (typed ''enter'')) m4 ?s = Some (m5, [], ?s)"
    by (simp add: Update_def app_key_def typed_def m4_def m2)
  note r = press_key [where w = demo_world and cs = "[]" and s = ?s]
  have r3: "ui_reachable demo_ui TYPE(string) \<lparr>ui_app = m3, ui_svc = ?s, ui_cmds = ?cs, ui_msgs = []\<rparr>"
    using r [OF r2, of "typed ''tab''"] tab(1) by simp
  have r4: "ui_reachable demo_ui TYPE(string) \<lparr>ui_app = m4, ui_svc = ?s, ui_cmds = ?cs, ui_msgs = []\<rparr>"
    using r [OF r3, of "typed ''tab''"] tab(2) by simp
  have r5: "ui_reachable demo_ui TYPE(string) \<lparr>ui_app = m5, ui_svc = ?s, ui_cmds = ?cs, ui_msgs = []\<rparr>"
    using r [OF r4, of "typed ''enter''"] enter by simp
  show ?thesis
    by (rule that [OF r5])
      (simp_all add: m5_def open_with_def setFocus_def m4_def m2 Let_def Subscribe_def svc maxSubs_def make_chan_def chat_SetFocused_def demo_defs)
qed

section \<open>The loop\<close>

text \<open>C14: The interface never panics while it handles a message, whatever the message and the answers of the service: the cursor of the
  sidebar stays within what the selection functions can index. Rendering fails in exactly one situation, a conversation opened
  before the terminal has reported its size; from the first size on the chat panel has at least 30 columns.\<close>

theorem ui_never_panics:
  fixes w :: "'p world"
  assumes "ui_reachable e TYPE('p) u"
  shows "(\<exists>m' cs s'. Update e w m (ui_app u) (ui_svc u) = Some (m', cs, s')
      \<and> (\<forall>wd ht. m = WindowSizeMsg wd ht \<longrightarrow> 30 \<le> cw_width (am_chatView m')))
    \<and> (ui_View e (ui_app u) = None \<longleftrightarrow> \<not> am_quitting (ui_app u) \<and> \<not> am_showHelp (ui_app u)
         \<and> cw_conversationID (am_chatView (ui_app u)) \<noteq> [] \<and> cw_width (am_chatView (ui_app u)) = 0)"
proof
  have ok: "app_ok (ui_app u)" using ui.reach_inv [OF assms] by (simp add: ui_inv_def)
  obtain m' cs s' where "Update e w m (ui_app u) (ui_svc u) = Some (m', cs, s')" by (rule Update_ok [OF ok])
  then show "\<exists>m' cs s'. Update e w m (ui_app u) (ui_svc u) = Some (m', cs, s')
      \<and> (\<forall>wd ht. m = WindowSizeMsg wd ht \<longrightarrow> 30 \<le> cw_width (am_chatView m'))"
    using layout_ok(2) by (auto simp: Update_def)
  have "cw_width (am_chatView (ui_app u)) < 4 \<longleftrightarrow> cw_width (am_chatView (ui_app u)) = 0" using ok by (auto simp: app_ok_def)
  then show "ui_View e (ui_app u) = None \<longleftrightarrow> \<not> am_quitting (ui_app u) \<and> \<not> am_showHelp (ui_app u)
      \<and> cw_conversationID (am_chatView (ui_app u)) \<noteq> [] \<and> cw_width (am_chatView (ui_app u)) = 0"
    using chat_View_panics [of "ue_tea e" "ue_lip e" "am_chatView (ui_app u)"]
      statusBar_View_total [of "ue_lip e" "am_statusBar (ui_app u)"] help_View_total [of "ue_lip e" "am_helpView (ui_app u)"]
    by (auto simp: ui_View_def split: option.split)
qed

theorem ui_never_panics_witness:
  "ui_View demo_ui (ui_New demo_ui) \<noteq> None"
  using ui_never_panics [OF demo_start, of demo_world LibMsg]
  by (simp add: demo_start_sel) (simp add: ui_New_def newChatView_def)

text \<open>C12: An inbound message of the open conversation appears: while the listener is alive and its channel empty, the loop can take the
  event from the channel, turn it into a message for the interface and append the message, with the sender's name and the body, to the
  conversation; the viewport then shows the new content from its bottom.\<close>

theorem ui_shows_inbound:
  fixes h :: "'p host" and u :: "('v, 'i) ui"
  defines "s \<equiv> ui_svc u" and "c \<equiv> am_chatView (ui_app u)"
  assumes "ui_reachable e TYPE('p) u" "CmdListen (length (svc_chans s) - 1) \<in> set (ui_cmds u)" "length (svc_chans s) \<le> 16"
    and "\<not> am_cancelled (ui_app u)" "chan_buf (svc_chans s ! (length (svc_chans s) - 1)) = []" "length (h_String h q) \<le> 512"
    and "cw_conversationID c = (if GroupID m \<noteq> [] then GroupID m else h_String h q)"
  shows "\<exists>v. (ui_step e TYPE('p))\<^sup>*\<^sup>* (u\<lparr>ui_svc := handleInbound h drv clk m q s\<rparr>) v
    \<and> cw_messages (am_chatView (ui_app v)) = cw_messages c @
        [\<lparr>dm_ID = ID m, dm_SenderID = h_String h q, dm_SenderName = getPeerName s (h_String h q),
          dm_Body = Body m, dm_Timestamp = Timestamp m, dm_IsOutbound = False\<rparr>]
    \<and> cw_vp (am_chatView (ui_app v)) =
        tea_GotoBottom (ue_tea e) (tea_SetContent (ue_tea e) (buildContent (ue_lip e) (am_chatView (ui_app v))) (cw_vp c))"
proof -
  have inv: "ui_inv TYPE('p) u" by (rule ui.reach_inv [OF assms(3)])
  then have l: "listening s" by (simp add: ui_inv_def s_def)
  let ?s = "handleInbound h drv clk m q s" and ?dm = "inbound_message h m q s"
  have len: "length (svc_chans ?s) = length (svc_chans s)" using listening_ops(3) [OF l, of h drv clk m q] by blast
  have step: "ui_step e TYPE('p) u (u\<lparr>ui_svc := ?s\<rparr>)" unfolding s_def by (rule ui_inbound)
  obtain xs ys where cmds: "ui_cmds u = xs @ CmdListen (length (svc_chans ?s) - 1) # ys"
    using split_list [OF assms(4)] by (auto simp: len)
  have "chan_buf (newest ?s) = [new_message_event (cw_conversationID c) ?dm]"
    using inbound_newest [OF l assms(5) _ assms(8)] assms(7,9) by (simp add: newest_def)
  moreover have n: "length (svc_chans ?s) = length (svc_chans (ui_svc u))" "length (svc_chans ?s) \<le> 16"
    using assms(5) len unfolding s_def by simp_all
  ultimately obtain v where v0: "(ui_step e TYPE('p))\<^sup>*\<^sup>* (u\<lparr>ui_svc := ?s\<rparr>) v" "ui_app v = ui_app u" "ui_msgs v = ui_msgs u"
    "ui_cmds v = xs @ ys @ handleServiceEvent h (new_message_event (cw_conversationID c) ?dm) @ [CmdListen (length (svc_chans ?s))]"
    using event_round_after [OF step inv n cmds assms(6)] by metis
  then have v: "(ui_step e TYPE('p))\<^sup>*\<^sup>* (u\<lparr>ui_svc := ?s\<rparr>) v" "ui_app v = ui_app u" "ui_msgs v = ui_msgs u"
    "ui_cmds v = (xs @ ys) @ CmdMsg (MsgNewMessage (cw_conversationID c) ?dm) # [CmdListen (length (svc_chans ?s))]"
    by (simp_all add: handleServiceEvent_def new_message_event_def event_def)
  define w :: "'p world" where "w = \<lparr>w_host = h, w_drv = drv, w_gdrv = drv, w_clk = clk\<rparr>"
  let ?v = "v\<lparr>ui_cmds := (xs @ ys) @ [CmdListen (length (svc_chans ?s))], ui_svc := ui_svc v,
      ui_msgs := ui_msgs u @ [MsgNewMessage (cw_conversationID c) ?dm]\<rparr>"
  let ?c = "AppendMessage (ue_tea e) (ue_lip e) ?dm c"
  have 1: "ui_step e TYPE('p) v ?v"
    using ui_step.ui_run [OF v(4), of w False "Some (MsgNewMessage (cw_conversationID c) ?dm)" "ui_svc v"] by (simp add: v(3))
  have "Update e w (MsgNewMessage (cw_conversationID c) ?dm) (ui_app ?v) (ui_svc ?v)
      = Some ((ui_app u)\<lparr>am_chatView := ?c\<rparr>, [CmdMsg MsgConversationsUpdated], ui_svc v)"
    by (simp add: Update_def v(2) c_def)
  from ui_step.ui_update [OF _ this, of "ui_msgs u" "[]"]
  obtain z where 2: "ui_step e TYPE('p) ?v z" "ui_app z = (ui_app u)\<lparr>am_chatView := ?c\<rparr>" by fastforce
  have "(ui_step e TYPE('p))\<^sup>*\<^sup>* v z" by (rule two_steps [where r = "ui_step e TYPE('p)", OF 1 2(1)])
  with v(1) have "(ui_step e TYPE('p))\<^sup>*\<^sup>* (u\<lparr>ui_svc := ?s\<rparr>) z" by (rule rtranclp_trans)
  moreover have "cw_vp ?c = tea_GotoBottom (ue_tea e) (tea_SetContent (ue_tea e) (buildContent (ue_lip e) ?c) (cw_vp c))"
    by (simp add: AppendMessage_def buildContent_def Let_def)
  ultimately show ?thesis using 2(2) by (intro exI [of _ z]) (simp add: inbound_message_def)
qed

theorem ui_shows_inbound_witness:
  "\<exists>u v. (ui_step demo_ui TYPE(string))\<^sup>*\<^sup>* (u\<lparr>ui_svc := handleInbound demo_host (\<lambda>_. no_faults) (\<lambda>_. 5) spoofed ''bob'' (ui_svc u)\<rparr>) v
     \<and> cw_conversationID (am_chatView (ui_app u)) = ''bob'' \<and> dm_Body (last (cw_messages (am_chatView (ui_app v)))) = Body spoofed"
proof -
  obtain u where u: "ui_reachable demo_ui TYPE(string) u" "CmdListen 0 \<in> set (ui_cmds u)" "length (svc_chans (ui_svc u)) = 1"
    "\<not> am_cancelled (ui_app u)" "chan_buf (svc_chans (ui_svc u) ! 0) = []" "cw_conversationID (am_chatView (ui_app u)) = ''bob''"
    by (rule bob_open)
  show ?thesis
    using ui_shows_inbound [OF u(1), of demo_host "''bob''" spoofed "\<lambda>_. no_faults" "\<lambda>_. 5"] u(2-6)
    by (fastforce simp: spoofed_sel demo_host_sel)
qed

text \<open>C29: The interface hears at most 16 events. Each one that it handles subscribes a further channel, and none is given back, so the
  17th subscription comes closed: the listener on it ends without an event, no event is under way, and none will reach the
  interface in any later state, although the service keeps publishing.\<close>

theorem ui_goes_deaf:
  fixes u :: "('v, 'i) ui"
  assumes "ui_reachable e TYPE('p) u"
  shows "length (svc_chans (ui_svc u)) \<le> 17
    \<and> (length (svc_chans (ui_svc u)) = 17 \<longrightarrow> (ui_step e TYPE('p))\<^sup>*\<^sup>* u v \<longrightarrow>
         filter is_event (ui_msgs v) = []
         \<and> (\<forall>c \<in> set (ui_cmds v). \<forall>(w :: 'p world) pick cn ev. fst (run_cmd w pick cn c (ui_svc v)) \<noteq> Returns (Some (eventChannelMsg ev))))"
proof (intro conjI impI)
  have inv: "ui_inv TYPE('p) u" by (rule ui.reach_inv [OF assms])
  then show "length (svc_chans (ui_svc u)) \<le> 17" by (simp add: ui_inv_def listening_def)
  assume n: "length (svc_chans (ui_svc u)) = 17" and steps: "(ui_step e TYPE('p))\<^sup>*\<^sup>* u v"
  have v: "ui_inv TYPE('p) v" "17 \<le> length (svc_chans (ui_svc v))" using ui_steps [OF steps inv] n by simp_all
  then have l: "listening (ui_svc v)" by (simp add: ui_inv_def)
  have n': "length (svc_chans (ui_svc v)) = 17" using l v(2) by (simp add: listening_def)
  then show "filter is_event (ui_msgs v) = []" using v(1) by (auto simp: ui_inv_def)
  show "\<forall>c \<in> set (ui_cmds v). \<forall>(w :: 'p world) pick cn ev. fst (run_cmd w pick cn c (ui_svc v)) \<noteq> Returns (Some (eventChannelMsg ev))"
  proof (intro ballI allI notI)
    fix c and w :: "'p world" and pick cn ev
    assume c: "c \<in> set (ui_cmds v)" and r: "fst (run_cmd w pick cn c (ui_svc v)) = Returns (Some (eventChannelMsg ev))"
    then have r: "run_cmd w pick cn c (ui_svc v) = (Returns (Some (eventChannelMsg ev)), snd (run_cmd w pick cn c (ui_svc v)))"
      by (simp add: prod_eq_iff)
    have "plain_cmd c \<or> c = CmdListen 16" using v(1) c n' by (auto simp: ui_inv_def)
    then show False
    proof
      assume "plain_cmd c"
      then show False using run_plain [OF _ r l] by (simp add: is_event_def)
    next
      assume "c = CmdListen 16"
      then show False using run_listen [of w pick cn "ui_svc v"] r l n' by fastforce
    qed
  qed
qed

text \<open>Rounds of one inbound message each.\<close>

lemma demo_rounds:
  "n \<le> 16 \<Longrightarrow> \<exists>u. ui_reachable demo_ui TYPE(string) u \<and> length (svc_chans (ui_svc u)) = Suc n \<and> CmdListen n \<in> set (ui_cmds u)
     \<and> \<not> am_cancelled (ui_app u) \<and> chan_buf (newest (ui_svc u)) = []"
proof (induction n)
  case 0
  show ?case
    by (rule exI [of _ "ui_start demo_ui demo_svc"]) (simp add: demo_start demo_start_sel ui_New_def)
next
  case (Suc n)
  then obtain u where u: "ui_reachable demo_ui TYPE(string) u" "length (svc_chans (ui_svc u)) = Suc n" "CmdListen n \<in> set (ui_cmds u)"
    "\<not> am_cancelled (ui_app u)" "chan_buf (newest (ui_svc u)) = []" by auto
  have inv: "ui_inv TYPE(string) u" by (rule ui.reach_inv [OF u(1)])
  then have l: "listening (ui_svc u)" by (simp add: ui_inv_def)
  let ?s = "handleInbound demo_host (\<lambda>_. no_faults) (\<lambda>_. 5) spoofed ''bob'' (ui_svc u)"
  have len: "length (svc_chans ?s) = length (svc_chans (ui_svc u))"
    using listening_ops(3) [OF l, of demo_host "\<lambda>_. no_faults" "\<lambda>_. 5" spoofed "''bob''"] by blast
  have n: "length (svc_chans ?s) \<le> 16" "length (svc_chans (ui_svc u)) \<le> 16" using len u(2) Suc.prems by simp_all
  obtain xs ys where cmds: "ui_cmds u = xs @ CmdListen (length (svc_chans ?s) - 1) # ys"
    using split_list [OF u(3)] by (auto simp: len u(2))
  obtain ev where ev: "chan_buf (newest ?s) = ev # []"
    using inbound_newest [OF l n(2) u(5), of demo_host "''bob''"] by (simp add: demo_host_sel)
  have step: "ui_step demo_ui TYPE(string) u (u\<lparr>ui_svc := ?s\<rparr>)" by (rule ui_inbound)
  obtain v where v: "(ui_step demo_ui TYPE(string))\<^sup>*\<^sup>* (u\<lparr>ui_svc := ?s\<rparr>) v" "ui_app v = ui_app u"
    "ui_cmds v = xs @ ys @ handleServiceEvent demo_host ev @ [CmdListen (length (svc_chans ?s))]"
    "length (svc_chans (ui_svc v)) = Suc (length (svc_chans ?s))" "chan_buf (newest (ui_svc v)) = []"
    by (rule event_round_after [OF step inv len n(1) cmds u(4) ev, of demo_host])
  have "ui_reachable demo_ui TYPE(string) (u\<lparr>ui_svc := ?s\<rparr>)" using u(1) step by (rule reach_step)
  then have "ui_reachable demo_ui TYPE(string) v" using v(1) by (rule reach_steps)
  with v u(2,4) len show ?case by (intro exI [of _ v]) simp
qed

theorem ui_goes_deaf_witness:
  "\<exists>u :: (string \<times> int, string \<times> bool) ui. length (svc_chans (ui_svc u)) = 17 \<and> CmdListen 16 \<in> set (ui_cmds u)
     \<and> filter is_event (ui_msgs u) = []"
proof -
  obtain u :: "(string \<times> int, string \<times> bool) ui" where u: "ui_reachable demo_ui TYPE(string) u" "length (svc_chans (ui_svc u)) = 17"
    "CmdListen 16 \<in> set (ui_cmds u)"
    using demo_rounds [OF order_refl] by (elim exE conjE) (simp only: eval_nat_numeral)
  show ?thesis using ui_goes_deaf [OF u(1), of u] u(2,3) by blast
qed

text \<open>C30: Of two events published together the interface can lose the second. A tick of the monitor that finds a new status and a new
  number of peers publishes both; the listener takes the first, and the next listener is subscribed to a channel of its own. The
  notice of the new peer stays in the old channel, which no later listener reads, so the list of peers is not refreshed.\<close>

theorem burst_event_lost:
  fixes h :: "'p host" and u :: "('v, 'i) ui"
  defines "s \<equiv> ui_svc u" and "i \<equiv> length (svc_chans (ui_svc u)) - 1"
  defines "st \<equiv> (if h_Connected h = [] then StatusConnecting else StatusConnected)"
  assumes "ui_reachable e TYPE('p) u" "CmdListen i \<in> set (ui_cmds u)" "i < 16" "\<not> am_cancelled (ui_app u)" "chan_buf (svc_chans s ! i) = []"
    and "svc_status s \<noteq> st" "svc_lastCount s \<noteq> len (h_Connected h)"
  shows "\<exists>v. (ui_step e TYPE('p))\<^sup>*\<^sup>* (u\<lparr>ui_svc := monitor_tick h drv clk s\<rparr>) v
    \<and> CmdMsg (MsgStatusChanged st (len (h_Connected h))) \<in> set (ui_cmds v)
    \<and> chan_buf (svc_chans (ui_svc v) ! i) = [event EventPeerConnected]
    \<and> (\<forall>z. (ui_step e TYPE('p))\<^sup>*\<^sup>* v z \<longrightarrow> CmdListen i \<notin> set (ui_cmds z))"
proof -
  have inv: "ui_inv TYPE('p) u" by (rule ui.reach_inv [OF assms(4)])
  then have l: "listening s" by (simp add: ui_inv_def s_def)
  let ?s = "monitor_tick h drv clk s"
  have len: "length (svc_chans ?s) = length (svc_chans s)" using listening_ops(4) [OF l, of h drv clk] by blast
  have pos: "Suc i = length (svc_chans s)" using l by (auto simp: listening_def i_def s_def)
  have n: "length (svc_chans ?s) = length (svc_chans (ui_svc u))" "length (svc_chans ?s) \<le> 16" "length (svc_chans s) \<le> 16"
    using len pos assms(6) by (simp_all add: s_def)
  have step: "ui_step e TYPE('p) u (u\<lparr>ui_svc := ?s\<rparr>)" unfolding s_def by (rule ui_monitor)
  obtain xs ys where cmds: "ui_cmds u = xs @ CmdListen (length (svc_chans ?s) - 1) # ys"
    using split_list [OF assms(5)] by (auto simp: len simp flip: pos)
  have "chan_buf (newest ?s) = (event EventStatusChanged)\<lparr>ev_Status := st\<rparr> # [event EventPeerConnected]"
    unfolding st_def by (rule monitor_newest [OF l n(3)]) (use assms(8-10) in \<open>simp_all add: newest_def st_def flip: pos\<close>)
  from event_round_after [OF step inv n(1,2) cmds assms(7) this, of h]
  obtain v where v: "(ui_step e TYPE('p))\<^sup>*\<^sup>* (u\<lparr>ui_svc := ?s\<rparr>) v" "ui_inv TYPE('p) v"
    "ui_cmds v = xs @ ys @ handleServiceEvent h ((event EventStatusChanged)\<lparr>ev_Status := st\<rparr>) @ [CmdListen (length (svc_chans ?s))]"
    "length (svc_chans (ui_svc v)) = Suc (length (svc_chans ?s))"
    "chan_buf (svc_chans (ui_svc v) ! (length (svc_chans ?s) - 1)) = [event EventPeerConnected]" by metis
  have "CmdListen i \<notin> set (ui_cmds z)" if "(ui_step e TYPE('p))\<^sup>*\<^sup>* v z" for z
  proof -
    have z: "ui_inv TYPE('p) z" "Suc (Suc i) \<le> length (svc_chans (ui_svc z))" using ui_steps [OF that v(2)] v(4) len pos by simp_all
    then show ?thesis by (fastforce simp: ui_inv_def plain_cmd_def)
  qed
  with v show ?thesis
    by (intro exI [of _ v]) (simp add: handleServiceEvent_def event_def ConnectedPeerCount_def len flip: pos)
qed

theorem burst_event_lost_witness:
  "\<exists>v :: (string \<times> int, string \<times> bool) ui. CmdMsg (MsgStatusChanged StatusConnected 2) \<in> set (ui_cmds v)
     \<and> chan_buf (svc_chans (ui_svc v) ! 0) = [event EventPeerConnected] \<and> CmdListen 0 \<notin> set (ui_cmds v)"
proof -
  have s: "svc_status (snd (Subscribe demo_svc)) = StatusConnecting" "svc_lastCount (snd (Subscribe demo_svc)) = 0"
    by (simp_all add: Subscribe_def Let_def demo_svc_def NewP2PService_def)
  have h: "h_Connected demo_host = [''bob'', ''eve'']" by (simp add: demo_host_def)
  show ?thesis
    using burst_event_lost [OF demo_start, of demo_host "\<lambda>_. no_faults" "\<lambda>_. 5"] demo_start_sel(6)
    by (auto simp: demo_start_sel(1-5) s h newest_def ui_New_def)
qed

section \<open>Keys\<close>

lemma group_listed:
  assumes "manager_inv (svc_mgr s)"
  shows "conv \<in> cg_GroupID ` set (svc_ListGroups s) \<longleftrightarrow> map_of (groups (svc_mgr s)) conv \<noteq> None"
proof -
  have g: "group_ok k g" if "map_of (groups (svc_mgr s)) k = Some g" for k g using assms that by (simp add: manager_inv_def)
  have get: "GetGroup (svc_mgr s) k = map_of (groups (svc_mgr s)) k" if "map_of (groups (svc_mgr s)) k \<noteq> None" for k
    using that g by (auto simp: GetGroup_def group_ok_def trimmed_def)
  have k: "k \<in> set (ListGroups (svc_mgr s)) \<longleftrightarrow> map_of (groups (svc_mgr s)) k \<noteq> None" for k
    by (simp add: ListGroups_def map_of_eq_None_iff)
  define row where "row = (\<lambda>g :: Group. \<lparr>cg_GroupID = g_ID g, cg_Name = g_Name g, cg_MemberCount = len (g_Members g), cg_CreatedAt = g_CreatedAt g\<rparr>)"
  have "set (svc_ListGroups s) = (\<lambda>i. the (map_option row (GetGroup (svc_mgr s) i))) ` {i \<in> set (ListGroups (svc_mgr s)). GetGroup (svc_mgr s) i \<noteq> None}"
    by (simp add: svc_ListGroups_def List.map_filter_def row_def)
  also have "\<dots> = (\<lambda>i. the (map_option row (map_of (groups (svc_mgr s)) i))) ` {i. map_of (groups (svc_mgr s)) i \<noteq> None}"
    by (rule image_cong) (use get in \<open>auto simp: k\<close>)
  finally have in_list: "r \<in> set (svc_ListGroups s) \<longleftrightarrow> (\<exists>k g. map_of (groups (svc_mgr s)) k = Some g \<and> r = row g)" for r
    by (simp add: image_iff) (metis option.map(2) option.sel)
  show ?thesis
  proof
    assume "conv \<in> cg_GroupID ` set (svc_ListGroups s)"
    then show "map_of (groups (svc_mgr s)) conv \<noteq> None" using g by (auto simp: in_list group_ok_def row_def)
  next
    assume "map_of (groups (svc_mgr s)) conv \<noteq> None"
    then obtain gr where gr: "map_of (groups (svc_mgr s)) conv = Some gr" by blast
    then have "g_ID gr = conv" using g by (simp add: group_ok_def)
    then have "conv = cg_GroupID (row gr)" by (simp add: row_def)
    moreover have "row gr \<in> set (svc_ListGroups s)" using gr in_list by blast
    ultimately show "conv \<in> cg_GroupID ` set (svc_ListGroups s)" by (rule image_eqI)
  qed
qed

lemma update_last:
  fixes p :: "'p itself" and w :: "'p world"
  assumes "ui_msgs u = ms @ [m]" "Update e w m (ui_app u) (ui_svc u) = Some (a, cs, s)"
  shows "ui_step e p u (u\<lparr>ui_app := a, ui_svc := s, ui_cmds := ui_cmds u @ cs, ui_msgs := ms\<rparr>)"
  using ui_step.ui_update [OF assms, of p] by simp

lemma run_last:
  fixes p :: "'p itself" and w :: "'p world"
  assumes "ui_cmds u = cs @ [c]" "run_cmd w False (am_cancelled (ui_app u)) c (ui_svc u) = (Returns (Some m), s)"
  shows "ui_step e p u (u\<lparr>ui_cmds := cs, ui_svc := s, ui_msgs := ui_msgs u @ [m]\<rparr>)"
  using ui_step.ui_run [OF assms, of e p] by simp

text \<open>C13: Enter in the input of a conversation sends its trimmed text once, and empties the input: the loop turns the key into a request, the
  request into a send, and the send is \<open>SendGroup\<close> exactly when the conversation is a group of the manager and \<open>SendDirect\<close>
  otherwise; its outcome comes back as the result message.\<close>

theorem enter_sends:
  fixes w :: "'p world" and u :: "('v, 'i) ui"
  defines "s \<equiv> ui_svc u" and "c \<equiv> am_chatView (ui_app u)"
  assumes "ui_reachable e TYPE('p) u" "am_focus (ui_app u) = focusChat" "\<not> am_showHelp (ui_app u)" "key_name k = ''enter''"
    and "body = TrimSpace (tea_Value (ue_tea e) (cw_input c))" "body \<noteq> []"
  shows "\<exists>v. (ui_step e TYPE('p))\<^sup>*\<^sup>* (u\<lparr>ui_msgs := ui_msgs u @ [KeyMsg k]\<rparr>) v
    \<and> cw_input (am_chatView (ui_app v)) = tea_Reset (ue_tea e) (cw_input c) \<and> ui_cmds v = ui_cmds u
    \<and> (if map_of (groups (svc_mgr s)) (cw_conversationID c) \<noteq> None
       then ui_svc v = snd (SendGroup (w_host w) (w_drv w) (w_clk w) (cw_conversationID c) body s)
         \<and> ui_msgs v = ui_msgs u @ [MsgSendResult (map_option GroupErr
             (fst (fst (SendGroup (w_host w) (w_drv w) (w_clk w) (cw_conversationID c) body s))))]
       else ui_svc v = snd (SendDirect (w_host w) (w_drv w) (w_clk w) (cw_conversationID c) body s)
         \<and> ui_msgs v = ui_msgs u @ [MsgSendResult (map_option DirectErr
             (fst (SendDirect (w_host w) (w_drv w) (w_clk w) (cw_conversationID c) body s)))])"
proof -
  let ?R = "ui_step e TYPE('p)" and ?u = "u\<lparr>ui_msgs := ui_msgs u @ [KeyMsg k]\<rparr>" and ?conv = "cw_conversationID c"
  have inv: "ui_inv TYPE('p) u" by (rule ui.reach_inv [OF assms(3)])
  then have "cw_focused c" "manager_inv (svc_mgr s)"
    using assms(4) svc.reach_inv [of "\<lambda>_ :: 'p host. True" "\<lambda>_. True" s] by (auto simp: ui_inv_def app_ok_def c_def s_def svc_inv_def)
  note grp = group_listed [OF this(2)]
  let ?a = "(ui_app u)\<lparr>am_chatView := c\<lparr>cw_input := tea_Reset (ue_tea e) (cw_input c)\<rparr>\<rparr>"
  have key: "Update e w (KeyMsg k) (ui_app u) s = Some (?a, [CmdMsg (msgSendRequest ?conv body)], s)"
    using assms(4-8) \<open>cw_focused c\<close> by (simp add: Update_def app_key_def chat_Update_def c_def Let_def)
  let ?u1 = "u\<lparr>ui_app := ?a, ui_cmds := ui_cmds u @ [CmdMsg (msgSendRequest ?conv body)]\<rparr>"
  have 1: "?R ?u ?u1" using update_last [where p = "TYPE('p)", of ?u "ui_msgs u" "KeyMsg k" e w] key by (simp add: s_def)
  let ?u2 = "u\<lparr>ui_app := ?a, ui_msgs := ui_msgs u @ [msgSendRequest ?conv body]\<rparr>"
  have 2: "?R ?u1 ?u2" using run_last [where p = "TYPE('p)", of ?u1 "ui_cmds u" _ w "msgSendRequest ?conv body" s e] by (simp add: s_def)
  let ?u3 = "u\<lparr>ui_app := ?a, ui_cmds := ui_cmds u @ [CmdSend ?conv body]\<rparr>"
  have 3: "?R ?u2 ?u3" using update_last [where p = "TYPE('p)", of ?u2 "ui_msgs u" "msgSendRequest ?conv body" e w ?a _ s] by (simp add: Update_def s_def)
  define r where "r = doSend w ?conv body s"
  let ?u4 = "u\<lparr>ui_app := ?a, ui_svc := snd r, ui_msgs := ui_msgs u @ [MsgSendResult (fst r)]\<rparr>"
  have 4: "?R ?u3 ?u4" using run_last [where p = "TYPE('p)", of ?u3 "ui_cmds u" "CmdSend ?conv body" w "MsgSendResult (fst r)" "snd r" e] by (simp add: r_def s_def split_def Let_def)
  have "?R\<^sup>*\<^sup>* ?u ?u4" by (rule rtranclp_trans [where r = ?R, OF two_steps [where r = ?R, OF 1 2] two_steps [where r = ?R, OF 3 4]])
  then show ?thesis
    by (intro exI [of _ ?u4]) (simp add: r_def doSend_def grp split_def Let_def)
qed

lemma bob_groups: "groups (svc_mgr bob_svc) = []"
proof -
  have "store_ListGroups no_faults bob_db = Inr []"
    using on_table_ready(2) [OF bob_db_ok(2)] by (simp add: store_ListGroups_def query_clean bob_db_eq fresh_db_messages)
  then show ?thesis by (simp add: bob_svc_def NewP2PService_def LoadFromStore_def NewManager_def)
qed

lemma bob_typed:
  obtains u where "ui_reachable demo_ui TYPE(string) u" "am_focus (ui_app u) = focusChat" "\<not> am_showHelp (ui_app u)"
    "cw_conversationID (am_chatView (ui_app u)) = ''bob''" "cw_input (am_chatView (ui_app u)) = (''x'', True)" "groups (svc_mgr (ui_svc u)) = []"
proof -
  obtain u where u: "ui_reachable demo_ui TYPE(string) u" "cw_conversationID (am_chatView (ui_app u)) = ''bob''"
    "am_focus (ui_app u) = focusChat" "\<not> am_showHelp (ui_app u)" "cw_input (am_chatView (ui_app u)) = ([], True)"
    "svc_mgr (ui_svc u) = svc_mgr bob_svc"
    by (rule bob_open)
  have "app_ok (ui_app u)" using ui.reach_inv [OF u(1)] by (simp add: ui_inv_def)
  then have "cw_focused (am_chatView (ui_app u))" using u(3) by (simp add: app_ok_def)
  then have "Update demo_ui demo_world (KeyMsg (typed ''x'')) (ui_app u) (ui_svc u)
      = Some ((ui_app u)\<lparr>am_chatView := (am_chatView (ui_app u))\<lparr>cw_input := (''x'', True)\<rparr>\<rparr>, [], ui_svc u)"
    using u(3-5) by (simp add: Update_def app_key_def chat_Update_def typed_def demo_defs lib_cmd_def Let_def)
  from press_key [OF u(1) this] show ?thesis by (rule that) (simp_all add: u bob_groups)
qed

lemma trim_x: "TrimSpace ''x'' = ''x''"
  by code_simp

theorem enter_sends_witness:
  "\<exists>(u :: (string \<times> int, string \<times> bool) ui) (v :: (string \<times> int, string \<times> bool) ui). fst (cw_input (am_chatView (ui_app u))) = ''x'' \<and> fst (cw_input (am_chatView (ui_app v))) = []
     \<and> ui_svc v = snd (SendDirect demo_host (\<lambda>_. no_faults) (\<lambda>_. 5) ''bob'' ''x'' (ui_svc u))"
proof -
  obtain u where u: "ui_reachable demo_ui TYPE(string) u" "am_focus (ui_app u) = focusChat" "\<not> am_showHelp (ui_app u)"
    "cw_conversationID (am_chatView (ui_app u)) = ''bob''" "cw_input (am_chatView (ui_app u)) = (''x'', True)" "groups (svc_mgr (ui_svc u)) = []"
    by (rule bob_typed)
  have w: "w_host demo_world = demo_host" "w_drv demo_world = (\<lambda>_. no_faults)" "w_clk demo_world = (\<lambda>_. 5)"
    "ue_tea demo_ui = demo_tea" "tea_Value demo_tea = fst" "tea_Reset demo_tea (''x'', True) = ([], True)" "key_name (typed ''enter'') = ''enter''"
    by (simp_all add: demo_world_def demo_defs typed_def)
  obtain v :: "(string \<times> int, string \<times> bool) ui" where "cw_input (am_chatView (ui_app v)) = ([], True)"
    "ui_svc v = snd (SendDirect demo_host (\<lambda>_. no_faults) (\<lambda>_. 5) ''bob'' ''x'' (ui_svc u))"
    using enter_sends [OF u(1-3), of "typed ''enter''" "''x''" demo_world] by (auto simp: w u(4-6) trim_x)
  then show ?thesis using u(5) by (intro exI [of _ u] exI [of _ v]) simp
qed

text \<open>C31: Scrolling the history has no visible effect: the flag that makes \<open>View\<close> fill the viewport and go to its bottom is set when the panel
  is created and never cleared in the model, since \<open>View\<close> clears it in a copy. After the keys that scroll, the screen is what it was. The viewport is
  only assumed to forget its position when it is filled and sent to the bottom.\<close>

theorem scroll_invisible:
  fixes w :: "'p world" and u :: "('v, 'i) ui"
  assumes "ui_reachable e TYPE('p) u" "am_focus (ui_app u) = focusChat" "\<not> am_showHelp (ui_app u)"
    and "key_name k \<in> {''pgup'', ''ctrl+b'', ''pgdown'', ''ctrl+f''}"
    and "\<And>x v. tea_GotoBottom (ue_tea e) (tea_SetContent (ue_tea e) x (tea_HalfViewUp (ue_tea e) v))
           = tea_GotoBottom (ue_tea e) (tea_SetContent (ue_tea e) x v)"
    and "\<And>x v. tea_GotoBottom (ue_tea e) (tea_SetContent (ue_tea e) x (tea_HalfViewDown (ue_tea e) v))
           = tea_GotoBottom (ue_tea e) (tea_SetContent (ue_tea e) x v)"
  shows "\<exists>m'. Update e w (KeyMsg k) (ui_app u) (ui_svc u) = Some (m', [], ui_svc u) \<and> ui_View e m' = ui_View e (ui_app u)"
proof -
  let ?m = "ui_app u" and ?c = "am_chatView (ui_app u)" and ?t = "ue_tea e"
  have ok: "cw_contentDirty ?c" "cw_focused ?c" using ui.reach_inv [OF assms(1)] assms(2) by (auto simp: ui_inv_def app_ok_def)
  have up: "key_name k = ''pgup'' \<or> key_name k = ''ctrl+b'' \<Longrightarrow>
      Update e w (KeyMsg k) ?m (ui_svc u) = Some (?m\<lparr>am_chatView := ?c\<lparr>cw_vp := tea_HalfViewUp ?t (cw_vp ?c)\<rparr>\<rparr>, [], ui_svc u)"
    and down: "key_name k = ''pgdown'' \<or> key_name k = ''ctrl+f'' \<Longrightarrow>
      Update e w (KeyMsg k) ?m (ui_svc u) = Some (?m\<lparr>am_chatView := ?c\<lparr>cw_vp := tea_HalfViewDown ?t (cw_vp ?c)\<rparr>\<rparr>, [], ui_svc u)"
    using assms(2,3) ok(2) by (elim disjE; simp add: Update_def app_key_def chat_Update_def Let_def)+
  obtain f where f: "f = tea_HalfViewUp ?t \<or> f = tea_HalfViewDown ?t"
    "Update e w (KeyMsg k) ?m (ui_svc u) = Some (?m\<lparr>am_chatView := ?c\<lparr>cw_vp := f (cw_vp ?c)\<rparr>\<rparr>, [], ui_svc u)"
    using up down assms(4) by blast
  have "tea_GotoBottom ?t (tea_SetContent ?t x (f v)) = tea_GotoBottom ?t (tea_SetContent ?t x v)" for x v
    using f(1) assms(5,6) by blast
  then have "chat_View ?t (ue_lip e) (?c\<lparr>cw_vp := f (cw_vp ?c)\<rparr>) = chat_View ?t (ue_lip e) ?c"
    using ok(1) by (simp add: chat_View_def buildContent_def Let_def cong: option.case_cong)
  then show ?thesis using f(2) by (simp add: ui_View_def cong: option.case_cong)
qed

theorem scroll_invisible_witness:
  "\<exists>(u :: (string \<times> int, string \<times> bool) ui) m'. cw_conversationID (am_chatView (ui_app u)) = ''bob''
     \<and> Update demo_ui demo_world (KeyMsg (typed ''pgup'')) (ui_app u) (ui_svc u) = Some (m', [], ui_svc u) \<and> ui_View demo_ui m' = ui_View demo_ui (ui_app u)"
proof -
  obtain u where u: "ui_reachable demo_ui TYPE(string) u" "am_focus (ui_app u) = focusChat" "\<not> am_showHelp (ui_app u)"
    "cw_conversationID (am_chatView (ui_app u)) = ''bob''"
    by (rule bob_typed)
  show ?thesis using scroll_invisible [OF u(1-3), of "typed ''pgup''" demo_world] u(4) by (auto simp: typed_def demo_defs)
qed

text \<open>C32: The letters h, l and the question mark cannot be typed into a message: the root model takes them as shortcuts before the input sees
  them, also while the input has the focus. They never change the text of the input, and h moves the focus away from it. The
  input is only assumed to keep its text when it gains or loses the focus.\<close>

theorem reserved_letters:
  fixes e :: "('v, 'i) ui_env"
  assumes "key_name k \<in> {''h'', ''l'', ''?''}"
    and "\<And>i. tea_Value (ue_tea e) (tea_Focus (ue_tea e) i) = tea_Value (ue_tea e) i"
    and "\<And>i. tea_Value (ue_tea e) (tea_Blur (ue_tea e) i) = tea_Value (ue_tea e) i"
  shows "\<exists>m'. Update e w (KeyMsg k) m s = Some (m', [], s)
    \<and> tea_Value (ue_tea e) (cw_input (am_chatView m')) = tea_Value (ue_tea e) (cw_input (am_chatView m))
    \<and> (key_name k = ''h'' \<and> \<not> am_showHelp m \<longrightarrow> am_focus m' = focusSidebar)"
  using assms by (auto simp: Update_def app_key_def setFocus_def chat_SetFocused_def Let_def)

text \<open>Typing hello into the empty input of a conversation leaves only the o.\<close>

definition type_keys :: "('v, 'i) ui_env \<Rightarrow> 'p world \<Rightarrow> P2PService \<Rightarrow> string list \<Rightarrow> ('v, 'i) AppModel \<Rightarrow> ('v, 'i) AppModel" where
  "type_keys e w s ks m = fold (\<lambda>k m. case Update e w (KeyMsg (typed k)) m s of Some (m', _, _) \<Rightarrow> m' | None \<Rightarrow> m) ks m"

theorem reserved_letters_witness:
  "fst (cw_input (am_chatView (type_keys demo_ui demo_world demo_svc [''h'', ''e'', ''l'', ''l'', ''o''] (setFocus demo_ui focusChat (ui_New demo_ui))))) = ''o''
   \<and> (\<exists>m'. Update demo_ui demo_world (KeyMsg (typed ''h'')) (setFocus demo_ui focusChat (ui_New demo_ui)) demo_svc = Some (m', [], demo_svc)
        \<and> fst (cw_input (am_chatView m')) = [] \<and> am_focus m' = focusSidebar)"
proof
  show "fst (cw_input (am_chatView (type_keys demo_ui demo_world demo_svc [''h'', ''e'', ''l'', ''l'', ''o''] (setFocus demo_ui focusChat (ui_New demo_ui))))) = ''o''"
    by (simp add: type_keys_def typed_def Update_def app_key_def setFocus_def ui_New_def chat_SetFocused_def sidebar_SetFocused_def newSidebar_def
        sidebar_Update_def chat_Update_def newChatView_def demo_defs Let_def)
  show "\<exists>m'. Update demo_ui demo_world (KeyMsg (typed ''h'')) (setFocus demo_ui focusChat (ui_New demo_ui)) demo_svc = Some (m', [], demo_svc)
        \<and> fst (cw_input (am_chatView m')) = [] \<and> am_focus m' = focusSidebar"
    using reserved_letters [of "typed ''h''" demo_ui demo_world "setFocus demo_ui focusChat (ui_New demo_ui)" demo_svc]
    by (simp add: typed_def demo_defs) (simp add: setFocus_def ui_New_def chat_SetFocused_def newChatView_def demo_defs)
qed

end
