(* ===== verification/Spec2Isabelle.thy ===== *)
theory Spec2Isabelle
  imports Chat_Laws Discovery Dht_Laws Tcp_Client Runtime Ui_Session
begin

text \<open>
  SKALL is a terminal chat between peers, written in Go. This library models its implementation under \<^verbatim>\<open>src/\<close> and proves what makes its
  parts correct, alone and together.

  \<^bold>\<open>The program.\<close> Messages (\<^verbatim>\<open>internal/protocol\<close>) are framed JSON. In the p2p mode a libp2p node (\<^verbatim>\<open>internal/network/p2p\<close>) carries them
  over streams; bootstrap peers, the DHT and mDNS find peers, the connection manager dials those that LAN discovery
  (\<^verbatim>\<open>internal/network/discovery\<close>, \<^verbatim>\<open>connection\<close>) reports. The chat service (\<^verbatim>\<open>internal/chat\<close>) stores what is sent and received in SQLite
  (\<^verbatim>\<open>internal/storage\<close>), keeps groups in the group manager (\<^verbatim>\<open>internal/groups\<close>), and publishes events to subscribers; the
  terminal interface (\<^verbatim>\<open>internal/ui\<close>) is one. In the TCP mode a server relays frames between terminal clients (\<^verbatim>\<open>internal/network\<close>). The identity
  and the configuration are files (\<^verbatim>\<open>internal/identity\<close>, \<^verbatim>\<open>internal/config\<close>), and \<^verbatim>\<open>cmd/skall/main.go\<close> chooses a command and wires the parts.

  \<^bold>\<open>Theories and sources.\<close>

  \<^item> Go itself: \<open>Skall_Prelude\<close> (bytes, trimming, integers, maps as association lists, buffered channels, reachability and the
    locales \<open>go_map\<close>, \<open>bounded_buffer\<close>, \<open>invariant_system\<close>), \<open>Go_Time\<close> (calendar, RFC 3339), \<open>Go_Json\<close> (encoder and decoder), \<open>Go_Net\<close>
    (host and port, paths), \<open>Go_Files\<close> (files with faults, base64), \<open>Sha256\<close>.
  \<^item> \<open>Protocol\<close> (\<^verbatim>\<open>message.go\<close>) and \<open>Framing\<close> (\<^verbatim>\<open>framing.go\<close>): the message and its frame. The locale \<open>stream_codec\<close> is the contract
    of a self-delimiting code; it is interpreted on the frames.
  \<^item> \<open>Group_Manager\<close> (\<^verbatim>\<open>groups/group.go\<close>), \<open>Storage\<close> (\<^verbatim>\<open>storage/store.go\<close>, one record field per table), \<open>Store_Laws\<close>, and
    \<open>Group_Directory\<close> (\<^verbatim>\<open>groups/persistence.go\<close>), where both implement the abstract directory of \<open>Directory\<close> (locale \<open>membership_directory\<close>).
  \<^item> \<open>Identity\<close>, \<open>Identity_Store\<close> (\<^verbatim>\<open>internal/identity\<close>), \<open>Config\<close> (\<^verbatim>\<open>internal/config\<close>).
  \<^item> \<open>Chat_Service\<close> and \<open>Chat_Laws\<close> (\<^verbatim>\<open>internal/chat\<close>): every method of \<open>P2PService\<close>, the inbound handler and the monitor.
  \<^item> \<open>Connection_Manager\<close>, \<open>Discovery\<close> (locale \<open>connection_tracker\<close>: what the connector needs of the manager), \<open>Backoff\<close>, \<open>Peer_Addr\<close>, \<open>Bootstrap\<close>,
    \<open>Dht\<close>, \<open>Dht_Laws\<close>, \<open>Node\<close> (\<^verbatim>\<open>internal/network/p2p\<close>).
  \<^item> \<open>Tcp_Server\<close>, \<open>Tcp_Laws\<close>, \<open>Tcp_Client\<close> (\<^verbatim>\<open>internal/network/tcp.go\<close>, \<^verbatim>\<open>client.go\<close>).
  \<^item> \<open>Ui_Views\<close> (the panels), \<open>Ui_App\<close> (\<^verbatim>\<open>app.go\<close> and the loop that drives it), \<open>Ui_Laws\<close> (locale \<open>event_source\<close>: what the
    listener relies on), \<open>Ui_Session\<close> (\<^verbatim>\<open>internal/ui\<close>).
  \<^item> \<open>Cli\<close> and \<open>Runtime\<close> (\<^verbatim>\<open>cmd/skall/main.go\<close>, \<^verbatim>\<open>internal/version\<close>), and this theory for what spans components.

  \<^bold>\<open>How code is represented.\<close> Structs are records, enums and error values datatypes; a method takes the state and returns it. Errors,
  panics (send on a closed channel, write to a nil map, index out of range, negative \<open>strings.Repeat\<close>) and loops that never
  return are values of the result. What Go leaves open is an argument: the clock and the faults of calls are tapes, the order of a map
  traversal is a function \<open>shuf\<close>, the order in which goroutines finish a list. A section under a mutex is atomic; where the code
  releases the lock between a test and an action the model has two steps. Goroutines are pending runs of a state, or steps of an inductive
  relation, and invariants hold in every reachable state (\<open>reach\<close>, \<open>invariant_system\<close>). Third-party code (libp2p, multiaddresses, zeroconf,
  Ed25519, the SQLite driver, Bubble Tea, Bubbles, Lip Gloss) is a parameter, with documented behaviour as named hypotheses.

  \<^bold>\<open>What is shown.\<close> The keys of the database stay unique and its references sound under any calls and faults; messages, identities and the
  configuration survive being written and read; frames are read back exactly and a hostile stream cannot exceed the frame limit.
  Groups in memory are those in the tables and come back after a restart. A direct message goes from one service over the node
  to the other database unchanged; a line typed in the TCP client reaches every other client. Group messages are admitted once and
  delivered to the members. Server, subscribers and routing table stay within their bounds. The dials, retries and lookups end as the code
  intends. The interface handles every message without a panic, shows what arrives in the open conversation and sends what is entered.
  Some theorems state behaviour the code does not intend: a sender that can be spoofed, a dial outcome written to the wrong entry, a
  race that panics, an interface that stops hearing events, loses one of a burst, cannot scroll and swallows letters.

  \<^bold>\<open>Bounds and termination.\<close> Loops are structural or have a measure. The write loop and the retry loop, which need not end, are partial
  functions with \<open>None\<close> for not returning; theorems about writing assume a writer that makes progress and show the result, and the
  retry loop with a limit is proved to return. No definition uses fuel. Integers are unbounded except where the code wraps: frame
  lengths, the time in nanoseconds, durations and the floating point of the backoff, each at its width.

  \<^bold>\<open>Not modelled.\<close> The text of \<open>printHelp\<close>, log lines and the texts of wrapped errors; colours and borders (\<^verbatim>\<open>styles.go\<close>, except the layout constants);
  the inside of the parameters above; data races on memory the code does not lock. The interface \<open>ChatService\<close> (\<^verbatim>\<open>chat/service.go\<close>) has
  signatures only; its one implementation is modelled. Cancellation of contexts is modelled where it changes a result, not its timing.
\<close>

section \<open>Properties that span components\<close>

text \<open>C1: A direct message goes from one user's service to the other user's history: with streams that work, the send
  succeeds, its frame is what the other node reads, that node's handler gets the message as it was composed together
  with the id of the sending node, and after the service has handled it the message is found in the receiving
  database with all its fields (the recipient trimmed), marked inbound and received.\<close>

theorem direct_message_end_to_end:
  fixes na nb :: "'ma Node"
  assumes "svc_reachable H F a" "svc_reachable H' F' b" "progressive wr" "faultless wr"
    and "ha = node_host pstr dec self connected wr na" "m = NewChatMessage (clk 0) (sender_id ha a) peerID [] body" "sendable m"
    and "dec peerID = Some pb" "pb \<noteq> nd_ID na" "nd_handler nb"
    and "length (h_String hb (nd_ID na)) \<le> 512" "map_of (db_messages (svc_db b)) (ID m) = None"
  shows "fst (SendDirect ha (\<lambda>_. no_faults) clk peerID body a) = None
    \<and> (\<exists>out. nd_SendMessage None None wr pb m na = Some (None, out, False)
        \<and> nd_handleStream None EOF out (nd_ID na) nb = (Some (m, nd_ID na), False))
    \<and> (\<exists>x. GetMessage no_faults (ID m) (svc_db (handleInbound hb (\<lambda>_. no_faults) clk' m (nd_ID na) b)) = Inr x
        \<and> st_Message x = m\<lparr>RecipientID := TrimSpace peerID\<rparr> \<and> st_Direction x = ''inbound'' \<and> st_Status x = ''received'')"
proof (intro conjI)
  have send: "nd_SendMessage None None wr pb m na = Some (None, message_frame m, False)"
    by (rule nd_SendMessage_whole [OF assms(3,4,7,9)])
  then have "h_Send ha pb m = None" "skallToLibP2P ha peerID = Inr pb"
    using assms(5,8) by (simp_all add: node_host_def skallToLibP2P_def)
  then show "fst (SendDirect ha (\<lambda>_. no_faults) clk peerID body a) = None"
    using assms(6) by (simp add: SendDirect_def Let_def)
  have "nd_handleStream None EOF (message_frame m) (nd_ID na) nb = (Some (m, nd_ID na), False)"
    using ReadMessage_message_frame [OF assms(7), of EOF "[]"] assms(10) by (simp add: nd_handleStream_def)
  with send show "\<exists>out. nd_SendMessage None None wr pb m na = Some (None, out, False)
        \<and> nd_handleStream None EOF out (nd_ID na) nb = (Some (m, nd_ID na), False)" by blast
  have "svc_inv b" by (rule svc.reach_inv [OF assms(2)])
  moreover have "TrimSpace (ID m) = ID m" "RecipientID m = peerID" "m\<lparr>RecipientID := r, GroupID := TrimSpace (GroupID m)\<rparr> = m\<lparr>RecipientID := r\<rparr>" for r
    by (simp_all add: assms(6) NewChatMessage_def)
  ultimately show "\<exists>x. GetMessage no_faults (ID m) (svc_db (handleInbound hb (\<lambda>_. no_faults) clk' m (nd_ID na) b)) = Inr x
        \<and> st_Message x = m\<lparr>RecipientID := TrimSpace peerID\<rparr> \<and> st_Direction x = ''inbound'' \<and> st_Status x = ''received''"
    using handleInbound_stores [of b m hb "nd_ID na" clk'] assms(7,11,12) by simp
qed

definition demo_node_host :: "string host" where
  "demo_node_host = node_host (\<lambda>p. p) Some (\<lambda>_. Some ''ann'') [] demo_conn_writer (demo_node ''ann'')"

theorem direct_message_end_to_end_witness:
  "fst (SendDirect demo_node_host (\<lambda>_. no_faults) (\<lambda>_. 5) ''bob'' ''hi'' demo_svc) = None
   \<and> (\<exists>x. GetMessage no_faults (FormatInt (UnixNano 5)) (svc_db (handleInbound demo_node_host (\<lambda>_. no_faults) (\<lambda>_. 6)
        (NewChatMessage 5 ''ann'' ''bob'' [] ''hi'') ''ann'' demo_svc)) = Inr x \<and> st_Status x = ''received'')"
proof -
  have w: "progressive demo_conn_writer" "faultless demo_conn_writer"
    by (simp_all add: progressive_def faultless_def demo_conn_writer_def)
  have id: "nd_ID (demo_node i) = i" "nd_handler (demo_node i)" for i
    by (simp_all add: nd_ID_def demo_node_def newNode_def SetMessageHandler_def)
  have s: "sender_id demo_node_host demo_svc = ''ann''" "h_String demo_node_host p = p" for p
    by (simp_all add: sender_id_def self_id_def demo_node_host_def node_host_def)
  have m: "sendable (NewChatMessage 5 ''ann'' ''bob'' [] ''hi'')" by code_simp
  have i: "ID (NewChatMessage 5 ''ann'' ''bob'' [] ''hi'') = FormatInt (UnixNano 5)" by (simp add: NewChatMessage_def)
  have ne: "''bob'' \<noteq> nd_ID (demo_node ''ann'')" by (simp add: id)
  have no: "map_of (db_messages (svc_db demo_svc)) (ID (NewChatMessage 5 ''ann'' ''bob'' [] ''hi'')) = None"
    by (simp add: demo_svc_groups fresh_db_messages)
  have ha: "m = NewChatMessage ((\<lambda>_. 5) (0::nat)) (sender_id demo_node_host demo_svc) ''bob'' [] ''hi''"
    if "m = NewChatMessage 5 ''ann'' ''bob'' [] ''hi''" for m using that by (simp add: s)
  show ?thesis
    using direct_message_end_to_end [OF demo_svc_reachable demo_svc_reachable w demo_node_host_def ha [OF refl] m refl ne id(2) _ no,
        where hb = demo_node_host and clk' = "\<lambda>_. 6"] by (auto simp: s id i)
qed

text \<open>C11: The program starts in the state that the service laws start from: when the node and the network services come up and
  no database operation fails, \<open>runTUI\<close> hands the interface a service that is an initial state of the service model, for
  the local identity, with the node's handler in place, the stored messages untouched and exactly the stored groups
  with their active members in memory; the interface on it starts in an initial state of its own model.\<close>

theorem tui_starts_service:
  assumes "clean_run e" "db_reachable d" "store_path (re_env e) (re_ucd e) cfg = Inr path" "TrimSpace path \<noteq> []"
    and "buildNodeFromConfig nw i cfg listenAddr = Inr n" "startNetworkServices nw n cfg = Inr rt"
  shows "\<exists>s d'. tui_start nw e i cfg listenAddr peers d =
      (Inr (s, SetMessageHandler n, rt, connectPeerTargets nw n (peers @ n_BootstrapPeers (c_Network cfg))), d')
    \<and> svc_reachable H F s \<and> svc_local s = i \<and> svc_db s = d' \<and> db_messages d' = db_messages d
    \<and> mgr_dir (svc_mgr s) = db_dir d' \<and> db_dir d' = db_dir d \<and> ui_init ue (ui_start ue s)"
proof -
  have inv: "db_inv d" by (rule db.reach_inv [OF assms(2)])
  obtain st d' where o: "openStore (re_open e) (re_env e) (re_ucd e) cfg d = (Inr st, d')" "db_ready d'"
    "db_groups d' = db_groups d" "db_memberships d' = db_memberships d" "db_messages d' = db_messages d" "store_step d d'"
    using openStore_clean [OF assms(1,3,4) inv] by blast
  have r: "db_reachable d'" by (rule reach_step [OF assms(2) o(6)])
  have drv: "re_drv e = (\<lambda>_. no_faults)" using assms(1) by (simp add: clean_run_def)
  let ?s = "NewP2PService i d' (snd (LoadFromStore (\<lambda>_. no_faults) d' NewManager))"
  have init: "svc_init ?s" using r o(2) unfolding svc_init_def by blast
  then have "mgr_dir (svc_mgr ?s) = db_dir d'"
    using svc_init_ok [OF init] by (simp add: in_sync_def NewP2PService_def)
  moreover have "db_dir d' = db_dir d" using o(3,4) by (simp add: db_dir_def fun_eq_iff)
  moreover have "svc_reachable H F ?s" by (rule reach_init) (rule init)
  moreover have "ui_init ue (ui_start ue ?s)" using init unfolding ui_init_def by blast
  moreover have "svc_local ?s = i" "svc_db ?s = d'" by (simp_all add: NewP2PService_def)
  ultimately show ?thesis using assms(5,6) o(1,5) by (simp add: tui_start_def Let_def drv)
qed

definition demo_network :: "(string, string) network" where
  "demo_network = \<lparr>nw_lib = demo_lib, nw_conv = Some, nw_new = (\<lambda>_. Inr \<lparr>lh_ID = ''ann'', lh_String = ''ann'', lh_Addrs = [], lh_handlers = []\<rparr>),
     nw_mdns = None, nw_String = (\<lambda>p. p), nw_dial = (\<lambda>_. None), nw_order = [], nw_boot = (\<lambda>_. None), nw_dur = (\<lambda>_. 0)\<rparr>"

definition demo_start_config :: Config where
  "demo_start_config = DefaultConfig (re_env demo_run) (re_ucd demo_run)"

theorem tui_starts_service_witness:
  "\<exists>s d' n rt. tui_start demo_network demo_run demo_identity demo_start_config [] [] fresh_db = (Inr (s, n, rt, []), d')
    \<and> db_messages d' = db_messages fresh_db"
proof -
  have "JoinPath [''.skall'', ''skall.db''] = ''.skall/skall.db''" by code_simp
  then have p: "store_path (re_env demo_run) (re_ucd demo_run) demo_start_config = Inr ''.skall/skall.db''"
    by (simp add: store_path_def demo_run_def demo_start_config_def DefaultConfig_def Let_def)
  have t: "TrimSpace ''.skall/skall.db'' \<noteq> []" by code_simp
  have k: "i_PrivateKey demo_identity \<noteq> []" by (simp add: demo_identity_def)
  obtain n where n: "buildNodeFromConfig demo_network demo_identity demo_start_config [] = Inr n"
    using k by (simp add: buildNodeFromConfig_def BuildNodeWithOptions_def demo_network_def config_options_def demo_start_config_def
        DefaultConfig_def Let_def LibP2PPrivKey_def)
  have m: "\<not> EqualFold ''auto'' ''disabled''" "ToLower (TrimSpace ''auto'') = ''auto''" by code_simp+
  obtain rt where rt: "startNetworkServices demo_network n demo_start_config = Inr rt"
    using m by (simp add: startNetworkServices_def demo_start_config_def DefaultConfig_def Let_def dht_config_def NewDHTManager_def
        DHTModeDisabled_def DHTModeAuto_def)
  have b: "n_BootstrapPeers (c_Network demo_start_config) = []" by (simp add: demo_start_config_def DefaultConfig_def Let_def)
  show ?thesis
    using tui_starts_service [OF demo_run_clean fresh_db_reachable p t n rt, of "[]"] by (fastforce simp: b connectPeerTargets_def)
qed

end
